(* ===== verification/Prelude.thy ===== *)
theory Prelude
  imports Complex_Main "HOL-Library.Sublist"
begin

text \<open>
  The shared vocabulary of the development.

  Go code of the simulator is embedded as state-passing functions
  \<open>'w \<Rightarrow> 'a res \<times> 'w\<close>: the world \<open>'w\<close> is what the code can mutate, and a
  call returns a value, returns an error, panics, or never returns. \<open>bindE\<close> is the
  idiom \<open>x, err := m(); if err != nil { return err }\<close>. The theory also holds the
  string functions of Go's standard library that the sources call
  (\<open>strings.TrimSpace\<close>, \<open>strings.EqualFold\<close>, \<open>strings.ToLower\<close>, \<open>strings.Split\<close>)
  and the lemma collections shared by the component theories.
\<close>

named_theorems go_simps \<open>rewrite rules of the state-passing combinators\<close>
named_theorems go_answers \<open>operations that come back with a value or an error\<close>

named_theorems go_keeps \<open>preservation rules: which operations keep which facts\<close>

subsection \<open>Errors and results\<close>

text \<open>
  \<open>Errorf\<close> is an error made by \<open>fmt.Errorf\<close> or \<open>errors.New\<close> in the sources,
  \<open>Wrapf\<close> one made with a \<open>%w\<close> verb, \<open>Joined\<close> is \<open>errors.Join\<close>,
  \<open>Ext\<close> an error value that comes from a library the sources only call. The code never
  looks into the text of an error, so the texts leave out the quotation marks of \<open>%q\<close>
  and the printed name of an enum value.
\<close>

datatype error =
    Errorf string
  | Wrapf string error
  | Joined error error
  | Ext string
  | ContextCanceled
  | ContextDeadlineExceeded
  | ErrNoSuitablePeriod

text \<open>\<open>errors.Is(err, context.Canceled)\<close>: through wrapping and joining.\<close>

fun isCanceled :: "error \<Rightarrow> bool" where
  "isCanceled ContextCanceled = True"
| "isCanceled (Wrapf _ e) = isCanceled e"
| "isCanceled (Joined a b) = (isCanceled a \<or> isCanceled b)"
| "isCanceled _ = False"

text \<open>
  The outcome of a call: a value, an error, a run-time panic, or no return at all
  (the goroutine stays blocked under the schedule at hand).
\<close>

datatype 'a res = Ret 'a | Err error | Panics string | Blocks

type_synonym ('w, 'a) go = "'w \<Rightarrow> 'a res \<times> 'w"

definition ret :: "'a \<Rightarrow> ('w, 'a) go" where
  "ret a = (\<lambda>w. (Ret a, w))"

definition throw :: "error \<Rightarrow> ('w, 'a) go" where
  "throw e = (\<lambda>w. (Err e, w))"

definition panic :: "string \<Rightarrow> ('w, 'a) go" where
  "panic s = (\<lambda>w. (Panics s, w))"

definition block :: "('w, 'a) go" where
  "block = (\<lambda>w. (Blocks, w))"

definition getW :: "('w \<Rightarrow> 'a) \<Rightarrow> ('w, 'a) go" where
  "getW f = (\<lambda>w. (Ret (f w), w))"

definition modW :: "('w \<Rightarrow> 'w) \<Rightarrow> ('w, unit) go" where
  "modW f = (\<lambda>w. (Ret (), f w))"

definition bindE :: "('w, 'a) go \<Rightarrow> ('a \<Rightarrow> ('w, 'b) go) \<Rightarrow> ('w, 'b) go" where
  "bindE m k = (\<lambda>w. case m w of
      (Ret a, w') \<Rightarrow> k a w'
    | (Err e, w') \<Rightarrow> (Err e, w')
    | (Panics s, w') \<Rightarrow> (Panics s, w')
    | (Blocks, w') \<Rightarrow> (Blocks, w'))"

definition thenE :: "('w, 'a) go \<Rightarrow> ('w, 'b) go \<Rightarrow> ('w, 'b) go" where
  "thenE m k = bindE m (\<lambda>_. k)"

text \<open>\<open>_ = m()\<close>: the error is dropped.\<close>

definition ignoreErr :: "('w, unit) go \<Rightarrow> ('w, unit) go" where
  "ignoreErr m = (\<lambda>w. case m w of (Err e, w') \<Rightarrow> (Ret (), w') | r \<Rightarrow> r)"

text \<open>Turn a returned error into a value: \<open>if err := m(); err == nil { ... } else { ... }\<close>.\<close>

definition tryE :: "('w, 'a) go \<Rightarrow> ('w, error + 'a) go" where
  "tryE m = (\<lambda>w. case m w of
      (Ret a, w') \<Rightarrow> (Ret (Inr a), w')
    | (Err e, w') \<Rightarrow> (Ret (Inl e), w')
    | (Panics s, w') \<Rightarrow> (Panics s, w')
    | (Blocks, w') \<Rightarrow> (Blocks, w'))"

lemma bindE_simps [go_simps, simp]:
  "bindE (ret a) k = k a"
  "bindE (throw e) k = throw e"
  "bindE (panic s) k = panic s"
  "bindE block k = block"
  by (simp_all add: bindE_def ret_def throw_def panic_def block_def)

lemma ret_bindE [simp]: "bindE m ret = m"
  by (rule ext) (simp add: bindE_def ret_def split: prod.splits res.splits)

lemma bindE_assoc: "bindE (bindE m k) h = bindE m (\<lambda>a. bindE (k a) h)"
  by (rule ext) (simp add: bindE_def split: prod.splits res.splits)

lemma go_run [go_simps, simp]:
  "ret a w = (Ret a, w)"
  "throw e w = (Err e, w)"
  "panic s w = (Panics s, w)"
  "block w = (Blocks, w)"
  "getW f w = (Ret (f w), w)"
  "modW g w = (Ret (), g w)"
  by (simp_all add: ret_def throw_def panic_def block_def getW_def modW_def)

lemma bindE_run:
  "m w = (Ret a, w') \<Longrightarrow> bindE m k w = k a w'"
  "m w = (Err e, w') \<Longrightarrow> bindE m k w = (Err e, w')"
  "m w = (Panics s, w') \<Longrightarrow> bindE m k w = (Panics s, w')"
  "m w = (Blocks, w') \<Longrightarrow> bindE m k w = (Blocks, w')"
  by (simp_all add: bindE_def)

lemma bindE_False: "m w = (Ret False, w') \<Longrightarrow> bindE m k w = k False w'"
  by (simp add: bindE_run)

lemma thenE_run: "m w = (Ret a, w') \<Longrightarrow> thenE m k w = k w'"
  by (simp add: thenE_def bindE_run)

lemma tryE_run: "m w = (Ret a, w') \<Longrightarrow> tryE m w = (Ret (Inr a), w')"
  by (simp add: tryE_def)

lemma bindE_getW [go_simps, simp]: "bindE (getW f) k w = k (f w) w"
  by (simp add: bindE_def)

lemma bindE_modW [go_simps, simp]: "bindE (modW f) k w = k () (f w)"
  by (simp add: bindE_def)

lemma thenE_modW [go_simps, simp]: "thenE (modW f) k w = k (f w)"
  by (simp add: thenE_def)

lemma thenE_simps [go_simps, simp]:
  "thenE (ret a) k = k"
  "thenE (throw e) k = throw e"
  "thenE (panic s) k = panic s"
  "thenE block k = block"
  by (simp_all add: thenE_def)

lemma thenE_assoc: "thenE (thenE a b) c = thenE a (thenE b c)"
  by (simp add: thenE_def bindE_assoc)

lemma thenE_bindE: "thenE (bindE m k) c = bindE m (\<lambda>a. thenE (k a) c)"
  by (simp add: thenE_def bindE_assoc)

lemma bindE_Ret_iff:
  "bindE m k w = (Ret b, w'') \<longleftrightarrow> (\<exists>a w'. m w = (Ret a, w') \<and> k a w' = (Ret b, w''))"
  by (auto simp: bindE_def split: prod.splits res.splits)

lemma thenE_Ret_iff:
  "thenE m k w = (Ret b, w'') \<longleftrightarrow> (\<exists>a w'. m w = (Ret a, w') \<and> k w' = (Ret b, w''))"
  by (simp add: thenE_def bindE_Ret_iff)

lemma bindE_Err_iff:
  "bindE m k w = (Err e, w'') \<longleftrightarrow>
     m w = (Err e, w'') \<or> (\<exists>a w'. m w = (Ret a, w') \<and> k a w' = (Err e, w''))"
  by (auto simp: bindE_def split: prod.splits res.splits)

lemma ignoreErr_Ret_iff:
  "ignoreErr m w = (Ret u, w') \<longleftrightarrow> m w = (Ret u, w') \<or> (\<exists>e. m w = (Err e, w'))"
  by (cases u) (auto simp: ignoreErr_def split: prod.splits res.splits)

lemma tryE_Ret_iff:
  "tryE m w = (Ret (Inr a), w') \<longleftrightarrow> m w = (Ret a, w')"
  "tryE m w = (Ret (Inl e), w') \<longleftrightarrow> m w = (Err e, w')"
  by (auto simp: tryE_def split: prod.splits res.splits)

lemma tryE_case_Ret_iff:
  "bindE (tryE m) (\<lambda>r. case r of Inl e \<Rightarrow> f e | Inr a \<Rightarrow> g a) w = (Ret b, w'') \<longleftrightarrow>
     (\<exists>a w'. m w = (Ret a, w') \<and> g a w' = (Ret b, w'')) \<or> (\<exists>e w'. m w = (Err e, w') \<and> f e w' = (Ret b, w''))"
  by (auto simp: bindE_def tryE_def split: prod.splits res.splits)

lemma tryE_case_Err_iff:
  "bindE (tryE m) (\<lambda>r. case r of Inl e \<Rightarrow> f e | Inr a \<Rightarrow> g a) w = (Err b, w'') \<longleftrightarrow>
     (\<exists>a w'. m w = (Ret a, w') \<and> g a w' = (Err b, w'')) \<or> (\<exists>e w'. m w = (Err e, w') \<and> f e w' = (Err b, w''))"
  by (auto simp: bindE_def tryE_def split: prod.splits res.splits)

lemma if_go_run: "(if c then m else k) w = (if c then m w else k w)"
  by simp

subsection \<open>Preservation\<close>

text \<open>\<open>keeps P m\<close>: whatever the outcome of \<open>m\<close>, the world still satisfies \<open>P\<close>.\<close>

definition keeps :: "('w \<Rightarrow> bool) \<Rightarrow> ('w, 'a) go \<Rightarrow> bool" where
  "keeps P m \<longleftrightarrow> (\<forall>w. P w \<longrightarrow> P (snd (m w)))"

lemma keepsI: "(\<And>w r w'. P w \<Longrightarrow> m w = (r, w') \<Longrightarrow> P w') \<Longrightarrow> keeps P m"
  by (simp add: keeps_def) (metis prod.collapse)

lemma keepsD: "keeps P m \<Longrightarrow> P w \<Longrightarrow> m w = (r, w') \<Longrightarrow> P w'"
  by (metis keeps_def snd_conv)

lemma keeps_basic [go_keeps]:
  "keeps P (ret a)" "keeps P (throw e)" "keeps P (panic s)" "keeps P block" "keeps P (getW f)"
  by (simp_all add: keeps_def)

lemma keeps_modW [go_keeps]: "(\<And>w. P w \<Longrightarrow> P (f w)) \<Longrightarrow> keeps P (modW f)"
  by (simp add: keeps_def)

lemma keeps_bindE [go_keeps]:
  assumes "keeps P m" and "\<And>a. keeps P (k a)"
  shows "keeps P (bindE m k)"
proof (rule keepsI)
  fix w r w'
  assume "P w" and run: "bindE m k w = (r, w')"
  obtain r1 w1 where m: "m w = (r1, w1)" by (cases "m w")
  then have "P w1" using \<open>P w\<close> assms(1) by (blast dest: keepsD)
  with m run assms(2) show "P w'"
    by (cases r1) (auto simp: bindE_def dest: keepsD)
qed

lemma keeps_thenE [go_keeps]: "keeps P m \<Longrightarrow> keeps P k \<Longrightarrow> keeps P (thenE m k)"
  by (simp add: thenE_def keeps_bindE)

lemma keeps_if [go_keeps]: "keeps P m \<Longrightarrow> keeps P k \<Longrightarrow> keeps P (if c then m else k)"
  by simp

lemma keeps_ignoreErr [go_keeps]: "keeps P m \<Longrightarrow> keeps P (ignoreErr m)"
  by (auto simp: keeps_def ignoreErr_def split: prod.splits res.splits)

lemma keeps_tryE [go_keeps]: "keeps P m \<Longrightarrow> keeps P (tryE m)"
  by (auto simp: keeps_def tryE_def split: prod.splits res.splits)

lemma keeps_case_option [go_keeps]:
  "keeps P m \<Longrightarrow> (\<And>x. keeps P (k x)) \<Longrightarrow> keeps P (case z of None \<Rightarrow> m | Some x \<Rightarrow> k x)"
  by (simp split: option.splits)

subsection \<open>Returning\<close>

text \<open>\<open>noBlock m\<close>: the call returns (a value, an error or a panic) in every world.\<close>

named_theorems go_returns \<open>rules for calls that always return\<close>

definition noBlock :: "('w, 'a) go \<Rightarrow> bool" where
  "noBlock m \<longleftrightarrow> (\<forall>w. fst (m w) \<noteq> Blocks)"

lemma noBlock_basic [go_returns]:
  "noBlock (ret a)" "noBlock (throw e)" "noBlock (panic s)" "noBlock (getW f)" "noBlock (modW g)"
  by (simp_all add: noBlock_def)

lemma noBlock_bindE_dep:
  assumes "noBlock m" and "\<And>a w w'. m w = (Ret a, w') \<Longrightarrow> fst (k a w') \<noteq> Blocks"
  shows "noBlock (bindE m k)"
  using assms by (auto simp: noBlock_def bindE_def split: prod.splits res.splits) (metis fst_conv)

lemma noBlock_bindE [go_returns]: "noBlock m \<Longrightarrow> (\<And>a. noBlock (k a)) \<Longrightarrow> noBlock (bindE m k)"
  by (rule noBlock_bindE_dep) (simp_all add: noBlock_def)

lemma noBlock_thenE [go_returns]: "noBlock m \<Longrightarrow> noBlock k \<Longrightarrow> noBlock (thenE m k)"
  by (simp add: thenE_def noBlock_bindE)

lemma noBlock_if [go_returns]: "(c \<Longrightarrow> noBlock m) \<Longrightarrow> (\<not> c \<Longrightarrow> noBlock k) \<Longrightarrow> noBlock (if c then m else k)"
  by simp

lemma noBlock_case_option [go_returns]:
  "noBlock m \<Longrightarrow> (\<And>x. noBlock (k x)) \<Longrightarrow> noBlock (case z of None \<Rightarrow> m | Some x \<Rightarrow> k x)"
  by (simp split: option.splits)

lemma noBlock_Let [go_returns]: "noBlock (f a) \<Longrightarrow> noBlock (Let a f)"
  by simp

subsection \<open>Strings\<close>

text \<open>A Go string is a byte sequence; \<open>char\<close> is an 8-bit character.\<close>

definition ascii :: "string \<Rightarrow> bool" where
  "ascii s \<longleftrightarrow> list_all (\<lambda>c. of_char c < (128::nat)) s"

definition lower_char :: "char \<Rightarrow> char" where
  "lower_char c = (let n = (of_char c :: nat) in if 65 \<le> n \<and> n \<le> 90 then char_of (n + 32) else c)"

definition lower_ascii :: "string \<Rightarrow> string" where
  "lower_ascii = map lower_char"

text \<open>
  \<open>strings.ToLower\<close> and \<open>strings.EqualFold\<close>. Their ASCII branch is written out;
  beyond ASCII they read Unicode tables, which are the parameters \<open>uni\<close>.
\<close>

definition ToLower :: "(string \<Rightarrow> string) \<Rightarrow> string \<Rightarrow> string" where
  "ToLower uni s = (if ascii s then lower_ascii s else uni s)"

definition EqualFold :: "(string \<Rightarrow> string \<Rightarrow> bool) \<Rightarrow> string \<Rightarrow> string \<Rightarrow> bool" where
  "EqualFold uni s t =
     (if ascii s \<and> ascii t then lower_ascii s = lower_ascii t else uni s t)"

text \<open>The UTF-8 encodings of the characters \<open>unicode.IsSpace\<close> accepts.\<close>

definition space_encodings :: "string list" where
  "space_encodings = map (map char_of) ([[9], [10], [11], [12], [13], [32], [194, 133], [194, 160],
     [225, 154, 128], [226, 128, 168], [226, 128, 169], [226, 128, 175], [226, 129, 159],
     [227, 128, 128], [226, 128, 128], [226, 128, 129], [226, 128, 130], [226, 128, 131],
     [226, 128, 132], [226, 128, 133], [226, 128, 134], [226, 128, 135], [226, 128, 136],
     [226, 128, 137], [226, 128, 138]] :: nat list list)"

fun strip_prefixes :: "string list \<Rightarrow> nat \<Rightarrow> string \<Rightarrow> string" where
  "strip_prefixes ps 0 s = s"
| "strip_prefixes ps (Suc n) s =
     (case find (\<lambda>p. prefix p s) ps of None \<Rightarrow> s | Some p \<Rightarrow> strip_prefixes ps n (drop (length p) s))"

text \<open>\<open>strings.TrimSpace\<close>; every round drops at least one byte, so \<open>length s\<close> rounds are enough.\<close>

definition TrimSpace :: "string \<Rightarrow> string" where
  "TrimSpace s =
     (let l = strip_prefixes space_encodings (length s) s
      in rev (strip_prefixes (map rev space_encodings) (length l) (rev l)))"

text \<open>
  The verb \<open>%q\<close> of \<open>fmt\<close> on a string: quotes, backslashes and control characters are
  escaped; bytes above 127 are kept, as Go keeps the bytes of printable runes.
\<close>

definition hexDigit :: "nat \<Rightarrow> char" where
  "hexDigit n = ''0123456789abcdef'' ! n"

definition quoteChar :: "char \<Rightarrow> string" where
  "quoteChar c =
     (let n = (of_char c :: nat) in
      if n = 0x22 \<or> n = 0x5C then [CHR 0x5C, c]
      else if 7 \<le> n \<and> n \<le> 13 then [CHR 0x5C, ''abtnvfr'' ! (n - 7)]
      else if n < 32 \<or> n = 127 then [CHR 0x5C, CHR ''x'', hexDigit (n div 16), hexDigit (n mod 16)]
      else [c])"

definition Quote :: "string \<Rightarrow> string" where
  "Quote s = [CHR 0x22] @ concat (map quoteChar s) @ [CHR 0x22]"

text \<open>\<open>strings.Split(s, sep)\<close> for a one-character separator: never empty.\<close>

fun split_on :: "char \<Rightarrow> string \<Rightarrow> string list" where
  "split_on c [] = [[]]"
| "split_on c (x # xs) =
     (if x = c then [] # split_on c xs
      else (case split_on c xs of [] \<Rightarrow> [[x]] | y # ys \<Rightarrow> (x # y) # ys))"

lemma split_on_nonempty [simp]: "split_on c s \<noteq> []"
  by (cases s) (auto split: list.splits)

lemma split_on_no_sep: "\<forall>p \<in> set (split_on c s). c \<notin> set p"
  by (induction c s rule: split_on.induct) (auto split: list.splits)

text \<open>Decimal digits of a natural number, as \<open>%d\<close> prints it.\<close>

fun show_nat :: "nat \<Rightarrow> string" where
  "show_nat n = (if n < 10 then [char_of (48 + n)] else show_nat (n div 10) @ [char_of (48 + n mod 10)])"

declare show_nat.simps [simp del]

definition show_int :: "int \<Rightarrow> string" where
  "show_int i = (if i < 0 then ''-'' @ show_nat (nat (- i)) else show_nat (nat i))"

subsection \<open>Option and list helpers\<close>

lemma find_Some_in: "List.find P xs = Some x \<Longrightarrow> x \<in> set xs \<and> P x"
  by (auto simp: find_Some_iff)

text \<open>A string that starts and ends with a printable ASCII character is its own trimming.\<close>

definition plain :: "char \<Rightarrow> bool" where
  "plain c \<longleftrightarrow> 33 \<le> (of_char c :: nat) \<and> of_char c < (128 :: nat)"

lemma space_not_plain: "list_all (\<lambda>p. p \<noteq> [] \<and> \<not> plain (hd p) \<and> \<not> plain (last p)) space_encodings"
  by (simp add: space_encodings_def plain_def of_char_of)

lemma strip_none: "\<forall>p \<in> set ps. \<not> prefix p s \<Longrightarrow> strip_prefixes ps n s = s"
  by (cases n) (auto simp: find_None_iff split: option.splits dest: find_Some_in)

lemma TrimSpace_plain:
  assumes "s \<noteq> []" and "plain (hd s)" and "plain (last s)"
  shows "TrimSpace s = s"
proof -
  have "\<forall>p \<in> set space_encodings. \<not> prefix p s"
    using space_not_plain assms unfolding list_all_iff prefix_def by (metis hd_append2)
  moreover have "\<forall>p \<in> set (map rev space_encodings). \<not> prefix p (rev s)"
  proof
    fix q
    assume "q \<in> set (map rev space_encodings)"
    then obtain p where p: "q = rev p" "p \<in> set space_encodings" by auto
    then have "p \<noteq> []" "\<not> plain (last p)" using space_not_plain by (auto simp: list_all_iff)
    then show "\<not> prefix q (rev s)"
      using assms(1,3) p(1) unfolding prefix_def by (metis hd_append2 hd_rev rev_is_Nil_conv)
  qed
  ultimately show ?thesis by (simp add: TrimSpace_def strip_none)
qed

lemma fold_option_invariant:
  assumes "\<And>x y acc. x \<in> set xs \<Longrightarrow> I acc \<Longrightarrow> I (f x acc)"
  shows "I acc \<Longrightarrow> I (fold f xs acc)"
  using assms by (induction xs arbitrary: acc) auto

end
