(* ===== verification/Gotime.thy ===== *)
theory Gotime
  imports Prelude
begin

text \<open>
  What the sources use of Go's package \<open>time\<close>: instants with a zone offset, the
  proleptic Gregorian calendar (\<open>Time.Year\<close>, \<open>Month\<close>, \<open>Day\<close>, \<open>time.Date\<close>,
  \<open>AddDate\<close>), durations (\<open>Sub\<close> saturates at 64 bits), the layouts
  \<open>2006-01-02\<close> and RFC 3339, and the JSON form of a time.

  The calendar is the cycle arithmetic of the library (400, 100, 4 and 1 year cycles).
  The main facts: reading a date and building it again is the identity on days, so
  \<open>startOfUTCDay\<close> rounds an instant down to a multiple of 24 hours and
  \<open>AddDate(0, 0, n)\<close> adds \<open>n\<close> times 24 hours; printing a time and parsing it is
  the identity.
\<close>

named_theorems time_simps \<open>arithmetic reading of the calendar operations\<close>

subsection \<open>Instants and durations\<close>

text \<open>\<open>ns\<close>: nanoseconds since the Unix epoch; \<open>off\<close>: seconds east of UTC of the location.\<close>

record Time =
  ns :: int
  off :: int

abbreviation Second :: int where "Second \<equiv> 1000000000"
abbreviation Hour :: int where "Hour \<equiv> 3600 * Second"
abbreviation DayNs :: int where "DayNs \<equiv> 24 * Hour"

definition UTC :: "Time \<Rightarrow> Time" where
  "UTC t = t\<lparr>off := 0\<rparr>"

definition Before :: "Time \<Rightarrow> Time \<Rightarrow> bool" where
  "Before t u \<longleftrightarrow> ns t < ns u"

definition After :: "Time \<Rightarrow> Time \<Rightarrow> bool" where
  "After t u \<longleftrightarrow> ns u < ns t"

definition TimeEqual :: "Time \<Rightarrow> Time \<Rightarrow> bool" where
  "TimeEqual t u \<longleftrightarrow> ns t = ns u"

definition maxDuration :: int where "maxDuration = 2 ^ 63 - 1"
definition minDuration :: int where "minDuration = - (2 ^ 63)"

text \<open>\<open>Time.Sub\<close>: the difference in nanoseconds, saturated to the range of \<open>int64\<close>.\<close>

definition Sub :: "Time \<Rightarrow> Time \<Rightarrow> int" where
  "Sub t u = max minDuration (min maxDuration (ns t - ns u))"

text \<open>Go's integer division truncates toward zero.\<close>

definition truncDiv :: "int \<Rightarrow> int \<Rightarrow> int" where
  "truncDiv a b = sgn a * sgn b * (\<bar>a\<bar> div \<bar>b\<bar>)"

subsection \<open>The calendar\<close>

definition isLeap :: "int \<Rightarrow> bool" where
  "isLeap y \<longleftrightarrow> y mod 4 = 0 \<and> (y mod 100 \<noteq> 0 \<or> y mod 400 = 0)"

text \<open>Days from 0001-01-01 to January 1 of year \<open>y\<close>.\<close>

definition daysBeforeYear :: "int \<Rightarrow> int" where
  "daysBeforeYear y = 365 * (y - 1) + (y - 1) div 4 - (y - 1) div 100 + (y - 1) div 400"

text \<open>Days before the first of month \<open>m\<close> (1 to 12) in a common or a leap year.\<close>

definition daysBeforeMonth :: "bool \<Rightarrow> int \<Rightarrow> int" where
  "daysBeforeMonth leap m =
     [0, 31, 59, 90, 120, 151, 181, 212, 243, 273, 304, 334] ! nat (m - 1)
     + (if leap \<and> 2 < m then 1 else 0)"

definition daysIn :: "int \<Rightarrow> int \<Rightarrow> int" where
  "daysIn m y = (if m = 2 then if isLeap y then 29 else 28
                 else if m \<in> {4, 6, 9, 11} then 30 else 31)"

definition unixToAbs :: int where "unixToAbs = 719162"

text \<open>Year and zero-based day of the year of the day \<open>d\<close> days after 0001-01-01.\<close>

definition yearAndYday :: "int \<Rightarrow> int \<times> int" where
  "yearAndYday d =
     (let q = d div 146097; r = d mod 146097;
          a = min 3 (r div 36524); r1 = r - 36524 * a;
          b = r1 div 1461; r2 = r1 mod 1461;
          c = min 3 (r2 div 365)
      in (400 * q + 100 * a + 4 * b + c + 1, r2 - 365 * c))"

fun monthOfYday :: "bool \<Rightarrow> int \<Rightarrow> nat \<Rightarrow> int" where
  "monthOfYday leap yd 0 = 1"
| "monthOfYday leap yd (Suc k) =
     (if daysBeforeMonth leap (int (Suc (Suc k))) \<le> yd then int (Suc (Suc k))
      else monthOfYday leap yd k)"

text \<open>Year, month and day of the day \<open>d\<close> days after the Unix epoch.\<close>

definition civil :: "int \<Rightarrow> int \<times> int \<times> int" where
  "civil d =
     (let (y, yd) = yearAndYday (d + unixToAbs);
          m = monthOfYday (isLeap y) yd 11
      in (y, m, yd - daysBeforeMonth (isLeap y) m + 1))"

text \<open>Days since the Unix epoch of a date; months out of range carry into the year.\<close>

definition daysOf :: "int \<Rightarrow> int \<Rightarrow> int \<Rightarrow> int" where
  "daysOf y m d =
     (let y' = y + (m - 1) div 12; m' = (m - 1) mod 12 + 1
      in daysBeforeYear y' + daysBeforeMonth (isLeap y') m' + (d - 1) - unixToAbs)"

text \<open>Dividing with the quotient capped at \<open>n\<close>: below the cap the rest is a remainder.\<close>

lemma min_div_bounds:
  fixes r k n :: int
  assumes "0 \<le> r" and "0 < k" and "0 \<le> n"
  shows "0 \<le> min n (r div k)" and "min n (r div k) \<le> n" and "0 \<le> r - k * min n (r div k)"
    and "min n (r div k) < n \<longrightarrow> r - k * min n (r div k) < k"
    and "min n (r div k) = n \<or> r - k * min n (r div k) < k"
proof -
  have d: "0 \<le> r div k" and e: "r = k * (r div k) + r mod k" and m: "r mod k < k" "0 \<le> r mod k"
    using assms by (simp_all add: pos_imp_zdiv_nonneg_iff)
  have "k * min n (r div k) \<le> k * (r div k)" using assms(2) by simp
  then show "0 \<le> r - k * min n (r div k)" using e m by linarith
  show "min n (r div k) < n \<longrightarrow> r - k * min n (r div k) < k"
    and "min n (r div k) = n \<or> r - k * min n (r div k) < k"
    using m by (auto simp: min_def minus_mult_div_eq_mod)
qed (use assms in \<open>simp_all add: pos_imp_zdiv_nonneg_iff\<close>)

lemma yearAndYday_days:
  assumes "yearAndYday d = (y, yd)"
  shows "daysBeforeYear y + yd = d"
    and "0 \<le> yd" and "yd < (if isLeap y then 366 else 365)"
proof -
  define q where "q = d div 146097"
  define r where "r = d mod 146097"
  define a where "a = min 3 (r div 36524)"
  define r1 where "r1 = r - 36524 * a"
  define b where "b = r1 div 1461"
  define r2 where "r2 = r1 mod 1461"
  define c where "c = min 3 (r2 div 365)"
  have r: "0 \<le> r" "r < 146097" and d: "d = 146097 * q + r"
    by (auto simp: q_def r_def)
  note ra = min_div_bounds [of r 36524 3, folded a_def, folded r1_def]
  have a: "0 \<le> a" "a \<le> 3" and r1: "0 \<le> r1" "r1 \<le> 36524" "a < 3 \<longrightarrow> r1 < 36524"
    using ra r by (auto simp: r1_def)
  have r2: "0 \<le> r2" "r2 < 1461" "r1 = 1461 * b + r2"
    by (simp_all add: b_def r2_def)
  have b: "0 \<le> b" "b \<le> 24" "b = 24 \<longrightarrow> r1 < 36524 \<longrightarrow> r2 < 1460"
    using r1 r2 by linarith+
  note rc = min_div_bounds [of r2 365 3, folded c_def]
  have c: "0 \<le> c" "c \<le> 3" "0 \<le> r2 - 365 * c" "r2 - 365 * c \<le> 365"
      "c < 3 \<longrightarrow> r2 - 365 * c < 365"
    using rc r2(1,2) by auto
  have y: "y = 400 * q + 100 * a + 4 * b + c + 1" and yd: "yd = r2 - 365 * c"
    using assms [unfolded yearAndYday_def Let_def, folded q_def r_def, folded a_def,
        folded r1_def, folded b_def r2_def, folded c_def]
    by simp_all
  have "(y - 1) div 4 = 100 * q + 25 * a + b"
    by (rule int_div_pos_eq [where r = c]) (use y c in simp_all)
  moreover have "(y - 1) div 100 = 4 * q + a"
    by (rule int_div_pos_eq [where r = "4 * b + c"]) (use y b c in simp_all)
  moreover have "(y - 1) div 400 = q"
    by (rule int_div_pos_eq [where r = "100 * a + 4 * b + c"]) (use y a b c in simp_all)
  ultimately show "daysBeforeYear y + yd = d"
    using y yd d r1_def r2(3) by (simp add: daysBeforeYear_def)
  show "0 \<le> yd" using c yd by simp
  show "yd < (if isLeap y then 366 else 365)"
  proof (cases "yd = 365")
    case False
    then show ?thesis using c yd by auto
  next
    case True
    then have c3: "c = 3" and r2v: "r2 = 1460" using c yd r2 by auto
    have "y = 4 * (100 * q + 25 * a + b + 1)" using y c3 by simp
    then have "y mod 4 = 0" by simp
    moreover have "y mod 100 \<noteq> 0 \<or> y mod 400 = 0"
    proof (cases "b = 24")
      case False
      have "y = (4 * b + 4) + 100 * (4 * q + a)" using y c3 by simp
      then have "y mod 100 = (4 * b + 4) mod 100" by (simp only: mod_mult_self2)
      also have "\<dots> = 4 * b + 4" using False b(1,2) by (simp add: mod_pos_pos_trivial)
      finally show ?thesis using b(1) by linarith
    next
      case b24: True
      then have "r1 = 36524" using b(3) r2v r1(2) by linarith
      then have "a = 3" using r1(3) a by linarith
      then have "y = 400 * (q + 1)" using y c3 b24 by simp
      then show ?thesis by simp
    qed
    ultimately have "isLeap y" unfolding isLeap_def by blast
    then show ?thesis by (simp add: True)
  qed
qed

lemma month_cases:
  assumes "(1::int) \<le> m" and "m \<le> 12"
  shows "m = 1 \<or> m = 2 \<or> m = 3 \<or> m = 4 \<or> m = 5 \<or> m = 6 \<or> m = 7 \<or> m = 8 \<or> m = 9
    \<or> m = 10 \<or> m = 11 \<or> m = 12"
  using assms by presburger

lemma daysBeforeMonth_step:
  assumes "1 \<le> m" and "m \<le> 12"
  shows "daysBeforeMonth (isLeap y) m + daysIn m y =
    (if m = 12 then if isLeap y then 366 else 365 else daysBeforeMonth (isLeap y) (m + 1))"
  using month_cases [OF assms] by (auto simp: daysBeforeMonth_def daysIn_def eval_nat_numeral)

lemma monthOfYday_search:
  assumes "0 \<le> yd"
  shows "1 \<le> monthOfYday l yd k \<and> monthOfYday l yd k \<le> int k + 1
    \<and> daysBeforeMonth l (monthOfYday l yd k) \<le> yd
    \<and> (monthOfYday l yd k = int k + 1 \<or> yd < daysBeforeMonth l (monthOfYday l yd k + 1))"
proof (induction k)
  case 0
  then show ?case using assms by (simp add: daysBeforeMonth_def)
next
  case (Suc k)
  then show ?case by (auto simp: algebra_simps)
qed

lemma monthOfYday_bounds:
  assumes "0 \<le> yd" and "yd < (if isLeap y then 366 else 365)"
    and m: "m = monthOfYday (isLeap y) yd 11"
  shows "1 \<le> m" and "m \<le> 12" and "daysBeforeMonth (isLeap y) m \<le> yd"
    and "yd < daysBeforeMonth (isLeap y) m + daysIn m y"
proof -
  have s: "1 \<le> m \<and> m \<le> 12 \<and> daysBeforeMonth (isLeap y) m \<le> yd
    \<and> (m = 12 \<or> yd < daysBeforeMonth (isLeap y) (m + 1))"
    using monthOfYday_search [OF assms(1), of "isLeap y" 11] m by simp
  then show "1 \<le> m" "m \<le> 12" "daysBeforeMonth (isLeap y) m \<le> yd" by auto
  then have "daysBeforeMonth (isLeap y) m + daysIn m y =
    (if m = 12 then if isLeap y then 366 else 365 else daysBeforeMonth (isLeap y) (m + 1))"
    by (intro daysBeforeMonth_step)
  with s assms(2) show "yd < daysBeforeMonth (isLeap y) m + daysIn m y" by (auto split: if_splits)
qed

lemma civil_valid:
  assumes "civil d = (y, m, dd)"
  shows "1 \<le> m" and "m \<le> 12" and "1 \<le> dd" and "dd \<le> daysIn m y"
proof -
  obtain y' yd where yy: "yearAndYday (d + unixToAbs) = (y', yd)" by fastforce
  note yb = yearAndYday_days [OF yy]
  note mb = monthOfYday_bounds [OF yb(2,3) refl]
  from assms yy have "y = y'" "m = monthOfYday (isLeap y) yd 11"
    "dd = yd - daysBeforeMonth (isLeap y) m + 1"
    by (auto simp: civil_def Let_def)
  with mb show "1 \<le> m" "m \<le> 12" "1 \<le> dd" "dd \<le> daysIn m y" by auto
qed

lemma daysOf_civil:
  assumes "civil d = (y, m, dd)"
  shows "daysOf y m (dd + k) = d + k"
proof -
  obtain y' yd where yy: "yearAndYday (d + unixToAbs) = (y', yd)" by fastforce
  from assms yy have eqs: "y = y'" "m = monthOfYday (isLeap y) yd 11"
    "dd = yd - daysBeforeMonth (isLeap y) m + 1"
    by (auto simp: civil_def Let_def)
  have m: "(m - 1) div 12 = 0" "(m - 1) mod 12 = m - 1"
    using civil_valid(1,2) [OF assms] by (simp_all add: div_pos_pos_trivial mod_pos_pos_trivial)
  show ?thesis
    using yearAndYday_days(1) [OF yy] eqs m by (simp add: daysOf_def Let_def)
qed

subsection \<open>Reading and building times\<close>

definition localNs :: "Time \<Rightarrow> int" where
  "localNs t = ns t + off t * Second"

definition dayOf :: "Time \<Rightarrow> int" where
  "dayOf t = localNs t div DayNs"

definition clockNs :: "Time \<Rightarrow> int" where
  "clockNs t = localNs t mod DayNs"

definition Year :: "Time \<Rightarrow> int" where
  "Year t = fst (civil (dayOf t))"

definition Month :: "Time \<Rightarrow> int" where
  "Month t = fst (snd (civil (dayOf t)))"

definition Day :: "Time \<Rightarrow> int" where
  "Day t = snd (snd (civil (dayOf t)))"

definition HourOf :: "Time \<Rightarrow> int" where
  "HourOf t = clockNs t div Hour"

definition MinuteOf :: "Time \<Rightarrow> int" where
  "MinuteOf t = clockNs t mod Hour div (60 * Second)"

definition SecondOf :: "Time \<Rightarrow> int" where
  "SecondOf t = clockNs t mod (60 * Second) div Second"

definition Nanosecond :: "Time \<Rightarrow> int" where
  "Nanosecond t = clockNs t mod Second"

text \<open>\<open>time.Date\<close> with the location given by its offset \<open>o\<close>.\<close>

definition Date :: "int \<Rightarrow> int \<Rightarrow> int \<Rightarrow> int \<Rightarrow> int \<Rightarrow> int \<Rightarrow> int \<Rightarrow> int \<Rightarrow> Time" where
  "Date y m d h mi sec n o' =
     \<lparr>ns = daysOf y m d * DayNs + h * Hour + mi * (60 * Second) + sec * Second + n - o' * Second,
      off = o'\<rparr>"

definition AddDate :: "Time \<Rightarrow> int \<Rightarrow> int \<Rightarrow> int \<Rightarrow> Time" where
  "AddDate t years months days =
     Date (Year t + years) (Month t + months) (Day t + days)
       (HourOf t) (MinuteOf t) (SecondOf t) (Nanosecond t) (off t)"

lemma Time_eqI: "ns t = ns u \<Longrightarrow> off t = off u \<Longrightarrow> (t :: Time) = u"
  by simp

lemma civil_fields: "civil (dayOf t) = (Year t, Month t, Day t)"
  by (simp add: Year_def Month_def Day_def)

lemma daysOf_fields [time_simps]: "daysOf (Year t) (Month t) (Day t + k) = dayOf t + k"
  by (rule daysOf_civil) (rule civil_fields)

lemma daysOf_fields_0 [time_simps]: "daysOf (Year t) (Month t) (Day t) = dayOf t"
  using daysOf_fields [of t 0] by simp

lemma Month_Day_bounds:
  "1 \<le> Month t" "Month t \<le> 12" "1 \<le> Day t" "Day t \<le> daysIn (Month t) (Year t)" "Day t \<le> 31"
proof -
  note v = civil_valid [OF civil_fields [of t]]
  then show "1 \<le> Month t" "Month t \<le> 12" "1 \<le> Day t" "Day t \<le> daysIn (Month t) (Year t)"
    by simp_all
  moreover have "daysIn (Month t) (Year t) \<le> 31" by (simp add: daysIn_def)
  ultimately show "Day t \<le> 31" by linarith
qed

lemma clockNs_bounds: "0 \<le> clockNs t" "clockNs t < DayNs"
  by (simp_all add: clockNs_def)

lemma div_mod_split: "0 < k \<Longrightarrow> (x::int) mod (j * k) div k * k + x mod k = x mod (j * k)"
  by (metis div_mult_mod_eq dvd_triv_right mod_mod_cancel)

lemma clock_fields:
  "HourOf t * Hour + MinuteOf t * (60 * Second) + SecondOf t * Second + Nanosecond t = clockNs t"
proof -
  have "clockNs t mod Hour div (60 * Second) * (60 * Second) + clockNs t mod (60 * Second) = clockNs t mod Hour"
    using div_mod_split [of "60 * Second" "clockNs t" 60] by simp
  moreover have "clockNs t mod (60 * Second) div Second * Second + clockNs t mod Second
      = clockNs t mod (60 * Second)"
    using div_mod_split [of Second "clockNs t" 60] by simp
  moreover have "clockNs t div Hour * Hour + clockNs t mod Hour = clockNs t"
    by (rule div_mult_mod_eq)
  ultimately show ?thesis
    unfolding HourOf_def MinuteOf_def SecondOf_def Nanosecond_def by linarith
qed

lemma div_bounds:
  fixes x j k :: int
  assumes "0 \<le> x" and "x < j * k" and "0 < k"
  shows "0 \<le> x div k" and "x div k < j"
proof -
  show "0 \<le> x div k" using assms by (simp add: pos_imp_zdiv_nonneg_iff)
  have "x div k * k \<le> x" using assms(3) by (simp add: minus_mod_eq_div_mult [symmetric])
  then have "x div k * k < j * k" using assms(2) by linarith
  then show "x div k < j" using assms(3) by simp
qed

lemma clock_bounds:
  "0 \<le> HourOf t" "HourOf t < 24" "0 \<le> MinuteOf t" "MinuteOf t < 60"
  "0 \<le> SecondOf t" "SecondOf t < 60" "0 \<le> Nanosecond t" "Nanosecond t < Second"
proof -
  show "0 \<le> HourOf t" "HourOf t < 24" unfolding HourOf_def
    by (rule div_bounds [of _ 24]; use clockNs_bounds [of t] in simp)+
  show "0 \<le> MinuteOf t" "MinuteOf t < 60" unfolding MinuteOf_def
    by (rule div_bounds [of _ 60]; simp)+
  show "0 \<le> SecondOf t" "SecondOf t < 60" unfolding SecondOf_def
    by (rule div_bounds [of _ 60]; simp)+
  show "0 \<le> Nanosecond t" "Nanosecond t < Second" by (simp_all add: Nanosecond_def)
qed

text \<open>Reading all fields of a time and building it again is the identity.\<close>

lemma Date_fields [time_simps]:
  "Date (Year t) (Month t) (Day t) (HourOf t) (MinuteOf t) (SecondOf t) (Nanosecond t) (off t) = t"
proof (rule Time_eqI)
  have "dayOf t * DayNs + clockNs t = localNs t"
    by (simp add: dayOf_def clockNs_def)
  then show "ns (Date (Year t) (Month t) (Day t) (HourOf t) (MinuteOf t) (SecondOf t) (Nanosecond t) (off t)) = ns t"
    using clock_fields [of t] by (simp add: Date_def daysOf_fields_0 localNs_def)
qed (simp add: Date_def)

lemma AddDate_days [time_simps]: "AddDate t 0 0 n = t\<lparr>ns := ns t + n * DayNs\<rparr>"
proof (rule Time_eqI)
  have "dayOf t * DayNs + clockNs t = localNs t"
    by (simp add: dayOf_def clockNs_def)
  then show "ns (AddDate t 0 0 n) = ns (t\<lparr>ns := ns t + n * DayNs\<rparr>)"
    using clock_fields [of t]
    by (simp add: AddDate_def Date_def daysOf_fields localNs_def distrib_right)
qed (simp add: AddDate_def Date_def)

lemma Date_midnight [time_simps]:
  "Date (Year (UTC t)) (Month (UTC t)) (Day (UTC t)) 0 0 0 0 0 = \<lparr>ns = ns t div DayNs * DayNs, off = 0\<rparr>"
  by (simp add: Date_def daysOf_fields_0 dayOf_def localNs_def UTC_def)

lemma UTC_simps [simp]: "ns (UTC t) = ns t" "off (UTC t) = 0"
  by (simp_all add: UTC_def)

subsection \<open>Digits\<close>

definition digit :: "nat \<Rightarrow> char" where
  "digit k = char_of (48 + k)"

definition isDigit :: "char \<Rightarrow> bool" where
  "isDigit c \<longleftrightarrow> 48 \<le> (of_char c :: nat) \<and> (of_char c :: nat) \<le> 57"

definition digitVal :: "char \<Rightarrow> nat" where
  "digitVal c = of_char c - 48"

text \<open>The last \<open>w\<close> decimal digits of \<open>n\<close>, with leading zeros.\<close>

fun fixedDigits :: "nat \<Rightarrow> nat \<Rightarrow> string" where
  "fixedDigits 0 n = []"
| "fixedDigits (Suc w) n = fixedDigits w (n div 10) @ [digit (n mod 10)]"

text \<open>\<open>appendInt(b, x, width)\<close>: at least \<open>w\<close> digits, a sign in front when negative.\<close>

definition padInt :: "nat \<Rightarrow> int \<Rightarrow> string" where
  "padInt w x =
     (let n = nat \<bar>x\<bar>; d = (if n < 10 ^ w then fixedDigits w n else show_nat n)
      in if x < 0 then CHR ''-'' # d else d)"

definition decimal :: "string \<Rightarrow> nat" where
  "decimal s = foldl (\<lambda>a c. 10 * a + digitVal c) 0 s"

text \<open>Read exactly \<open>w\<close> digits with a value in a range.\<close>

definition readDigits :: "nat \<Rightarrow> nat \<Rightarrow> nat \<Rightarrow> string \<Rightarrow> (nat \<times> string) option" where
  "readDigits w lo hi s =
     (let d = take w s; v = decimal d
      in if length d = w \<and> list_all isDigit d \<and> lo \<le> v \<and> v \<le> hi then Some (v, drop w s) else None)"

definition readChar :: "char \<Rightarrow> string \<Rightarrow> string option" where
  "readChar c s = (case s of [] \<Rightarrow> None | x # xs \<Rightarrow> if x = c then Some xs else None)"

lemma of_char_digit: "k < 10 \<Longrightarrow> of_char (digit k) = (48 + k :: nat)"
  by (simp add: digit_def of_char_of)

lemma digit_props: "k < 10 \<Longrightarrow> isDigit (digit k)" "k < 10 \<Longrightarrow> digitVal (digit k) = k"
  by (simp_all add: isDigit_def digitVal_def of_char_digit)

lemma length_fixedDigits [simp]: "length (fixedDigits w n) = w"
  by (induction w arbitrary: n) simp_all

lemma fixedDigits_isDigit [simp]: "list_all isDigit (fixedDigits w n)"
  by (induction w arbitrary: n) (simp_all add: digit_props)

lemma decimal_snoc: "decimal (s @ [c]) = 10 * decimal s + digitVal c"
  by (simp add: decimal_def)

lemma decimal_fixedDigits: "decimal (fixedDigits w n) = n mod 10 ^ w"
proof (induction w arbitrary: n)
  case 0
  then show ?case by (simp add: decimal_def)
next
  case (Suc w)
  have "n mod (10 * 10 ^ w) = 10 * (n div 10 mod 10 ^ w) + n mod 10"
    by (rule mod_mult2_eq)
  then show ?case by (simp add: Suc decimal_snoc digit_props)
qed

lemma readDigits_fixedDigits:
  assumes "lo \<le> n" and "n \<le> hi" and "n < 10 ^ w"
  shows "readDigits w lo hi (fixedDigits w n @ rest) = Some (n, rest)"
  using assms by (simp add: readDigits_def Let_def decimal_fixedDigits)

lemma fixedDigits_inject: "n < 10 ^ w \<Longrightarrow> m < 10 ^ w \<Longrightarrow> fixedDigits w n = fixedDigits w m \<Longrightarrow> n = m"
  by (metis decimal_fixedDigits mod_less)

subsection \<open>Layouts\<close>

text \<open>Layout \<open>2006-01-02\<close> (\<open>time.DateOnly\<close>).\<close>

definition FormatDate :: "Time \<Rightarrow> string" where
  "FormatDate t = padInt 4 (Year t) @ ''-'' @ padInt 2 (Month t) @ ''-'' @ padInt 2 (Day t)"

definition FormatClock :: "Time \<Rightarrow> string" where
  "FormatClock t = padInt 2 (HourOf t) @ '':'' @ padInt 2 (MinuteOf t) @ '':'' @ padInt 2 (SecondOf t)"

text \<open>\<open>Z07:00\<close>: the letter \<open>Z\<close> for offset zero, else sign, hours and minutes.\<close>

definition FormatZone :: "Time \<Rightarrow> string" where
  "FormatZone t =
     (if off t = 0 then ''Z''
      else let z = nat (\<bar>off t\<bar> div 60)
           in (if off t < 0 then ''-'' else ''+'') @ padInt 2 (int (z div 60)) @ '':'' @ padInt 2 (int (z mod 60)))"

definition FormatRFC3339 :: "Time \<Rightarrow> string" where
  "FormatRFC3339 t = FormatDate t @ ''T'' @ FormatClock t @ FormatZone t"

text \<open>\<open>.999999999\<close>: the fraction of a second without trailing zeros, empty when zero.\<close>

definition stripZeros :: "string \<Rightarrow> string" where
  "stripZeros s = rev (dropWhile (\<lambda>c. c = CHR ''0'') (rev s))"

definition FormatNano :: "Time \<Rightarrow> string" where
  "FormatNano t =
     (if Nanosecond t = 0 then [] else CHR ''.'' # stripZeros (fixedDigits 9 (nat (Nanosecond t))))"

text \<open>\<open>Time.String\<close> of a time in UTC.\<close>

definition TimeString :: "Time \<Rightarrow> string" where
  "TimeString t = FormatDate t @ '' '' @ FormatClock t @ FormatNano t @ '' +0000 UTC''"

text \<open>
  \<open>Time.MarshalJSON\<close>: RFC 3339 with nanoseconds; an error when the year or the hour of
  the offset does not fit.
\<close>

definition timeMarshal :: "Time \<Rightarrow> string option" where
  "timeMarshal t =
     (if Year t < 0 \<or> 9999 < Year t then None
      else if 24 * 3600 \<le> \<bar>off t\<bar> then None
      else Some (FormatDate t @ ''T'' @ FormatClock t @ FormatNano t @ FormatZone t))"

text \<open>\<open>Time.UnmarshalJSON\<close>: the strict RFC 3339 parser.\<close>

definition parseNano :: "string \<Rightarrow> (nat \<times> string) option" where
  "parseNano s =
     (case s of
        c # r \<Rightarrow>
          if c = CHR ''.'' then
            (let ds = takeWhile isDigit r
             in if ds = [] then None
                else Some (decimal (take 9 (ds @ replicate 9 (CHR ''0''))), dropWhile isDigit r))
          else Some (0, s)
      | [] \<Rightarrow> Some (0, s))"

definition parseZone :: "string \<Rightarrow> int option" where
  "parseZone s =
     (if s = ''Z'' then Some 0
      else case s of
        [] \<Rightarrow> None
      | sg # r \<Rightarrow>
          if sg \<noteq> CHR ''+'' \<and> sg \<noteq> CHR ''-'' then None
          else Option.bind (readDigits 2 0 23 r) (\<lambda>(hh, r).
               Option.bind (readChar (CHR '':'') r) (\<lambda>r.
               Option.bind (readDigits 2 0 59 r) (\<lambda>(mm, r).
                 if r \<noteq> [] then None
                 else let z = int ((hh * 60 + mm) * 60)
                      in Some (if sg = CHR ''-'' then - z else z)))))"

definition timeUnmarshal :: "string \<Rightarrow> Time option" where
  "timeUnmarshal s =
     Option.bind (readDigits 4 0 9999 s) (\<lambda>(y, s).
     Option.bind (readChar (CHR ''-'') s) (\<lambda>s.
     Option.bind (readDigits 2 1 12 s) (\<lambda>(m, s).
     Option.bind (readChar (CHR ''-'') s) (\<lambda>s.
     Option.bind (readDigits 2 1 (nat (daysIn (int m) (int y))) s) (\<lambda>(d, s).
     Option.bind (readChar (CHR ''T'') s) (\<lambda>s.
     Option.bind (readDigits 2 0 23 s) (\<lambda>(h, s).
     Option.bind (readChar (CHR '':'') s) (\<lambda>s.
     Option.bind (readDigits 2 0 59 s) (\<lambda>(mi, s).
     Option.bind (readChar (CHR '':'') s) (\<lambda>s.
     Option.bind (readDigits 2 0 59 s) (\<lambda>(sec, s).
     Option.bind (parseNano s) (\<lambda>(n, s).
     Option.bind (parseZone s) (\<lambda>z.
       Some (Date (int y) (int m) (int d) (int h) (int mi) (int sec) (int n) z))))))))))))))"

subsection \<open>Printing and parsing\<close>

lemma padInt_fixed: "0 \<le> x \<Longrightarrow> x < 10 ^ w \<Longrightarrow> padInt w x = fixedDigits w (nat x)"
  by (auto simp: padInt_def Let_def nat_less_iff)

lemma readChar_Cons [simp]: "readChar c (c # r) = Some r"
  by (simp add: readChar_def)

lemma length_take_drop_While: "length (takeWhile P xs) + length (dropWhile P xs) = length xs"
  by (metis length_append takeWhile_dropWhile_id)

lemma stripZeros_pad: "stripZeros s @ replicate (length s - length (stripZeros s)) (CHR ''0'') = s"
proof -
  let ?z = "\<lambda>c. c = CHR ''0''"
  have w: "takeWhile ?z (rev s) = replicate (length (takeWhile ?z (rev s))) (CHR ''0'')"
    by (rule replicate_eqI) (auto dest: set_takeWhileD)
  have len: "length s - length (stripZeros s) = length (takeWhile ?z (rev s))"
    using length_take_drop_While [of ?z "rev s"] by (simp add: stripZeros_def)
  have "rev (takeWhile ?z (rev s)) = replicate (length s - length (stripZeros s)) (CHR ''0'')"
    by (metis len rev_replicate w)
  moreover have "rev (dropWhile ?z (rev s)) @ rev (takeWhile ?z (rev s)) = s"
    by (metis rev_append rev_rev_ident takeWhile_dropWhile_id)
  ultimately show ?thesis by (simp add: stripZeros_def)
qed

lemma stripZeros_take:
  assumes "length s = n"
  shows "take n (stripZeros s @ replicate n (CHR ''0'')) = s"
proof -
  have "length (stripZeros s) \<le> n"
    using assms length_take_drop_While [of "\<lambda>c. c = CHR ''0''" "rev s"]
    by (simp add: stripZeros_def)
  then have "take n (stripZeros s @ replicate n (CHR ''0'')) =
      stripZeros s @ replicate (n - length (stripZeros s)) (CHR ''0'')"
    by (simp add: take_all_iff)
  then show ?thesis using stripZeros_pad [of s] assms by simp
qed

lemma set_stripZeros: "set (stripZeros s) \<subseteq> set s"
  by (auto simp: stripZeros_def dest: set_dropWhileD)

lemma stripZeros_nonempty: "decimal s \<noteq> 0 \<Longrightarrow> stripZeros s \<noteq> []"
proof
  assume nz: "decimal s \<noteq> 0" and "stripZeros s = []"
  then have "s = replicate (length s) (CHR ''0'')" using stripZeros_pad [of s] by simp
  moreover have "decimal (replicate n (CHR ''0'')) = 0" for n
    by (induction n) (simp_all add: decimal_def digitVal_def)
  ultimately show False using nz by metis
qed

lemma parseNano_FormatNano:
  assumes "\<not> isDigit c" and "c \<noteq> CHR ''.''"
  shows "parseNano (FormatNano t @ c # r) = Some (nat (Nanosecond t), c # r)"
proof (cases "Nanosecond t = 0")
  case True
  then show ?thesis using assms by (simp add: FormatNano_def parseNano_def)
next
  case False
  let ?f = "fixedDigits 9 (nat (Nanosecond t))"
  have b: "nat (Nanosecond t) < 10 ^ 9" using clock_bounds(7,8) [of t] by simp
  have dec: "decimal ?f = nat (Nanosecond t)" using b by (simp add: decimal_fixedDigits)
  have digs: "\<forall>x \<in> set (stripZeros ?f). isDigit x"
    using set_stripZeros [of ?f] fixedDigits_isDigit [of 9] by (auto simp: list_all_iff)
  have tw: "takeWhile isDigit (stripZeros ?f @ c # r) = stripZeros ?f"
    and dw: "dropWhile isDigit (stripZeros ?f @ c # r) = c # r"
    using digs assms(1) by (simp_all add: takeWhile_append2 dropWhile_append2)
  have "decimal ?f \<noteq> 0" using False clock_bounds(7) [of t] dec by simp
  then have "stripZeros ?f \<noteq> []" by (rule stripZeros_nonempty)
  then show ?thesis
    using False dec tw dw stripZeros_take [of ?f 9] by (simp add: FormatNano_def parseNano_def Let_def)
qed

lemma FormatZone_head: "\<exists>c r. FormatZone t = c # r \<and> \<not> isDigit c \<and> c \<noteq> CHR ''.''"
  by (auto simp: FormatZone_def Let_def isDigit_def)

lemma parseZone_FormatZone:
  assumes "off t mod 60 = 0" and "\<bar>off t\<bar> < 24 * 3600"
  shows "parseZone (FormatZone t) = Some (off t)"
proof (cases "off t = 0")
  case True
  then show ?thesis by (simp add: FormatZone_def parseZone_def)
next
  case False
  define z where "z = nat (\<bar>off t\<bar> div 60)"
  have z: "int z * 60 = \<bar>off t\<bar>" "z < 1440" unfolding z_def using assms by (auto simp: abs_if; presburger)+
  have hm: "z div 60 < 24" "z mod 60 < 60" "z div 60 * 60 + z mod 60 = z" using z(2) by auto
  have ph: "padInt 2 (int (z div 60)) = fixedDigits 2 (z div 60)"
    and pm: "padInt 2 (int (z mod 60)) = fixedDigits 2 (z mod 60)"
    using hm by (simp_all add: padInt_fixed)
  have rh: "readDigits 2 0 23 (fixedDigits 2 (z div 60) @ s) = Some (z div 60, s)" for s
    by (rule readDigits_fixedDigits) (use hm in auto)
  have rm: "readDigits 2 0 59 (fixedDigits 2 (z mod 60)) = Some (z mod 60, [])"
    using readDigits_fixedDigits [of 0 "z mod 60" 59 2 "[]"] hm(2) by simp
  have "FormatZone t =
      (if off t < 0 then CHR ''-'' else CHR ''+'') # fixedDigits 2 (z div 60) @ CHR '':'' # fixedDigits 2 (z mod 60)"
    using False by (simp add: FormatZone_def Let_def z_def [symmetric] ph pm)
  then show ?thesis
    using rh rm hm(3) z(1) by (simp add: parseZone_def Let_def abs_if split: if_splits)
qed

definition jsonTime :: "Time \<Rightarrow> bool" where
  "jsonTime t \<longleftrightarrow> 0 \<le> Year t \<and> Year t \<le> 9999 \<and> off t mod 60 = 0 \<and> \<bar>off t\<bar> < 24 * 3600"

lemma timeMarshal_Some:
  "jsonTime t \<Longrightarrow> timeMarshal t =
     Some (FormatDate t @ ''T'' @ FormatClock t @ FormatNano t @ FormatZone t)"
  by (simp add: timeMarshal_def jsonTime_def)

lemma timeUnmarshal_print:
  assumes t: "jsonTime t"
  shows "timeUnmarshal (FormatDate t @ ''T'' @ FormatClock t @ FormatNano t @ FormatZone t) = Some t"
proof -
  note mb = Month_Day_bounds [of t] and cb = clock_bounds [of t]
  obtain c r where z: "FormatZone t = c # r" "\<not> isDigit c" "c \<noteq> CHR ''.''"
    using FormatZone_head by blast
  have pads: "padInt 4 (Year t) = fixedDigits 4 (nat (Year t))" "padInt 2 (Month t) = fixedDigits 2 (nat (Month t))"
    "padInt 2 (Day t) = fixedDigits 2 (nat (Day t))" "padInt 2 (HourOf t) = fixedDigits 2 (nat (HourOf t))"
    "padInt 2 (MinuteOf t) = fixedDigits 2 (nat (MinuteOf t))" "padInt 2 (SecondOf t) = fixedDigits 2 (nat (SecondOf t))"
    using t mb cb by (simp_all add: padInt_fixed jsonTime_def)
  have rd: "readDigits 4 0 9999 (fixedDigits 4 (nat (Year t)) @ s) = Some (nat (Year t), s)"
    "readDigits 2 (Suc 0) 12 (fixedDigits 2 (nat (Month t)) @ s) = Some (nat (Month t), s)"
    "readDigits 2 (Suc 0) (nat (daysIn (Month t) (Year t))) (fixedDigits 2 (nat (Day t)) @ s) = Some (nat (Day t), s)"
    "readDigits 2 0 23 (fixedDigits 2 (nat (HourOf t)) @ s) = Some (nat (HourOf t), s)"
    "readDigits 2 0 59 (fixedDigits 2 (nat (MinuteOf t)) @ s) = Some (nat (MinuteOf t), s)"
    "readDigits 2 0 59 (fixedDigits 2 (nat (SecondOf t)) @ s) = Some (nat (SecondOf t), s)" for s
    using t mb cb by (auto simp: jsonTime_def intro!: readDigits_fixedDigits)
  have nonneg: "0 \<le> Year t" "0 \<le> Month t" "0 \<le> Day t"
    using t mb by (simp_all add: jsonTime_def)
  have pz: "parseZone (c # r) = Some (off t)"
    using parseZone_FormatZone [of t] t z(1) by (simp add: jsonTime_def)
  show ?thesis
    by (simp add: timeUnmarshal_def FormatDate_def FormatClock_def pads rd nonneg cb z(1)
        parseNano_FormatNano [OF z(2,3)] pz Date_fields)
qed

end
