(* ===== verification/Domain.thy ===== *)
theory Domain
  imports Gotime "HOL-Library.Multiset"
begin

text \<open>
  The data of the simulator: the journey state (\<open>domain.State\<close>), the cached journey
  (\<open>dto.GuestJourneyCacheValue\<close>), the data of the HTTP services, and the set of
  subscribers (\<open>domain.Set\<close>).

  \<open>encoding/json\<close> is modelled on documents (\<open>json\<close>), the trees that the text of a
  payload denotes: \<open>json.Marshal\<close> writes the fields in declaration order and drops an
  empty \<open>omitempty\<close> field, \<open>json.Unmarshal\<close> walks the members of an object, matches
  a key exactly or else up to case, ignores unknown keys and leaves a field alone on
  \<open>null\<close>. Every caller drops the value when decoding fails, so a decoder returns
  \<open>None\<close> for any error. The main fact is that decoding an encoded cache value gives the
  value back.
\<close>

subsection \<open>Records of the domain\<close>

record Guest =
  DocumentId :: string
  GivenNames :: string
  Surname :: string
  Email :: string
  BillingAddress :: string

record Period =
  Start :: Time
  End :: Time

record GuestJourneyBooking =
  BookingID :: string
  SelectedCottage :: string
  SelectedPeriod :: "Period option"

record GuestJourneyInvoice =
  InvoiceNumber :: string
  ReceiptNumber :: string

record GuestJourneyCacheValue =
  GuestID :: string
  PersonalInfo :: "Guest option"
  Booking :: "GuestJourneyBooking option"
  Invoice :: "GuestJourneyInvoice option"

text \<open>\<open>domain.State\<close>; \<open>CottageNames\<close> is \<open>None\<close> for a nil slice.\<close>

record State =
  StGuest :: "Guest option"
  GuestId :: string
  CottageNames :: "string list option"
  RedisKey :: string
  QueueName :: string
  RoutingKey :: string

text \<open>\<open>len(state.CottageNames)\<close> and ranging over it do not tell nil from empty.\<close>

definition cottageList :: "State \<Rightarrow> string list" where
  "cottageList s = (case CottageNames s of None \<Rightarrow> [] | Some cs \<Rightarrow> cs)"

definition zeroState :: State where
  "zeroState = \<lparr>StGuest = None, GuestId = [], CottageNames = None, RedisKey = [], QueueName = [],
     RoutingKey = []\<rparr>"

text \<open>The zero \<open>time.Time\<close>: January 1 of year 1, UTC.\<close>

definition zeroTime :: Time where
  "zeroTime = \<lparr>ns = - unixToAbs * DayNs, off = 0\<rparr>"

definition zeroGuest :: Guest where
  "zeroGuest = \<lparr>DocumentId = [], GivenNames = [], Surname = [], Email = [], BillingAddress = []\<rparr>"

definition zeroPeriod :: Period where
  "zeroPeriod = \<lparr>Start = zeroTime, End = zeroTime\<rparr>"

definition zeroBooking :: GuestJourneyBooking where
  "zeroBooking = \<lparr>BookingID = [], SelectedCottage = [], SelectedPeriod = None\<rparr>"

definition zeroInvoice :: GuestJourneyInvoice where
  "zeroInvoice = \<lparr>InvoiceNumber = [], ReceiptNumber = []\<rparr>"

definition zeroCacheValue :: GuestJourneyCacheValue where
  "zeroCacheValue = \<lparr>GuestID = [], PersonalInfo = None, Booking = None, Invoice = None\<rparr>"

text \<open>Data of the HTTP services.\<close>

record BookingRequest =
  br_GuestId :: string
  br_NumberOfGuests :: int
  br_CheckInDate :: string
  br_CheckOutDate :: string
  br_GuestName :: string
  br_GuestEmail :: string
  br_GuestDocument :: string
  br_BillingAddress :: string

record PayWithCardRequest =
  pc_Number :: string
  pc_Brand :: string
  pc_ExpMonth :: nat
  pc_ExpYear :: nat
  pc_Cvv :: string
  pc_HolderName :: string

record PayWithCardResponse =
  pw_ReceiptNumber :: string
  pw_InvoiceNumber :: string
  pw_Status :: string

record CottageDetails =
  cd_Description :: string
  cd_View :: string
  cd_FurnitureDescription :: string
  cd_BathroomDescription :: string
  cd_AmenitiesDescription :: string

record Cottage =
  ct_Name :: string
  ct_Type :: string
  ct_Details :: CottageDetails
  ct_Photos :: "string list"
  ct_PricePerNight :: rat

record PeriodDTO =
  CheckIn :: Time
  CheckOut :: Time

record AvailablePeriodDTO =
  ap_Name :: string
  ap_Periods :: "PeriodDTO list"

definition ToPeriods :: "AvailablePeriodDTO \<Rightarrow> Period list" where
  "ToPeriods d = map (\<lambda>p. \<lparr>Start = CheckIn p, End = CheckOut p\<rparr>) (ap_Periods d)"

subsection \<open>domain.Set\<close>

text \<open>
  A Go map with empty values: its keys, without repetition. Ranging over a map visits
  the keys in an order the language leaves open; \<open>ord\<close> is that order.
\<close>

record 'a GoSet =
  items :: "'a list"

definition NewSet :: "'a GoSet" where
  "NewSet = \<lparr>items = []\<rparr>"

definition Add :: "'a \<Rightarrow> 'a GoSet \<Rightarrow> 'a GoSet" where
  "Add x s = (if x \<in> set (items s) then s else s\<lparr>items := items s @ [x]\<rparr>)"

definition Remove :: "'a \<Rightarrow> 'a GoSet \<Rightarrow> 'a GoSet" where
  "Remove x s = s\<lparr>items := removeAll x (items s)\<rparr>"

definition Values :: "('a list \<Rightarrow> 'a list) \<Rightarrow> 'a GoSet \<Rightarrow> 'a list" where
  "Values ord s = ord (items s)"

definition iterationOrder :: "('a list \<Rightarrow> 'a list) \<Rightarrow> bool" where
  "iterationOrder ord \<longleftrightarrow> (\<forall>xs. mset (ord xs) = mset xs)"

definition setInv :: "'a GoSet \<Rightarrow> bool" where
  "setInv s \<longleftrightarrow> distinct (items s)"

text \<open>What the subscribers of the event services rely on.\<close>

locale subscriber_set =
  fixes new :: "'s" and add :: "'a \<Rightarrow> 's \<Rightarrow> 's" and remove :: "'a \<Rightarrow> 's \<Rightarrow> 's"
    and vals :: "('a list \<Rightarrow> 'a list) \<Rightarrow> 's \<Rightarrow> 'a list" and inv :: "'s \<Rightarrow> bool" and elems :: "'s \<Rightarrow> 'a set"
  assumes elems_new: "elems new = {}"
    and elems_add: "inv s \<Longrightarrow> elems (add x s) = insert x (elems s)"
    and elems_remove: "inv s \<Longrightarrow> elems (remove x s) = elems s - {x}"
    and inv_new: "inv new" and inv_add: "inv s \<Longrightarrow> inv (add x s)"
    and inv_remove: "inv s \<Longrightarrow> inv (remove x s)"
    and vals_spec: "inv s \<Longrightarrow> iterationOrder ord \<Longrightarrow> distinct (vals ord s) \<and> set (vals ord s) = elems s"
begin

lemma vals_length: "inv s \<Longrightarrow> iterationOrder ord \<Longrightarrow> length (vals ord s) = card (elems s)"
  using vals_spec by (metis distinct_card)

lemma order_irrelevant:
  "inv s \<Longrightarrow> iterationOrder o1 \<Longrightarrow> iterationOrder o2 \<Longrightarrow> mset (vals o1 s) = mset (vals o2 s)"
  using vals_spec by (metis set_eq_iff_mset_eq_distinct)

lemma add_twice: "inv s \<Longrightarrow> iterationOrder ord \<Longrightarrow>
    set (vals ord (add x (add x s))) = set (vals ord (add x s))"
  by (metis elems_add insert_absorb2 inv_add vals_spec)

lemma removed_not_visited: "inv s \<Longrightarrow> iterationOrder ord \<Longrightarrow> x \<notin> set (vals ord (remove x s))"
  by (metis DiffE elems_remove inv_remove singletonI vals_spec)

lemma subscribe_unsubscribe:
  "inv s \<Longrightarrow> iterationOrder ord \<Longrightarrow> x \<notin> elems s \<Longrightarrow>
     set (vals ord (remove x (add x s))) = set (vals ord s)"
  using vals_spec elems_add elems_remove inv_add inv_remove by (metis Diff_insert_absorb)

end

interpretation gs: subscriber_set NewSet Add Remove Values setInv "\<lambda>s. set (items s)"
proof
  fix ord :: "'a list \<Rightarrow> 'a list" and s :: "'a GoSet"
  assume "setInv s" and "iterationOrder ord"
  then show "distinct (Values ord s) \<and> set (Values ord s) = set (items s)"
    unfolding Values_def setInv_def iterationOrder_def
    by (metis mset_eq_imp_distinct_iff set_mset_mset)
qed (auto simp: NewSet_def Add_def Remove_def setInv_def distinct_removeAll)

subsection \<open>JSON documents and decoders\<close>

datatype json = JNull | JBool bool | JNum rat | JStr string | JArr "json list" | JObj "(string \<times> json) list"

type_synonym 'a decoder = "json \<Rightarrow> 'a \<Rightarrow> 'a option"

definition lookupField :: "(string \<times> 'd) list \<Rightarrow> string \<Rightarrow> 'd option" where
  "lookupField fs k =
     (case map_of fs k of
        Some d \<Rightarrow> Some d
      | None \<Rightarrow> map_option snd (List.find (\<lambda>f. lower_ascii (fst f) = lower_ascii k) fs))"

fun decMembers :: "(string \<times> 'a decoder) list \<Rightarrow> (string \<times> json) list \<Rightarrow> 'a \<Rightarrow> 'a option" where
  "decMembers fs [] v = Some v"
| "decMembers fs ((k, j) # kvs) v =
     (case (case lookupField fs k of None \<Rightarrow> Some v | Some d \<Rightarrow> d j v) of
        None \<Rightarrow> None
      | Some v' \<Rightarrow> decMembers fs kvs v')"

definition decStruct :: "(string \<times> 'a decoder) list \<Rightarrow> 'a decoder" where
  "decStruct fs j v =
     (case j of JObj kvs \<Rightarrow> decMembers fs kvs v | JNull \<Rightarrow> Some v | _ \<Rightarrow> None)"

lemma decStruct_simps [simp]:
  "decStruct fs (JObj kvs) v = decMembers fs kvs v"
  "decStruct fs JNull v = Some v"
  by (simp_all add: decStruct_def)

definition decString :: "(string \<Rightarrow> 'a \<Rightarrow> 'a) \<Rightarrow> 'a decoder" where
  "decString upd j v = (case j of JStr s \<Rightarrow> Some (upd s v) | JNull \<Rightarrow> Some v | _ \<Rightarrow> None)"

definition decTime :: "(Time \<Rightarrow> 'a \<Rightarrow> 'a) \<Rightarrow> 'a decoder" where
  "decTime upd j v =
     (case j of JStr s \<Rightarrow> map_option (\<lambda>t. upd t v) (timeUnmarshal s) | JNull \<Rightarrow> Some v | _ \<Rightarrow> None)"

text \<open>\<open>float32\<close>: the largest finite value, beyond which decoding is an error.\<close>

definition decFloat32 :: "(rat \<Rightarrow> 'a \<Rightarrow> 'a) \<Rightarrow> 'a decoder" where
  "decFloat32 upd j v =
     (case j of JNum q \<Rightarrow> if \<bar>q\<bar> < 2 ^ 128 - 2 ^ 103 then Some (upd q v) else None
      | JNull \<Rightarrow> Some v | _ \<Rightarrow> None)"

text \<open>A pointer field: \<open>null\<close> clears it, otherwise the target is decoded in place.\<close>

definition decPtr :: "('a \<Rightarrow> 'b option) \<Rightarrow> ('b option \<Rightarrow> 'a \<Rightarrow> 'a) \<Rightarrow> 'b \<Rightarrow> 'b decoder \<Rightarrow> 'a decoder" where
  "decPtr get upd zero dec j v =
     (if j = JNull then Some (upd None v)
      else map_option (\<lambda>b. upd (Some b) v) (dec j (case get v of None \<Rightarrow> zero | Some b \<Rightarrow> b)))"

text \<open>A struct field held by value.\<close>

definition decSub :: "('a \<Rightarrow> 'b) \<Rightarrow> ('b \<Rightarrow> 'a \<Rightarrow> 'a) \<Rightarrow> 'b decoder \<Rightarrow> 'a decoder" where
  "decSub get upd dec j v = map_option (\<lambda>b. upd b v) (dec j (get v))"

fun decElems :: "'b \<Rightarrow> 'b decoder \<Rightarrow> json list \<Rightarrow> 'b list option" where
  "decElems zero dec [] = Some []"
| "decElems zero dec (j # js) =
     (case dec j zero of
        None \<Rightarrow> None
      | Some b \<Rightarrow> map_option (\<lambda>bs. b # bs) (decElems zero dec js))"

definition decSlice :: "'b \<Rightarrow> 'b decoder \<Rightarrow> ('b list \<Rightarrow> 'a \<Rightarrow> 'a) \<Rightarrow> 'a decoder" where
  "decSlice zero dec upd j v =
     (case j of JArr js \<Rightarrow> map_option (\<lambda>bs. upd bs v) (decElems zero dec js)
      | JNull \<Rightarrow> Some (upd [] v) | _ \<Rightarrow> None)"

subsection \<open>The cached journey as a document\<close>

definition guestFields :: "(string \<times> Guest decoder) list" where
  "guestFields =
     [(''document_id'', decString (\<lambda>s. DocumentId_update (\<lambda>_. s))),
      (''given_names'', decString (\<lambda>s. GivenNames_update (\<lambda>_. s))),
      (''surname'', decString (\<lambda>s. Surname_update (\<lambda>_. s))),
      (''email'', decString (\<lambda>s. Email_update (\<lambda>_. s))),
      (''billing_address'', decString (\<lambda>s. BillingAddress_update (\<lambda>_. s)))]"

definition periodFields :: "(string \<times> Period decoder) list" where
  "periodFields =
     [(''from'', decTime (\<lambda>t. Start_update (\<lambda>_. t))),
      (''to'', decTime (\<lambda>t. End_update (\<lambda>_. t)))]"

definition bookingFields :: "(string \<times> GuestJourneyBooking decoder) list" where
  "bookingFields =
     [(''bookingId'', decString (\<lambda>s. BookingID_update (\<lambda>_. s))),
      (''selectedCottage'', decString (\<lambda>s. SelectedCottage_update (\<lambda>_. s))),
      (''selectedPeriod'', decPtr SelectedPeriod (\<lambda>p. SelectedPeriod_update (\<lambda>_. p)) zeroPeriod
         (decStruct periodFields))]"

definition invoiceFields :: "(string \<times> GuestJourneyInvoice decoder) list" where
  "invoiceFields =
     [(''invoiceNumber'', decString (\<lambda>s. InvoiceNumber_update (\<lambda>_. s))),
      (''receiptNumber'', decString (\<lambda>s. ReceiptNumber_update (\<lambda>_. s)))]"

definition cacheFields :: "(string \<times> GuestJourneyCacheValue decoder) list" where
  "cacheFields =
     [(''guestId'', decString (\<lambda>s. GuestID_update (\<lambda>_. s))),
      (''personalInfo'', decPtr PersonalInfo (\<lambda>g. PersonalInfo_update (\<lambda>_. g)) zeroGuest
         (decStruct guestFields)),
      (''booking'', decPtr Booking (\<lambda>b. Booking_update (\<lambda>_. b)) zeroBooking (decStruct bookingFields)),
      (''invoice'', decPtr Invoice (\<lambda>i. Invoice_update (\<lambda>_. i)) zeroInvoice (decStruct invoiceFields))]"

text \<open>\<open>json.Unmarshal([]byte(payload), &value)\<close> with a zero \<open>value\<close>.\<close>

definition unmarshalCache :: "json \<Rightarrow> GuestJourneyCacheValue option" where
  "unmarshalCache j = decStruct cacheFields j zeroCacheValue"

definition marshalGuest :: "Guest \<Rightarrow> json" where
  "marshalGuest g = JObj
     [(''document_id'', JStr (DocumentId g)), (''given_names'', JStr (GivenNames g)),
      (''surname'', JStr (Surname g)), (''email'', JStr (Email g)),
      (''billing_address'', JStr (BillingAddress g))]"

definition marshalPeriod :: "Period \<Rightarrow> json option" where
  "marshalPeriod p =
     Option.bind (timeMarshal (Start p)) (\<lambda>f.
     Option.bind (timeMarshal (End p)) (\<lambda>t.
       Some (JObj [(''from'', JStr f), (''to'', JStr t)])))"

definition marshalBooking :: "GuestJourneyBooking \<Rightarrow> json option" where
  "marshalBooking b =
     (let base = [(''bookingId'', JStr (BookingID b)), (''selectedCottage'', JStr (SelectedCottage b))]
      in case SelectedPeriod b of
           None \<Rightarrow> Some (JObj base)
         | Some p \<Rightarrow> map_option (\<lambda>j. JObj (base @ [(''selectedPeriod'', j)])) (marshalPeriod p))"

definition marshalInvoice :: "GuestJourneyInvoice \<Rightarrow> json" where
  "marshalInvoice i = JObj
     ((''invoiceNumber'', JStr (InvoiceNumber i))
      # (if ReceiptNumber i = [] then [] else [(''receiptNumber'', JStr (ReceiptNumber i))]))"

definition marshalCache :: "GuestJourneyCacheValue \<Rightarrow> json option" where
  "marshalCache v =
     map_option
       (\<lambda>bs. JObj
          ((''guestId'', JStr (GuestID v))
           # (case PersonalInfo v of None \<Rightarrow> [] | Some g \<Rightarrow> [(''personalInfo'', marshalGuest g)])
           @ bs
           @ (case Invoice v of None \<Rightarrow> [] | Some i \<Rightarrow> [(''invoice'', marshalInvoice i)])))
       (case Booking v of
          None \<Rightarrow> Some []
        | Some b \<Rightarrow> map_option (\<lambda>j. [(''booking'', j)]) (marshalBooking b))"

text \<open>Every time in the cached journey has a JSON form.\<close>

definition cacheable :: "GuestJourneyCacheValue \<Rightarrow> bool" where
  "cacheable v \<longleftrightarrow>
     (case Booking v of
        None \<Rightarrow> True
      | Some b \<Rightarrow>
          (case SelectedPeriod b of None \<Rightarrow> True | Some p \<Rightarrow> jsonTime (Start p) \<and> jsonTime (End p)))"

lemma marshal_not_null [simp]: "marshalGuest g \<noteq> JNull" "marshalInvoice i \<noteq> JNull"
  by (simp_all add: marshalGuest_def marshalInvoice_def)

lemma unmarshal_marshal_guest: "decStruct guestFields (marshalGuest g) z = Some g"
  by (simp add: marshalGuest_def guestFields_def lookupField_def decString_def)

lemma unmarshal_marshal_invoice: "decStruct invoiceFields (marshalInvoice i) zeroInvoice = Some i"
  by (cases i)
    (simp add: marshalInvoice_def invoiceFields_def lookupField_def decString_def zeroInvoice_def)

lemma unmarshal_marshal_period:
  assumes "jsonTime (Start p)" and "jsonTime (End p)"
  shows "\<exists>j. marshalPeriod p = Some j \<and> j \<noteq> JNull \<and> decStruct periodFields j z = Some p"
  using assms
  by (simp add: marshalPeriod_def timeMarshal_Some periodFields_def lookupField_def decTime_def
      timeUnmarshal_print [simplified])

lemma unmarshal_marshal_booking:
  assumes "\<And>p. SelectedPeriod b = Some p \<Longrightarrow> jsonTime (Start p) \<and> jsonTime (End p)"
  shows "\<exists>j. marshalBooking b = Some j \<and> j \<noteq> JNull \<and> decStruct bookingFields j zeroBooking = Some b"
proof (cases "SelectedPeriod b")
  case None
  then show ?thesis
    by (cases b) (simp add: marshalBooking_def bookingFields_def lookupField_def decString_def
        zeroBooking_def)
next
  case (Some p)
  with assms obtain j where "marshalPeriod p = Some j" "j \<noteq> JNull"
      "decStruct periodFields j zeroPeriod = Some p"
    using unmarshal_marshal_period by blast
  with Some show ?thesis
    by (cases b) (simp add: marshalBooking_def bookingFields_def lookupField_def
        decString_def decPtr_def zeroBooking_def)
qed

lemma unmarshal_marshal_cache:
  assumes "cacheable v"
  shows "\<exists>j. marshalCache v = Some j \<and> unmarshalCache j = Some v"
proof -
  obtain bs where bs: "(case Booking v of None \<Rightarrow> Some []
      | Some b \<Rightarrow> map_option (\<lambda>j. [(''booking'', j)]) (marshalBooking b)) = Some bs"
    and dec: "decMembers cacheFields (bs @ rest) (u\<lparr>Booking := None\<rparr>)
      = decMembers cacheFields rest (u\<lparr>Booking := Booking v\<rparr>)" for rest u
  proof (cases "Booking v")
    case None
    then show ?thesis using that [of "[]"] by simp
  next
    case (Some b)
    with assms have "\<And>p. SelectedPeriod b = Some p \<Longrightarrow> jsonTime (Start p) \<and> jsonTime (End p)"
      by (simp add: cacheable_def)
    then obtain j where "marshalBooking b = Some j" "j \<noteq> JNull"
        "decStruct bookingFields j zeroBooking = Some b"
      using unmarshal_marshal_booking by blast
    with Some show ?thesis
      using that [of "[(''booking'', j)]"]
      by (simp add: cacheFields_def lookupField_def decPtr_def)
  qed
  have guest: "decMembers cacheFields
      ((case PersonalInfo v of None \<Rightarrow> [] | Some g \<Rightarrow> [(''personalInfo'', marshalGuest g)]) @ rest)
      (u\<lparr>PersonalInfo := None\<rparr>) = decMembers cacheFields rest (u\<lparr>PersonalInfo := PersonalInfo v\<rparr>)" for rest u
    by (auto simp: cacheFields_def lookupField_def decPtr_def unmarshal_marshal_guest
        split: option.splits)
  have invoice: "decMembers cacheFields
      (case Invoice v of None \<Rightarrow> [] | Some i \<Rightarrow> [(''invoice'', marshalInvoice i)])
      (u\<lparr>Invoice := None\<rparr>) = Some (u\<lparr>Invoice := Invoice v\<rparr>)" for u
    by (auto simp: cacheFields_def lookupField_def decPtr_def unmarshal_marshal_invoice
        split: option.splits)
  have gid: "decMembers cacheFields ((''guestId'', JStr s) # rest) u
      = decMembers cacheFields rest (u\<lparr>GuestID := s\<rparr>)" for s rest u
    by (simp add: cacheFields_def lookupField_def decString_def)
  let ?g = "case PersonalInfo v of None \<Rightarrow> [] | Some g \<Rightarrow> [(''personalInfo'', marshalGuest g)]"
  let ?i = "case Invoice v of None \<Rightarrow> [] | Some i \<Rightarrow> [(''invoice'', marshalInvoice i)]"
  let ?u = "zeroCacheValue\<lparr>GuestID := GuestID v\<rparr>"
  have "unmarshalCache (the (marshalCache v)) = decMembers cacheFields (?g @ bs @ ?i) ?u"
    by (simp add: unmarshalCache_def marshalCache_def bs gid del: decMembers.simps)
  also have "\<dots> = decMembers cacheFields (bs @ ?i) (?u\<lparr>PersonalInfo := PersonalInfo v\<rparr>)"
    using guest [of "bs @ ?i" ?u] by (simp add: zeroCacheValue_def)
  also have "\<dots> = decMembers cacheFields ?i (?u\<lparr>PersonalInfo := PersonalInfo v, Booking := Booking v\<rparr>)"
    using dec [of ?i "?u\<lparr>PersonalInfo := PersonalInfo v\<rparr>"] by (simp add: zeroCacheValue_def)
  also have "\<dots> = Some v"
    using invoice [of "?u\<lparr>PersonalInfo := PersonalInfo v, Booking := Booking v\<rparr>"]
    by (simp add: zeroCacheValue_def)
  finally have "unmarshalCache (the (marshalCache v)) = Some v" .
  then show ?thesis using bs by (simp add: marshalCache_def)
qed

lemma marshalCache_None: "marshalCache v = None \<Longrightarrow> \<not> cacheable v"
  using unmarshal_marshal_cache by force

subsection \<open>The other documents the services send\<close>

definition detailsFields :: "(string \<times> CottageDetails decoder) list" where
  "detailsFields =
     [(''description'', decString (\<lambda>s. cd_Description_update (\<lambda>_. s))),
      (''view'', decString (\<lambda>s. cd_View_update (\<lambda>_. s))),
      (''furniture_description'', decString (\<lambda>s. cd_FurnitureDescription_update (\<lambda>_. s))),
      (''bathroom_description'', decString (\<lambda>s. cd_BathroomDescription_update (\<lambda>_. s))),
      (''amenities_description'', decString (\<lambda>s. cd_AmenitiesDescription_update (\<lambda>_. s)))]"

definition zeroCottage :: Cottage where
  "zeroCottage = \<lparr>ct_Name = [], ct_Type = [],
     ct_Details = \<lparr>cd_Description = [], cd_View = [], cd_FurnitureDescription = [], cd_BathroomDescription = [],
       cd_AmenitiesDescription = []\<rparr>,
     ct_Photos = [], ct_PricePerNight = 0\<rparr>"

definition cottageFields :: "(string \<times> Cottage decoder) list" where
  "cottageFields =
     [(''name'', decString (\<lambda>s. ct_Name_update (\<lambda>_. s))),
      (''type'', decString (\<lambda>s. ct_Type_update (\<lambda>_. s))),
      (''details'', decSub ct_Details (\<lambda>d. ct_Details_update (\<lambda>_. d)) (decStruct detailsFields)),
      (''photos'', decSlice [] (decString (\<lambda>s _. s)) (\<lambda>ps. ct_Photos_update (\<lambda>_. ps))),
      (''price_per_night'', decFloat32 (\<lambda>q. ct_PricePerNight_update (\<lambda>_. q)))]"

definition unmarshalCottages :: "json \<Rightarrow> Cottage list option" where
  "unmarshalCottages j = decSlice zeroCottage (decStruct cottageFields) (\<lambda>cs _. cs) j []"

definition zeroPeriodDTO :: PeriodDTO where
  "zeroPeriodDTO = \<lparr>CheckIn = zeroTime, CheckOut = zeroTime\<rparr>"

definition periodDTOFields :: "(string \<times> PeriodDTO decoder) list" where
  "periodDTOFields =
     [(''check_in'', decTime (\<lambda>t. CheckIn_update (\<lambda>_. t))),
      (''check_out'', decTime (\<lambda>t. CheckOut_update (\<lambda>_. t)))]"

definition availableFields :: "(string \<times> AvailablePeriodDTO decoder) list" where
  "availableFields =
     [(''cottage_name'', decString (\<lambda>s. ap_Name_update (\<lambda>_. s))),
      (''available_periods'',
         decSlice zeroPeriodDTO (decStruct periodDTOFields) (\<lambda>ps. ap_Periods_update (\<lambda>_. ps)))]"

definition unmarshalAvailable :: "json \<Rightarrow> AvailablePeriodDTO option" where
  "unmarshalAvailable j = decStruct availableFields j \<lparr>ap_Name = [], ap_Periods = []\<rparr>"

text \<open>\<open>booking.Confirmation\<close> has one field, the booking id.\<close>

definition unmarshalConfirmation :: "json \<Rightarrow> string option" where
  "unmarshalConfirmation j = decStruct [(''bookingId'', decString (\<lambda>s _. s))] j []"

definition payResponseFields :: "(string \<times> PayWithCardResponse decoder) list" where
  "payResponseFields =
     [(''receiptNumber'', decString (\<lambda>s. pw_ReceiptNumber_update (\<lambda>_. s))),
      (''invoiceNumber'', decString (\<lambda>s. pw_InvoiceNumber_update (\<lambda>_. s))),
      (''status'', decString (\<lambda>s. pw_Status_update (\<lambda>_. s)))]"

definition unmarshalPayResponse :: "json \<Rightarrow> PayWithCardResponse option" where
  "unmarshalPayResponse j =
     decStruct payResponseFields j \<lparr>pw_ReceiptNumber = [], pw_InvoiceNumber = [], pw_Status = []\<rparr>"

text \<open>\<open>var guestId string; json.Unmarshal(body, &guestId)\<close>.\<close>

definition unmarshalGuestId :: "json \<Rightarrow> string option" where
  "unmarshalGuestId j = decString (\<lambda>s _. s) j []"

end
