(* ===== verification/Messages.thy ===== *)
theory Messages
  imports Gotime
begin

text \<open>
  The protobuf messages of the broker and of the lodging chat
  (internal/domain/dto/communication, internal/domain/dto/lodging,
  internal/domain/dto/time\_event): the generated structs as records and the
  enumerations as datatypes. A message pointer field is an option; proto3 enumerations are
  open, so each has a constructor for the numbers the schema does not name.
\<close>

subsection \<open>Timestamps\<close>

record Timestamp =
  seconds :: int
  nanos :: int

text \<open>\<open>timestamppb.Timestamp.AsTime\<close>: the instant, in UTC; a nil timestamp is the epoch.\<close>

definition AsTime :: "Timestamp \<Rightarrow> Time" where
  "AsTime t = \<lparr>ns = seconds t * Second + nanos t, off = 0\<rparr>"

subsection \<open>Messages of the guest queue\<close>

record Money =
  mn_Amount :: int
  mn_Currency :: string

record PaymentOption =
  po_Method :: string
  po_PaymentUrl :: string
  po_Instructions :: string

record BookingSummary =
  bs_CottageName :: string
  bs_Nights :: int
  bs_NumberOfGuests :: int

record PayerSummary =
  ps_Name :: string
  ps_Email :: string

record PaymentRequest =
  pr_InvoiceNumber :: string
  pr_Description :: string
  pr_Total :: "Money option"
  pr_IssuedAt :: "Timestamp option"
  pr_ExpiresAt :: "Timestamp option"
  pr_Booking :: "BookingSummary option"
  pr_Payer :: "PayerSummary option"
  pr_Options :: "PaymentOption list"

datatype BookingStatus =
    BOOKING_STATUS_UNSPECIFIED | BOOKING_STATUS_PENDING | BOOKING_STATUS_CONFIRMED | BOOKING_STATUS_CANCELLED
  | BOOKING_STATUS_UNKNOWN int

fun BookingStatus_String :: "BookingStatus \<Rightarrow> string" where
  "BookingStatus_String BOOKING_STATUS_UNSPECIFIED = ''BOOKING_STATUS_UNSPECIFIED''"
| "BookingStatus_String BOOKING_STATUS_PENDING = ''BOOKING_STATUS_PENDING''"
| "BookingStatus_String BOOKING_STATUS_CONFIRMED = ''BOOKING_STATUS_CONFIRMED''"
| "BookingStatus_String BOOKING_STATUS_CANCELLED = ''BOOKING_STATUS_CANCELLED''"
| "BookingStatus_String (BOOKING_STATUS_UNKNOWN n) = show_int n"

record GuestSummary =
  gs_GuestId :: string
  gs_Name :: string
  gs_Email :: string
  gs_Phone :: string

record BookingConfirmationSummary =
  bc_CottageName :: string
  bc_CheckIn :: "Timestamp option"
  bc_CheckOut :: "Timestamp option"
  bc_Nights :: int
  bc_NumberOfGuests :: int

record BookingConfirmedNotificationEvent =
  be_Id :: string
  be_BookingId :: string
  be_BookingStatus :: BookingStatus
  be_Guest :: "GuestSummary option"
  be_Booking :: "BookingConfirmationSummary option"
  be_ConfirmedAt :: "Timestamp option"

record CheckInTodayNotification =
  ci_BookingId :: string
  ci_GuestId :: string
  ci_CottageName :: string
  ci_CheckIn :: "Timestamp option"
  ci_CheckOut :: "Timestamp option"
  ci_NumberOfGuests :: int
  ci_NotificationDay :: "Timestamp option"

record TimeEvent =
  te_Time :: "Timestamp option"

subsection \<open>Messages of the lodging chat\<close>

datatype GuestAction =
    GUEST_ACTION_UNSPECIFIED | SHOW_FOR_CHECKIN | SHOW_DOCUMENT | SHOW_BOOKING_NUMBER | ENTER_COTTAGE
  | LEAVE_COTTAGE | GO_FOR_A_BATH | RETURN_FROM_BATH | GO_FOR_DINNER | GO_FOR_BREAKFAST | GO_TO_SLEEP
  | WAKEUP | LEAVE_CLEANUP_NOTIFICATION | ENJOY_RESORT | PROCEED_TO_CHECKOUT | RETURN_COTTAGE_KEY
  | TAKE_COTTAGE_KEY | GUEST_ACTION_UNKNOWN int

datatype GuestResponse =
    ShowDocument string | ShowBookingNumber string | ReceiveCottageKey string | ReturnCottageKey string
  | EmptyResponse

datatype SystemNotification =
    SYSTEM_NOTIFICATION_UNSPECIFIED | BOOKING_CHECKING | CHECK_IN_COMPLETE | DINNER_READY
  | PREPARE_COTTAGE_TO_SLEEP | BREAKFAST_READY | CHECK_OUT_TOMORROW | CHECK_OUT_COMPLETE | CHECK_OUT_TODAY
  | SYSTEM_NOTIFICATION_UNKNOWN int

datatype SystemRequest =
    SYSTEM_REQUEST_UNSPECIFIED | REQUEST_DOCUMENT | REQUEST_BOOKING_NUMBER | GIVE_COTTAGE_KEY
  | REQUEST_COTTAGE_KEY | SYSTEM_REQUEST_UNKNOWN int

datatype Sender = SENDER_UNSPECIFIED | SENDER_GUEST | SENDER_SYSTEM | SENDER_UNKNOWN int

datatype AckStatus = ACK_STATUS_UNSPECIFIED | ACK_STATUS_ACCEPTED | ACK_STATUS_REJECTED | ACK_STATUS_UNKNOWN int

datatype ErrorCode = ERROR_CODE_UNSPECIFIED | ERROR_CODE_NONE | ERROR_CODE_UNKNOWN int

record Ack =
  ak_AcknowledgedMessageId :: string
  ak_Status :: AckStatus
  ak_Code :: ErrorCode

text \<open>The oneof payload of the envelope; \<open>NoPayload\<close> is the nil interface.\<close>

datatype Payload =
    P_GuestAction GuestAction
  | P_GuestResponse GuestResponse
  | P_SystemNotification SystemNotification
  | P_SystemRequest SystemRequest
  | P_Ack Ack
  | NoPayload

record ChatMessage =
  cm_MessageId :: string
  cm_CorrelationId :: string
  cm_Sender :: Sender
  cm_ProtocolVersion :: string
  cm_TraceContext :: "(string \<times> string) list"
  cm_Payload :: Payload

end
