(* ===== verification/World.thy ===== *)
theory World
  imports Domain Messages
begin

text \<open>
  What surrounds the simulator. The operations of the libraries and services that the
  sources only call (go-redis, resty and the HTTP services behind it, the clock service,
  \<open>math/rand\<close>, gofakeit, the context's cancellation, Unicode tables) are the fields of
  a record \<open>'x External\<close>, functions on a state \<open>'x\<close> the simulator never looks into.
  Every definition that uses them takes the record as an argument.

  The world of a journey is the shared \<open>*domain.State\<close> (\<open>None\<close> is the nil pointer)
  and the external state.
\<close>

datatype Service = GuestManager | CottageManager | PaymentSimulator

datatype Method = GET | POST

datatype Body = NoBody | GuestBody Guest | BookingBody BookingRequest | PayBody PayWithCardRequest

record Request =
  rq_service :: Service
  rq_method :: Method
  rq_path :: string
  rq_query :: "(string \<times> string) list"
  rq_body :: Body

text \<open>
  A response: status code, \<open>resp.Status()\<close>, how \<open>%s\<close> renders \<open>resp.Error()\<close>, and
  the document its body denotes, if it denotes one.
\<close>

record Response =
  rs_code :: nat
  rs_status :: string
  rs_error :: string
  rs_body :: "json option"

text \<open>\<open>resp.IsError()\<close>: a status code of 400 or more.\<close>

definition IsError :: "Response \<Rightarrow> bool" where
  "IsError r \<longleftrightarrow> 399 < rs_code r"

record 'x External =
  redisSet :: "string \<Rightarrow> json \<Rightarrow> 'x \<Rightarrow> unit res \<times> 'x"
  redisGet :: "string \<Rightarrow> 'x \<Rightarrow> json res \<times> 'x"
  redisDel :: "string \<Rightarrow> 'x \<Rightarrow> unit res \<times> 'x"
  httpDo :: "Request \<Rightarrow> 'x \<Rightarrow> Response res \<times> 'x"
  grpcNow :: "'x \<Rightarrow> Timestamp option res \<times> 'x"
  ctxErr :: "'x \<Rightarrow> error option \<times> 'x"
  randFloat64 :: "'x \<Rightarrow> rat \<times> 'x"
  randIntn :: "nat \<Rightarrow> 'x \<Rightarrow> nat \<times> 'x"
  fakeName :: "'x \<Rightarrow> string \<times> 'x"
  fakeSSN :: "'x \<Rightarrow> string \<times> 'x"
  fakeAddress :: "'x \<Rightarrow> string \<times> 'x"
  uniLower :: "string \<Rightarrow> string"
  uniFold :: "string \<Rightarrow> string \<Rightarrow> bool"
  float64 :: "rat \<Rightarrow> rat"

text \<open>
  \<open>Clock.Now\<close> (internal/infra/clock/client.go): the time of the answer of the clock service; the zero
  timestamp, the start of 1970, when the answer has none.
\<close>

definition clockNow :: "'x External \<Rightarrow> 'x \<Rightarrow> Time res \<times> 'x" where
  "clockNow E x = (case grpcNow E x of
      (Ret t, x') \<Rightarrow> (Ret (AsTime (case t of None \<Rightarrow> \<lparr>seconds = 0, nanos = 0\<rparr> | Some ts \<Rightarrow> ts)), x')
    | (Err e, x') \<Rightarrow> (Err e, x')
    | (Panics s, x') \<Rightarrow> (Panics s, x')
    | (Blocks, x') \<Rightarrow> (Blocks, x'))"

record 'x World =
  w_state :: "State option"
  w_ext :: 'x

text \<open>Calls into the outside.\<close>

definition ext :: "('x \<Rightarrow> 'a res \<times> 'x) \<Rightarrow> (('x, 'z) World_scheme, 'a) go" where
  "ext f = (\<lambda>w. let (r, x) = f (w_ext w) in (r, w\<lparr>w_ext := x\<rparr>))"

definition extV :: "('x \<Rightarrow> 'a \<times> 'x) \<Rightarrow> (('x, 'z) World_scheme, 'a) go" where
  "extV f = (\<lambda>w. let (a, x) = f (w_ext w) in (Ret a, w\<lparr>w_ext := x\<rparr>))"

text \<open>Dereferencing the state pointer: nil panics.\<close>

definition deref :: "(('x, 'z) World_scheme, State) go" where
  "deref = (\<lambda>w. case w_state w of None \<Rightarrow> (Panics ''nil pointer dereference'', w) | Some s \<Rightarrow> (Ret s, w))"

definition setState :: "(State \<Rightarrow> State) \<Rightarrow> (('x, 'z) World_scheme, unit) go" where
  "setState f = (\<lambda>w. case w_state w of
      None \<Rightarrow> (Panics ''nil pointer dereference'', w)
    | Some s \<Rightarrow> (Ret (), w\<lparr>w_state := Some (f s)\<rparr>))"

text \<open>\<open>json.Unmarshal\<close> of a response body.\<close>

definition decodeBody :: "(json \<Rightarrow> 'a option) \<Rightarrow> Response \<Rightarrow> ('w, 'a) go" where
  "decodeBody dec r =
     (case Option.bind (rs_body r) dec of None \<Rightarrow> throw (Ext ''json.Unmarshal'') | Some a \<Rightarrow> ret a)"

lemma deref_run: "w_state w = Some s \<Longrightarrow> deref w = (Ret s, w)"
  by (simp add: deref_def)

lemma deref_Ret_iff: "deref w = (Ret s, w') \<longleftrightarrow> w_state w = Some s \<and> w' = w"
  by (auto simp: deref_def split: option.splits)

lemma setState_Ret_iff:
  "setState f w = (Ret u, w') \<longleftrightarrow> (\<exists>s. w_state w = Some s \<and> w' = w\<lparr>w_state := Some (f s)\<rparr>)"
  by (auto simp: setState_def split: option.splits)

lemma ext_Ret_iff: "ext f w = (r, w') \<longleftrightarrow> (\<exists>x. f (w_ext w) = (r, x) \<and> w' = w\<lparr>w_ext := x\<rparr>)"
  by (auto simp: ext_def split: prod.splits)

lemma extV_Ret_iff: "extV f w = (r, w') \<longleftrightarrow> (\<exists>a x. f (w_ext w) = (a, x) \<and> r = Ret a \<and> w' = w\<lparr>w_ext := x\<rparr>)"
  by (auto simp: extV_def split: prod.splits)

lemma decodeBody_Ret_iff:
  "decodeBody dec r w = (Ret a, w') \<longleftrightarrow> Option.bind (rs_body r) dec = Some a \<and> w' = w"
  by (auto simp: decodeBody_def split: option.splits)

text \<open>Calls into the outside leave the journey state alone.\<close>

definition stateIs :: "State option \<Rightarrow> ('x, 'z) World_scheme \<Rightarrow> bool" where
  "stateIs s w \<longleftrightarrow> w_state w = s"

lemma keeps_ext [go_keeps]: "keeps (stateIs s) (ext f)" "keeps (stateIs s) (extV g)"
  by (auto intro!: keepsI simp: stateIs_def ext_Ret_iff extV_Ret_iff)

lemma keeps_deref [go_keeps]: "keeps P deref"
  by (auto simp: keeps_def deref_def split: option.splits)

lemma keeps_decodeBody [go_keeps]: "keeps P (decodeBody dec r)"
  by (auto simp: keeps_def decodeBody_def split: option.splits)

text \<open>
  The outside answers: the HTTP and Redis clients have timeouts, so their calls return
  (resty: 5 s; go-redis: 5 s to dial, read and write), and so does the clock.
\<close>

definition responsive :: "'x External \<Rightarrow> bool" where
  "responsive E \<longleftrightarrow>
     (\<forall>k v x. fst (redisSet E k v x) \<noteq> Blocks) \<and> (\<forall>k x. fst (redisGet E k x) \<noteq> Blocks)
   \<and> (\<forall>k x. fst (redisDel E k x) \<noteq> Blocks) \<and> (\<forall>r x. fst (httpDo E r x) \<noteq> Blocks)
   \<and> (\<forall>x. fst (grpcNow E x) \<noteq> Blocks)"

lemma noBlock_ext: "(\<And>x. fst (f x) \<noteq> Blocks) \<Longrightarrow> noBlock (ext f)"
  by (auto simp: noBlock_def ext_def split: prod.splits) (metis fst_conv)

lemma clockNow_outcome: "snd (clockNow E x) = snd (grpcNow E x)" "fst (clockNow E x) = Blocks \<longleftrightarrow> fst (grpcNow E x) = Blocks"
  by (auto simp: clockNow_def split: prod.splits res.splits)

lemma noBlock_outside [go_returns]:
  "noBlock (extV g)" "noBlock deref" "noBlock (setState h)" "noBlock (decodeBody dec r)"
  by (auto simp: noBlock_def extV_def deref_def setState_def decodeBody_def split: prod.splits option.splits)

lemma noBlock_responsive [go_returns]:
  assumes "responsive E"
  shows "noBlock (ext (redisSet E k v))" "noBlock (ext (redisGet E k))" "noBlock (ext (redisDel E k))"
    "noBlock (ext (httpDo E q))" "noBlock (ext (clockNow E))"
  using assms by (auto simp: responsive_def clockNow_outcome intro!: noBlock_ext)

text \<open>A call through an HTTP client; a nil client panics.\<close>

definition httpCall :: "'x External \<Rightarrow> bool \<Rightarrow> Request \<Rightarrow> (('x, 'z) World_scheme, Response) go" where
  "httpCall E client req = (if client then ext (httpDo E req) else panic ''nil pointer dereference'')"

lemma httpCall_Ret_iff:
  "httpCall E client req w = (Ret r, w') \<longleftrightarrow>
     client \<and> (\<exists>x. httpDo E req (w_ext w) = (Ret r, x) \<and> w' = w\<lparr>w_ext := x\<rparr>)"
  by (auto simp: httpCall_def ext_Ret_iff)

lemma noBlock_httpCall [go_returns]: "responsive E \<Longrightarrow> noBlock (httpCall E client req)"
  by (simp add: httpCall_def go_returns)

end
