(* ===== verification/Cache.thy ===== *)
theory Cache
  imports World
begin

text \<open>
  The journey cache: \<open>redis.Cache\<close> (internal/infra/redis/cache.go) over the Redis
  client, and \<open>JourneyCacheService\<close>
  (internal/app/journey/journey_services/cache_service.go). The abstract reading is
  \<open>cached\<close>: the journey value stored under the key of the journey. \<open>Load\<close> reads
  it, \<open>Save\<close> replaces it, and each service operation is shown in these terms.
\<close>

subsection \<open>redis.Redis\<close>

text \<open>The wrapper around the Redis library (internal/infra/redis/redis.go); its trace spans are left out.\<close>

definition Redis_set :: "'x External \<Rightarrow> string \<Rightarrow> json \<Rightarrow> (('x, 'z) World_scheme, unit) go" where
  "Redis_set E key v = ext (redisSet E key v)"

definition Redis_get :: "'x External \<Rightarrow> string \<Rightarrow> (('x, 'z) World_scheme, json) go" where
  "Redis_get E key = ext (redisGet E key)"

definition Redis_del :: "'x External \<Rightarrow> string \<Rightarrow> (('x, 'z) World_scheme, unit) go" where
  "Redis_del E key = ext (redisDel E key)"

lemmas redis_calls [simp] = Redis_set_def Redis_get_def Redis_del_def

lemma keeps_redis [go_keeps]:
  "keeps P (ext (redisSet E k v)) \<Longrightarrow> keeps P (Redis_set E k v)" "keeps P (ext (redisGet E k)) \<Longrightarrow> keeps P (Redis_get E k)"
  "keeps P (ext (redisDel E k)) \<Longrightarrow> keeps P (Redis_del E k)"
  by simp_all

subsection \<open>redis.Cache\<close>

text \<open>\<open>redis\<close> says whether the pointer to the Redis client is set.\<close>

record Cache =
  redis :: bool

definition CacheSet :: "'x External \<Rightarrow> Cache \<Rightarrow> string \<Rightarrow> json \<Rightarrow> (('x, 'z) World_scheme, unit) go" where
  "CacheSet E c key v =
     (if \<not> redis c then throw (Errorf ''invalid redis client'') else Redis_set E key v)"

definition Get :: "'x External \<Rightarrow> Cache \<Rightarrow> string \<Rightarrow> (('x, 'z) World_scheme, json) go" where
  "Get E c key =
     (if \<not> redis c then throw (Errorf ''invalid redis client'') else Redis_get E key)"

definition Del :: "'x External \<Rightarrow> Cache \<Rightarrow> string \<Rightarrow> (('x, 'z) World_scheme, unit) go" where
  "Del E c key =
     (if \<not> redis c then throw (Errorf ''invalid redis client'') else Redis_del E key)"

definition EnsureKey :: "(('x, 'z) World_scheme, string) go" where
  "EnsureKey = (\<lambda>w. case w_state w of
      None \<Rightarrow> throw (Errorf ''invalid state, state is nil'') w
    | Some s \<Rightarrow>
        if RedisKey s \<noteq> [] then ret (RedisKey s) w
        else if GuestId s = [] then throw (Errorf ''invalid state, guestId is empty'') w
        else thenE (setState (\<lambda>s. s\<lparr>RedisKey := ''guest.'' @ GuestId s\<rparr>)) (ret (''guest.'' @ GuestId s)) w)"

definition Load :: "'x External \<Rightarrow> Cache \<Rightarrow> (('x, 'z) World_scheme, GuestJourneyCacheValue) go" where
  "Load E c =
     (if \<not> redis c then throw (Errorf ''invalid redis client'')
      else bindE EnsureKey (\<lambda>key.
           bindE (Get E c key) (\<lambda>payload.
             case unmarshalCache payload of
               None \<Rightarrow> throw (Ext ''json.Unmarshal'')
             | Some value \<Rightarrow> ret value)))"

definition Save :: "'x External \<Rightarrow> Cache \<Rightarrow> GuestJourneyCacheValue \<Rightarrow> (('x, 'z) World_scheme, unit) go" where
  "Save E c value =
     (if \<not> redis c then throw (Errorf ''invalid redis client'')
      else bindE EnsureKey (\<lambda>key.
             case marshalCache value of
               None \<Rightarrow> throw (Ext ''json.Marshal'')
             | Some payload \<Rightarrow> CacheSet E c key payload))"

text \<open>Calling a method on a nil \<open>port.Cache\<close> interface panics.\<close>

definition onCache :: "Cache option \<Rightarrow> (Cache \<Rightarrow> ('w, 'a) go) \<Rightarrow> ('w, 'a) go" where
  "onCache C f = (case C of None \<Rightarrow> panic ''nil pointer dereference'' | Some c \<Rightarrow> f c)"

subsection \<open>JourneyCacheService\<close>

text \<open>The receiver: \<open>None\<close> is a nil service, \<open>Some None\<close> a service with a nil cache.\<close>

type_synonym JourneyCacheService = "Cache option option"

definition NewJourneyCacheService :: "Cache option \<Rightarrow> JourneyCacheService" where
  "NewJourneyCacheService cache = Some cache"

abbreviation stateNil :: "('x, 'z) World_scheme \<Rightarrow> bool" where
  "stateNil w \<equiv> w_state w = None"

definition InitializeStateCache :: "'x External \<Rightarrow> JourneyCacheService \<Rightarrow> (('x, 'z) World_scheme, unit) go" where
  "InitializeStateCache E s = bindE (getW w_state) (\<lambda>st. case st of
      None \<Rightarrow> throw (Errorf ''invalid state, state is nil'')
    | Some state \<Rightarrow>
        (case Option.bind s id of
           None \<Rightarrow> throw (Errorf ''invalid guest journey cache'')
         | Some c \<Rightarrow>
             if StGuest state = None then throw (Errorf ''invalid state, guest is nil'')
             else if RedisKey state = [] then throw (Errorf ''invalid state, redisKey is empty'')
             else Save E c (zeroCacheValue\<lparr>PersonalInfo := StGuest state\<rparr>)))"

definition SyncStateCache :: "'x External \<Rightarrow> JourneyCacheService \<Rightarrow> (('x, 'z) World_scheme, unit) go" where
  "SyncStateCache E s = bindE (getW w_state) (\<lambda>st. case st of
      None \<Rightarrow> throw (Errorf ''invalid state, state is nil'')
    | Some state \<Rightarrow>
        (case Option.bind s id of
           None \<Rightarrow> throw (Errorf ''invalid guest journey cache'')
         | Some c \<Rightarrow>
             if GuestId state = [] then throw (Errorf ''invalid state, guestId is empty'')
             else bindE (Load E c) (\<lambda>current.
               let current = (if GuestId state \<noteq> [] then current\<lparr>GuestID := GuestId state\<rparr> else current);
                   current = (if StGuest state \<noteq> None then current\<lparr>PersonalInfo := StGuest state\<rparr> else current)
               in Save E c current)))"

definition LogStateCache :: "'x External \<Rightarrow> JourneyCacheService \<Rightarrow> (('x, 'z) World_scheme, unit) go" where
  "LogStateCache E s = bindE (getW w_state) (\<lambda>st. case st of
      None \<Rightarrow> throw (Errorf ''invalid state, state is nil'')
    | Some state \<Rightarrow>
        (case Option.bind s id of
           None \<Rightarrow> throw (Errorf ''invalid guest journey cache'')
         | Some c \<Rightarrow>
             if RedisKey state = [] then throw (Errorf ''invalid state, redisKey is empty'')
             else bindE (Get E c (RedisKey state)) (\<lambda>_. ret ())))"

definition DeleteStateCache :: "'x External \<Rightarrow> JourneyCacheService \<Rightarrow> (('x, 'z) World_scheme, unit) go" where
  "DeleteStateCache E s = bindE (getW w_state) (\<lambda>st. case st of
      None \<Rightarrow> throw (Errorf ''invalid state, state is nil'')
    | Some state \<Rightarrow>
        (case Option.bind s id of
           None \<Rightarrow> throw (Errorf ''invalid guest journey cache'')
         | Some c \<Rightarrow>
             if RedisKey state = [] then throw (Errorf ''invalid state, redisKey is empty'')
             else Del E c (RedisKey state)))"

subsection \<open>The contract of Redis\<close>

text \<open>
  What the code relies on: \<open>content\<close> reads the stored documents; a successful SET binds
  the key and a failed one has either been applied or not, GET returns the binding and
  changes nothing, a successful DEL removes it and a failed one has either been applied or not, and
  no other outside call writes the store.
\<close>

definition redisLaws :: "'x External \<Rightarrow> ('x \<Rightarrow> string \<Rightarrow> json option) \<Rightarrow> bool" where
  "redisLaws E content \<longleftrightarrow>
     (\<forall>k v x x'. redisSet E k v x = (Ret (), x') \<longrightarrow> content x' = (content x)(k \<mapsto> v))
   \<and> (\<forall>k v x. content (snd (redisSet E k v x)) \<in> {content x, (content x)(k \<mapsto> v)})
   \<and> (\<forall>k v x x'. redisGet E k x = (Ret v, x') \<longrightarrow> content x k = Some v)
   \<and> (\<forall>k x. content (snd (redisGet E k x)) = content x)
   \<and> (\<forall>k x x'. redisDel E k x = (Ret (), x') \<longrightarrow> content x' = (content x)(k := None))
   \<and> (\<forall>k x. content (snd (redisDel E k x)) \<in> {content x, (content x)(k := None)})
   \<and> (\<forall>r x. content (snd (httpDo E r x)) = content x)
   \<and> (\<forall>x. content (snd (grpcNow E x)) = content x)
   \<and> (\<forall>x. content (snd (ctxErr E x)) = content x)
   \<and> (\<forall>x. content (snd (randFloat64 E x)) = content x)
   \<and> (\<forall>n x. content (snd (randIntn E n x)) = content x)
   \<and> (\<forall>x. content (snd (fakeName E x)) = content x)
   \<and> (\<forall>x. content (snd (fakeSSN E x)) = content x)
   \<and> (\<forall>x. content (snd (fakeAddress E x)) = content x)"

text \<open>The key under which a state is cached, and the cached journey.\<close>

definition keyOf :: "State \<Rightarrow> string" where
  "keyOf s = (if RedisKey s \<noteq> [] then RedisKey s else ''guest.'' @ GuestId s)"

definition cached :: "('x \<Rightarrow> string \<Rightarrow> json option) \<Rightarrow> ('x, 'z) World_scheme \<Rightarrow> GuestJourneyCacheValue option" where
  "cached content w =
     (case w_state w of
        None \<Rightarrow> None
      | Some s \<Rightarrow> Option.bind (content (w_ext w) (keyOf s)) unmarshalCache)"

lemma redisLawsD:
  assumes "redisLaws E content"
  shows "redisSet E k v x = (Ret (), x') \<Longrightarrow> content x' = (content x)(k \<mapsto> v)"
    and "redisGet E k x = (Ret v, x') \<Longrightarrow> content x k = Some v"
    and "redisGet E k x = (r, x') \<Longrightarrow> content x' = content x"
    and "redisDel E k x = (Ret (), x') \<Longrightarrow> content x' = (content x)(k := None)"
    and "httpDo E q x = (rr, x') \<Longrightarrow> content x' = content x"
    and "clockNow E x = (tt, x') \<Longrightarrow> content x' = content x"
    and "ctxErr E x = (ee, x') \<Longrightarrow> content x' = content x"
    and "randFloat64 E x = (qq, x') \<Longrightarrow> content x' = content x"
    and "randIntn E n x = (ii, x') \<Longrightarrow> content x' = content x"
    and "fakeName E x = (s1, x') \<Longrightarrow> content x' = content x"
    and "fakeSSN E x = (s2, x') \<Longrightarrow> content x' = content x"
    and "fakeAddress E x = (s3, x') \<Longrightarrow> content x' = content x"
    and "redisSet E k v x = (rs, x') \<Longrightarrow> content x' = content x \<or> content x' = (content x)(k \<mapsto> v)"
    and "redisDel E k x = (rd, x') \<Longrightarrow> content x' = content x \<or> content x' = (content x)(k := None)"
  using assms clockNow_outcome(1) [of E x] unfolding redisLaws_def by (metis snd_conv insertE singletonD)+

lemma EnsureKey_Ret:
  assumes "EnsureKey w = (Ret key, w')"
  obtains s where "w_state w = Some s" "key = keyOf s" "key \<noteq> []"
    "w' = w\<lparr>w_state := Some (s\<lparr>RedisKey := key\<rparr>)\<rparr>"
  using assms
  by (auto simp: EnsureKey_def keyOf_def setState_Ret_iff thenE_Ret_iff split: option.splits if_splits)

lemma keyOf_ensured [simp]: "key \<noteq> [] \<Longrightarrow> keyOf (s\<lparr>RedisKey := key\<rparr>) = key"
  by (simp add: keyOf_def)

lemma EnsureKey_idempotent:
  "EnsureKey w = (Ret key, w') \<Longrightarrow> EnsureKey w' = (Ret key, w')"
  by (erule EnsureKey_Ret) (simp add: EnsureKey_def)

lemma EnsureKey_Err:
  "EnsureKey w = (Err e, w') \<longleftrightarrow> w' = w \<and>
     (w_state w = None \<and> e = Errorf ''invalid state, state is nil''
      \<or> (\<exists>s. w_state w = Some s \<and> RedisKey s = [] \<and> GuestId s = [] \<and> e = Errorf ''invalid state, guestId is empty''))"
  by (auto simp: EnsureKey_def bindE_Err_iff thenE_def setState_def split: option.splits if_splits)

lemma Load_cached:
  assumes "redisLaws E content" and "Load E c w = (Ret v, w')"
  shows "cached content w = Some v" and "cached content w' = Some v"
    and "content (w_ext w') = content (w_ext w)"
    and "\<exists>s. w_state w = Some s \<and> keyOf s \<noteq> [] \<and> w_state w' = Some (s\<lparr>RedisKey := keyOf s\<rparr>)"
  using assms(2)
  by (auto simp: Load_def Get_def bindE_Ret_iff ext_Ret_iff cached_def redisLawsD [OF assms(1)]
      split: if_splits option.splits elim!: EnsureKey_Ret)

lemma Save_cached:
  assumes "redisLaws E content" and "cacheable v" and "Save E c v w = (Ret u, w')"
  shows "cached content w' = Some v"
    and "\<exists>s. w_state w = Some s \<and> keyOf s \<noteq> [] \<and> w_state w' = Some (s\<lparr>RedisKey := keyOf s\<rparr>)
      \<and> (\<forall>k. k \<noteq> keyOf s \<longrightarrow> content (w_ext w') k = content (w_ext w) k)"
  using assms(3) unmarshal_marshal_cache [OF assms(2)]
  by (auto simp: Save_def CacheSet_def bindE_Ret_iff ext_Ret_iff cached_def redisLawsD [OF assms(1)]
      split: if_splits option.splits elim!: EnsureKey_Ret)

text \<open>Whatever the outcome of \<open>Load\<close> and \<open>Save\<close>: the cached journey is the old or the new one.\<close>

lemma EnsureKey_world:
  "EnsureKey w = (r, w') \<Longrightarrow> w' = w \<or> (\<exists>s. w_state w = Some s \<and> RedisKey s = []
     \<and> w' = w\<lparr>w_state := Some (s\<lparr>RedisKey := ''guest.'' @ GuestId s\<rparr>)\<rparr>)"
  by (auto simp: EnsureKey_def thenE_def bindE_def setState_def split: option.splits if_splits)

lemma EnsureKey_any:
  assumes "EnsureKey w = (r, w')"
  shows "w_ext w' = w_ext w" and "cached content w' = cached content w"
    and "w_state w = Some st \<Longrightarrow> \<exists>k. w_state w' = Some (st\<lparr>RedisKey := k\<rparr>)"
proof -
  note w' = EnsureKey_world [OF assms]
  then show "w_ext w' = w_ext w" by auto
  show "cached content w' = cached content w" using w' by (auto simp: cached_def keyOf_def)
  show "w_state w = Some st \<Longrightarrow> \<exists>k. w_state w' = Some (st\<lparr>RedisKey := k\<rparr>)"
    using w' by (auto intro: exI [of _ "RedisKey st"])
qed

lemma Load_any:
  assumes "redisLaws E content" and "Load E c w = (r, w')"
  shows "cached content w' = cached content w"
    and "w_state w = Some st \<Longrightarrow> \<exists>k. w_state w' = Some (st\<lparr>RedisKey := k\<rparr>)"
proof -
  obtain r1 w1 where ek: "EnsureKey w = (r1, w1)" by fastforce
  have w': "w' = w \<or> w' = w1 \<or> (\<exists>x. w' = w1\<lparr>w_ext := x\<rparr> \<and> content x = content (w_ext w1))"
    using assms(2) ek redisLawsD(3) [OF assms(1)]
    by (auto simp: Load_def Get_def bindE_def ext_def split: if_splits prod.splits res.splits option.splits)
  then show "cached content w' = cached content w"
    using EnsureKey_any(2) [OF ek, of content] by (auto simp: cached_def split: option.splits)
  show "w_state w = Some st \<Longrightarrow> \<exists>k. w_state w' = Some (st\<lparr>RedisKey := k\<rparr>)"
    using w' EnsureKey_any(3) [OF ek, of st] by (auto intro: exI [of _ "RedisKey st"])
qed

lemma Save_any:
  assumes laws: "redisLaws E content" and "cacheable v" and "Save E c v w = (r, w')"
  shows "cached content w' = cached content w \<or> cached content w' = Some v"
    and "w_state w = Some st \<Longrightarrow> \<exists>k. w_state w' = Some (st\<lparr>RedisKey := k\<rparr>)"
proof -
  obtain r1 w1 where ek: "EnsureKey w = (r1, w1)" by fastforce
  obtain j where j: "marshalCache v = Some j" "unmarshalCache j = Some v"
    using unmarshal_marshal_cache [OF assms(2)] by blast
  have w': "w' = w \<or> w' = w1 \<or> (\<exists>key x rs. r1 = Ret key \<and> redisSet E key j (w_ext w1) = (rs, x) \<and> w' = w1\<lparr>w_ext := x\<rparr>)"
    using assms(3) ek
    by (auto simp: Save_def CacheSet_def bindE_def ext_def j split: if_splits prod.splits res.splits)
  have same: "cached content w1 = cached content w" by (rule EnsureKey_any(2) [OF ek])
  have "cached content w' = cached content w1 \<or> cached content w' = Some v"
    if "r1 = Ret key" "redisSet E key j (w_ext w1) = (rs, x)" "w' = w1\<lparr>w_ext := x\<rparr>" for key x rs
  proof -
    have "EnsureKey w = (Ret key, w1)" using ek that(1) by simp
    then obtain s where s: "key = keyOf s" "key \<noteq> []" "w1 = w\<lparr>w_state := Some (s\<lparr>RedisKey := key\<rparr>)\<rparr>"
      by (rule EnsureKey_Ret)
    then have "w_state w1 = Some (s\<lparr>RedisKey := key\<rparr>)" "key = keyOf (s\<lparr>RedisKey := key\<rparr>)" by simp_all
    with redisLawsD(13) [OF laws that(2)] that(3) j(2) show ?thesis by (auto simp: cached_def)
  qed
  with w' same show "cached content w' = cached content w \<or> cached content w' = Some v" by metis
  show "w_state w = Some st \<Longrightarrow> \<exists>k. w_state w' = Some (st\<lparr>RedisKey := k\<rparr>)"
    using w' EnsureKey_any(3) [OF ek, of st] by (auto intro: exI [of _ "RedisKey st"])
qed

text \<open>The interface of \<open>port.Cache\<close> that the steps of a journey are written against.\<close>

locale journey_cache =
  fixes load :: "('w, 'v) go" and save :: "'v \<Rightarrow> ('w, unit) go"
    and cur :: "'w \<Rightarrow> 'v option" and ok :: "'v \<Rightarrow> bool"
  assumes load_cur: "load w = (Ret v, w') \<Longrightarrow> cur w = Some v \<and> cur w' = Some v"
    and save_cur: "ok v \<Longrightarrow> save v w = (Ret u, w') \<Longrightarrow> cur w' = Some v"
begin

lemma load_after_save:
  "ok v \<Longrightarrow> save v w = (Ret u, w') \<Longrightarrow> load w' = (Ret v', w'') \<Longrightarrow> v' = v"
  by (metis load_cur option.inject save_cur)

lemma read_modify_write:
  assumes "bindE load (\<lambda>v. save (f v)) w = (Ret u, w')"
  shows "\<exists>v. cur w = Some v \<and> (ok (f v) \<longrightarrow> cur w' = Some (f v))"
  using assms load_cur save_cur by (auto simp: bindE_Ret_iff)

end

locale redis_store =
  fixes E :: "'x External" and content :: "'x \<Rightarrow> string \<Rightarrow> json option" and c :: Cache
  assumes laws: "redisLaws E content"

sublocale redis_store \<subseteq> jc: journey_cache "Load E c" "Save E c" "cached content" cacheable
proof
  show "Load E c w = (Ret v, w') \<Longrightarrow> cached content w = Some v \<and> cached content w' = Some v" for w v w'
    using Load_cached(1,2) [OF laws] by blast
  show "cacheable v \<Longrightarrow> Save E c v w = (Ret u, w') \<Longrightarrow> cached content w' = Some v" for v w u w'
    using Save_cached(1) [OF laws] by blast
qed

subsection \<open>The service operations on the cached journey\<close>

text \<open>One equation for the error prologue shared by the service operations.\<close>

lemma service_guards:
  "w_state w = None \<Longrightarrow> op \<in> {InitializeStateCache E s, SyncStateCache E s, LogStateCache E s, DeleteStateCache E s}
     \<Longrightarrow> op w = (Err (Errorf ''invalid state, state is nil''), w)"
  "w_state w = Some st \<Longrightarrow> Option.bind s id = None
     \<Longrightarrow> op \<in> {InitializeStateCache E s, SyncStateCache E s, LogStateCache E s, DeleteStateCache E s}
     \<Longrightarrow> op w = (Err (Errorf ''invalid guest journey cache''), w)"
  by (auto simp: InitializeStateCache_def SyncStateCache_def LogStateCache_def DeleteStateCache_def)

lemma InitializeStateCache_cached:
  assumes "redisLaws E content" and "InitializeStateCache E s w = (Ret u, w')"
  shows "\<exists>st g. w_state w = Some st \<and> StGuest st = Some g
    \<and> cached content w' = Some (zeroCacheValue\<lparr>PersonalInfo := Some g\<rparr>)"
proof -
  from assms(2) obtain st c where st: "w_state w = Some st" "StGuest st \<noteq> None"
    and sv: "Save E c (zeroCacheValue\<lparr>PersonalInfo := StGuest st\<rparr>) w = (Ret u, w')"
    by (auto simp: InitializeStateCache_def split: option.splits if_splits)
  have "cacheable (zeroCacheValue\<lparr>PersonalInfo := StGuest st\<rparr>)"
    by (simp add: cacheable_def zeroCacheValue_def)
  with st Save_cached(1) [OF assms(1) _ sv] show ?thesis by auto
qed

lemma cacheable_update [simp]:
  "cacheable (v\<lparr>GuestID := i\<rparr>) = cacheable v"
  "cacheable (v\<lparr>PersonalInfo := g\<rparr>) = cacheable v"
  "cacheable (v\<lparr>Invoice := n\<rparr>) = cacheable v"
  by (simp_all add: cacheable_def)

text \<open>What \<open>SyncStateCache\<close> writes: the identity of the guest, and nothing else.\<close>

definition synced :: "State \<Rightarrow> GuestJourneyCacheValue \<Rightarrow> GuestJourneyCacheValue" where
  "synced st v = v\<lparr>GuestID := GuestId st, PersonalInfo := (if StGuest st = None then PersonalInfo v else StGuest st)\<rparr>"

lemma synced_frame [simp]:
  "Booking (synced st v) = Booking v" "Invoice (synced st v) = Invoice v" "GuestID (synced st v) = GuestId st"
  "cacheable (synced st v) = cacheable v"
  by (simp_all add: synced_def cacheable_def)

lemma SyncStateCache_run:
  assumes "w_state w = Some st" and "GuestId st \<noteq> []"
  shows "SyncStateCache E (Some (Some c)) w = bindE (Load E c) (\<lambda>v. Save E c (synced st v)) w"
proof (cases "StGuest st")
  case None
  have "v\<lparr>GuestID := GuestId st, PersonalInfo := PersonalInfo v\<rparr> = v\<lparr>GuestID := GuestId st\<rparr>"
    for v :: GuestJourneyCacheValue by simp
  with None assms show ?thesis by (simp add: SyncStateCache_def synced_def)
next
  case (Some g)
  with assms show ?thesis by (simp add: SyncStateCache_def synced_def)
qed

context redis_store
begin

lemma sync_cached:
  assumes "SyncStateCache E (Some (Some c)) w = (Ret u, w')"
  shows "\<exists>st v. w_state w = Some st \<and> GuestId st \<noteq> [] \<and> cached content w = Some v
    \<and> (cacheable v \<longrightarrow> cached content w' = Some (synced st v))"
proof -
  from assms obtain st where st: "w_state w = Some st" "GuestId st \<noteq> []"
    by (cases "w_state w") (auto simp: SyncStateCache_def split: if_splits)
  then have "bindE (Load E c) (\<lambda>v. Save E c (synced st v)) w = (Ret u, w')"
    using assms SyncStateCache_run [of w st E c] by metis
  from jc.read_modify_write [OF this] st show ?thesis by auto
qed

lemma delete_cached:
  assumes "DeleteStateCache E (Some (Some c)) w = (Ret u, w')"
  shows "cached content w' = None \<and> w_state w' = w_state w"
  using assms
  by (auto simp: DeleteStateCache_def Del_def ext_Ret_iff cached_def keyOf_def redisLawsD [OF laws]
      split: option.splits if_splits)

lemmas save_then_load = jc.load_after_save

end

subsection \<open>A store in memory\<close>

text \<open>
  An instance of the outside with a store that never fails, scripted HTTP answers and
  random numbers: it shows that the contract can hold, and runs examples.
\<close>

record Mem =
  mem_store :: "string \<Rightarrow> json option"
  mem_http :: "Request \<Rightarrow> Response res"
  mem_now :: Time
  mem_floats :: "rat list"
  mem_log :: "string list"

definition memExternal :: "Mem External" where
  "memExternal =
     \<lparr>redisSet = (\<lambda>k v x. (Ret (), x\<lparr>mem_store := (mem_store x)(k \<mapsto> v)\<rparr>)),
      redisGet = (\<lambda>k x. (case mem_store x k of None \<Rightarrow> Err (Ext ''redis: nil'') | Some v \<Rightarrow> Ret v, x)),
      redisDel = (\<lambda>k x. (Ret (), x\<lparr>mem_store := (mem_store x)(k := None)\<rparr>)),
      httpDo = (\<lambda>r x. (mem_http x r, x)),
      grpcNow = (\<lambda>x. (Ret (Some \<lparr>seconds = ns (mem_now x) div Second, nanos = ns (mem_now x) mod Second\<rparr>), x)),
      ctxErr = (\<lambda>x. (None, x)),
      randFloat64 = (\<lambda>x. case mem_floats x of [] \<Rightarrow> (0, x) | q # qs \<Rightarrow> (q, x\<lparr>mem_floats := qs\<rparr>)),
      randIntn = (\<lambda>n x. (0, x)),
      fakeName = (\<lambda>x. (''Ann Bell'', x)),
      fakeSSN = (\<lambda>x. (''123456789'', x)),
      fakeAddress = (\<lambda>x. (''1 Main St'', x)),
      uniLower = id,
      uniFold = (=),
      float64 = id\<rparr>"

lemma mem_laws: "redisLaws memExternal mem_store"
  by (auto simp: redisLaws_def memExternal_def split: option.splits list.splits)

interpretation mem: redis_store memExternal mem_store "\<lparr>redis = True\<rparr>"
  by unfold_locales (rule mem_laws)

subsection \<open>Every cache operation returns\<close>

lemma noBlock_EnsureKey [go_returns]: "noBlock EnsureKey"
  by (auto simp: noBlock_def EnsureKey_def thenE_def bindE_def setState_def split: option.splits)

lemma noBlock_cache [go_returns]:
  assumes "responsive E"
  shows "noBlock (Load E c)" "noBlock (Save E c v)" "noBlock (Get E c k)" "noBlock (Del E c k)"
  using assms
  by (auto simp: Load_def Save_def Get_def Del_def CacheSet_def intro!: go_returns)

lemma noBlock_onCache [go_returns]: "(\<And>c. noBlock (f c)) \<Longrightarrow> noBlock (onCache C f)"
  by (simp add: onCache_def go_returns)

end
