(* ===== verification/Flow.thy ===== *)
theory Flow
  imports Cache
begin

text \<open>
  The step machine: \<open>services.PickRandomWeighted\<close>
  (internal/app/services/step_selector_service.go), \<open>runStepGraph\<close>
  (internal/app/flows/flow.go) and the transition tables of the registration, booking and
  payment flows (internal/config/*_flow.go).

  Floating-point arithmetic is exact rational arithmetic followed by a rounding function
  (\<open>float64\<close>, a parameter); what is shown of the choice either holds for every rounding
  or is stated for exact arithmetic. The loop of \<open>runStepGraph\<close> has no bound in the
  code, so it carries fuel; running out of fuel is not returning.
\<close>

subsection \<open>Weighted choice\<close>

record 'a WeightedTuple =
  Value :: 'a
  Weight :: rat

definition weightTotal :: "(rat \<Rightarrow> rat) \<Rightarrow> 'a WeightedTuple list \<Rightarrow> rat" where
  "weightTotal rnd list =
     foldl (\<lambda>total item. if 0 < Weight item then rnd (total + Weight item) else total) 0 list"

fun pickLoop :: "(rat \<Rightarrow> rat) \<Rightarrow> rat \<Rightarrow> 'a WeightedTuple list \<Rightarrow> 'a option" where
  "pickLoop rnd target [] = None"
| "pickLoop rnd target (item # list) =
     (if Weight item \<le> 0 then pickLoop rnd target list
      else let target' = rnd (target - Weight item)
           in if target' \<le> 0 then Some (Value item) else pickLoop rnd target' list)"

text \<open>The choice for a random number \<open>u\<close>; \<open>None\<close> is the index panic on an empty list.\<close>

definition pickWeighted :: "(rat \<Rightarrow> rat) \<Rightarrow> rat \<Rightarrow> 'a WeightedTuple list \<Rightarrow> 'a option" where
  "pickWeighted rnd u list =
     (case pickLoop rnd (rnd (u * weightTotal rnd list)) list of
        Some v \<Rightarrow> Some v
      | None \<Rightarrow> if list = [] then None else Some (Value (last list)))"

definition PickRandomWeighted :: "'x External \<Rightarrow> 'a WeightedTuple list \<Rightarrow> (('x, 'z) World_scheme, 'a) go" where
  "PickRandomWeighted E list = bindE (extV (randFloat64 E)) (\<lambda>u.
     case pickWeighted (float64 E) u list of
       None \<Rightarrow> panic ''index out of range''
     | Some v \<Rightarrow> ret v)"

subsection \<open>runStepGraph\<close>

text \<open>
  \<open>validate\<close> and \<open>execute\<close> are the methods of the steps, \<open>stateMap\<close> the transition
  table (\<open>None\<close>: no entry, or a nil one).
\<close>

fun stepLoop :: "'x External \<Rightarrow> ('s \<Rightarrow> (('x, 'z) World_scheme, unit) go) \<Rightarrow> ('s \<Rightarrow> (('x, 'z) World_scheme, unit) go)
    \<Rightarrow> ('s \<Rightarrow> 's WeightedTuple list option) \<Rightarrow> nat \<Rightarrow> 's \<Rightarrow> (('x, 'z) World_scheme, unit) go" where
  "stepLoop E validate execute stateMap 0 step = block"
| "stepLoop E validate execute stateMap (Suc n) step =
     bindE (extV (ctxErr E)) (\<lambda>cancelled.
       if cancelled \<noteq> None then ret ()
       else thenE (validate step)
           (thenE (execute step)
             (case stateMap step of
                None \<Rightarrow> ret ()
              | Some nextStep \<Rightarrow>
                  bindE (PickRandomWeighted E nextStep) (stepLoop E validate execute stateMap n))))"

definition runStepGraph :: "'x External \<Rightarrow> (('x, 'z) World_scheme, unit) go
    \<Rightarrow> ('s \<Rightarrow> (('x, 'z) World_scheme, unit) go) \<Rightarrow> ('s \<Rightarrow> (('x, 'z) World_scheme, unit) go)
    \<Rightarrow> ('s \<Rightarrow> 's WeightedTuple list option) \<Rightarrow> nat \<Rightarrow> 's \<Rightarrow> (('x, 'z) World_scheme, unit) go" where
  "runStepGraph E zeroStep validate execute stateMap fuel firstStep =
     thenE zeroStep (stepLoop E validate execute stateMap fuel firstStep)"

subsection \<open>The transition tables\<close>

record 's BookingSteps =
  b_Start :: 's
  b_ListCottages :: 's
  b_SelectCottage :: 's
  b_SelectPeriod :: 's
  b_BookCottage :: 's
  b_End :: 's

record 's BookingTransitions =
  ListCottagesTransitions :: "'s WeightedTuple list"
  SelectCottageTransitions :: "'s WeightedTuple list"
  SelectPeriodTransitions :: "'s WeightedTuple list"
  BookCottageTransitions :: "'s WeightedTuple list"

abbreviation tup :: "'s \<Rightarrow> rat \<Rightarrow> 's WeightedTuple" where
  "tup v p \<equiv> \<lparr>Value = v, Weight = p\<rparr>"

definition DefaultBookingFlow :: "'s BookingSteps \<Rightarrow> 's BookingSteps \<times> 's BookingTransitions" where
  "DefaultBookingFlow flow =
     (flow\<lparr>b_Start := b_ListCottages flow\<rparr>,
      \<lparr>ListCottagesTransitions =
         [tup (b_SelectCottage flow) (80/100), tup (b_End flow) (20/100)],
       SelectCottageTransitions =
         [tup (b_SelectPeriod flow) (60/100), tup (b_ListCottages flow) (30/100), tup (b_End flow) (10/100)],
       SelectPeriodTransitions =
         [tup (b_SelectPeriod flow) (30/100), tup (b_SelectCottage flow) (20/100),
          tup (b_ListCottages flow) (5/100), tup (b_BookCottage flow) (40/100), tup (b_End flow) (5/100)],
       BookCottageTransitions = [tup (b_End flow) 1]\<rparr>)"

definition BookingStateMap :: "'s BookingSteps \<times> 's BookingTransitions \<Rightarrow> 's \<Rightarrow> 's WeightedTuple list option" where
  "BookingStateMap f =
     [b_ListCottages (fst f) \<mapsto> ListCottagesTransitions (snd f),
      b_SelectCottage (fst f) \<mapsto> SelectCottageTransitions (snd f),
      b_SelectPeriod (fst f) \<mapsto> SelectPeriodTransitions (snd f),
      b_BookCottage (fst f) \<mapsto> BookCottageTransitions (snd f)]"

record 's GuestRegisterFlowSteps =
  g_Start :: 's
  g_RegisterGuest :: 's
  g_RetrieveGuest :: 's
  g_End :: 's

record 's GuestRegisterTransitions =
  RegisterGuestTransitions :: "'s WeightedTuple list"
  RetrieveGuestTransitions :: "'s WeightedTuple list"

definition DefaultGuestRegisterFlow :: "'s GuestRegisterFlowSteps \<Rightarrow> 's GuestRegisterFlowSteps \<times> 's GuestRegisterTransitions" where
  "DefaultGuestRegisterFlow flow =
     (flow\<lparr>g_Start := g_RegisterGuest flow\<rparr>,
      \<lparr>RegisterGuestTransitions = [tup (g_RetrieveGuest flow) 1],
       RetrieveGuestTransitions = [tup (g_End flow) 1]\<rparr>)"

definition GuestRegisterStateMap :: "'s GuestRegisterFlowSteps \<times> 's GuestRegisterTransitions \<Rightarrow> 's \<Rightarrow> 's WeightedTuple list option" where
  "GuestRegisterStateMap f =
     [g_RegisterGuest (fst f) \<mapsto> RegisterGuestTransitions (snd f),
      g_RetrieveGuest (fst f) \<mapsto> RetrieveGuestTransitions (snd f)]"

record 's PaymentSteps =
  p_Start :: 's
  p_PayInvoice :: 's
  p_End :: 's

record 's PaymentTransitions =
  PayInvoiceTransitions :: "'s WeightedTuple list"

definition DefaultPaymentFlow :: "'s PaymentSteps \<Rightarrow> 's PaymentSteps \<times> 's PaymentTransitions" where
  "DefaultPaymentFlow flow =
     (flow\<lparr>p_Start := p_PayInvoice flow\<rparr>, \<lparr>PayInvoiceTransitions = [tup (p_End flow) 1]\<rparr>)"

definition PaymentStateMap :: "'s PaymentSteps \<times> 's PaymentTransitions \<Rightarrow> 's \<Rightarrow> 's WeightedTuple list option" where
  "PaymentStateMap f = [p_PayInvoice (fst f) \<mapsto> PayInvoiceTransitions (snd f)]"

subsection \<open>Facts about the choice\<close>

lemma pickLoop_in: "pickLoop rnd t list = Some v \<Longrightarrow> \<exists>item \<in> set list. Value item = v \<and> 0 < Weight item"
  by (induction rnd t list rule: pickLoop.induct) (auto simp: Let_def split: if_splits)

lemma pickWeighted_in: "pickWeighted rnd u list = Some v \<Longrightarrow> v \<in> Value ` set list"
  by (auto simp: pickWeighted_def dest: pickLoop_in split: option.splits if_splits)

lemma pickWeighted_None: "pickWeighted rnd u list = None \<longleftrightarrow> list = []"
  by (auto simp: pickWeighted_def split: option.splits)

lemma pickWeighted_single: "pickWeighted rnd u [item] = Some (Value item)"
  by (cases "pickWeighted rnd u [item]") (auto simp: pickWeighted_None dest: pickWeighted_in)

text \<open>The sum of the positive weights, and of those before position \<open>i\<close>.\<close>

definition posSum :: "'a WeightedTuple list \<Rightarrow> rat" where
  "posSum list = sum_list (map (\<lambda>it. max 0 (Weight it)) list)"

lemma posSum_simps [simp]: "posSum [] = 0" "posSum (it # list) = max 0 (Weight it) + posSum list"
  by (simp_all add: posSum_def)

lemma posSum_nonneg: "0 \<le> posSum list"
  by (induction list) (simp_all add: add_nonneg_nonneg)

lemma foldl_posSum:
  "foldl (\<lambda>t it. if 0 < Weight it then t + Weight it else t) a list = a + posSum list"
  by (induction list arbitrary: a) (auto simp: max_def)

lemma weightTotal_exact: "weightTotal id list = posSum list"
  using foldl_posSum [of 0 list] by (simp add: weightTotal_def cong: if_cong)

text \<open>
  The share of the i-th item among the targets: from the positive weights before it, excluded unless
  there are none, to the positive weights up to it.
\<close>

definition inShare :: "rat \<Rightarrow> 'a WeightedTuple list \<Rightarrow> nat \<Rightarrow> bool" where
  "inShare t list i \<longleftrightarrow> i < length list \<and> 0 < Weight (list ! i)
     \<and> (posSum (take i list) < t \<or> posSum (take i list) = 0) \<and> t \<le> posSum (take (Suc i) list)"

lemma inShare_Cons:
  "inShare t (it # list) i \<longleftrightarrow>
     (if 0 < Weight it then (if t \<le> Weight it then i = 0 else \<exists>j. i = Suc j \<and> inShare (t - Weight it) list j)
      else \<exists>j. i = Suc j \<and> inShare t list j)"
proof (cases i)
  case 0
  then show ?thesis by (simp add: inShare_def)
next
  case (Suc j)
  have "0 \<le> posSum (take j list)" by (rule posSum_nonneg)
  then show ?thesis using Suc by (auto simp: inShare_def max_def)
qed

lemma pickLoop_exact: "pickLoop id t list = Some v \<longleftrightarrow> (\<exists>i. inShare t list i \<and> Value (list ! i) = v)"
proof (induction list arbitrary: t)
  case Nil
  then show ?case by (simp add: inShare_def)
next
  case (Cons it list)
  then show ?case by (auto simp: inShare_Cons Let_def id_def)
qed

lemma pickLoop_finds: "0 < posSum list \<Longrightarrow> t \<le> posSum list \<Longrightarrow> pickLoop id t list \<noteq> None"
proof (induction list arbitrary: t)
  case Nil
  then show ?case by simp
next
  case (Cons it list)
  then show ?case by (auto simp: Let_def max_def id_def split: if_splits)
qed

lemma posSum_pos: "0 < posSum list \<longleftrightarrow> (\<exists>it \<in> set list. 0 < Weight it)"
proof (induction list)
  case (Cons it list)
  then show ?case using posSum_nonneg [of list] by (auto simp: max_def add_pos_nonneg)
qed simp

lemma PickRandomWeighted_Ret:
  assumes "PickRandomWeighted E list w = (Ret v, w')"
  shows "v \<in> Value ` set list" and "\<exists>u x. randFloat64 E (w_ext w) = (u, x) \<and> w' = w\<lparr>w_ext := x\<rparr>"
  using assms
  by (auto simp: PickRandomWeighted_def bindE_Ret_iff extV_Ret_iff dest: pickWeighted_in split: option.splits)

lemma PickRandomWeighted_total:
  assumes "list \<noteq> []"
  shows "\<exists>v. PickRandomWeighted E list w = (Ret v, snd (extV (randFloat64 E) w)) \<and> v \<in> Value ` set list"
proof -
  obtain u x where u: "randFloat64 E (w_ext w) = (u, x)" by fastforce
  obtain v where v: "pickWeighted (float64 E) u list = Some v"
    using assms pickWeighted_None [of "float64 E" u list] by (cases "pickWeighted (float64 E) u list") auto
  show ?thesis using v pickWeighted_in [OF v]
    by (simp add: PickRandomWeighted_def bindE_def extV_def u)
qed

subsection \<open>Facts about the loop\<close>

text \<open>A result that is not a blocked run does not depend on the fuel left over.\<close>

lemma bindE_cong_Ret:
  "(\<And>a w'. m w = (Ret a, w') \<Longrightarrow> k a w' = k' a w') \<Longrightarrow> bindE m k w = bindE m k' w"
  by (auto simp: bindE_def split: prod.splits res.splits)

lemma bindE_not_Blocks: "fst (bindE m k w) \<noteq> Blocks \<Longrightarrow> m w = (Ret a, w') \<Longrightarrow> fst (k a w') \<noteq> Blocks"
  by (simp add: bindE_def)

lemma stepLoop_fuel:
  "fst (stepLoop E vl ex sm n s w) \<noteq> Blocks \<Longrightarrow> stepLoop E vl ex sm (n + k) s w = stepLoop E vl ex sm n s w"
proof (induction n arbitrary: s w)
  case 0
  then show ?case by simp
next
  case (Suc n)
  show ?case
    unfolding add_Suc stepLoop.simps thenE_def
    by (intro bindE_cong_Ret)
      (use Suc.prems in \<open>auto simp: thenE_def bindE_not_Blocks Suc.IH intro!: bindE_cong_Ret
        split: option.splits dest!: bindE_not_Blocks\<close>)
qed

text \<open>
  The contract between a flow and its steps: \<open>I s\<close> holds whenever step \<open>s\<close> is entered,
  and each successful step establishes it for every possible successor, or \<open>Q\<close> when
  the flow ends there. Then \<open>Q\<close> holds whenever the flow ends without an error, whatever
  the random choices were.
\<close>

locale step_invariant =
  fixes E :: "'x External"
    and validate execute :: "'s \<Rightarrow> (('x, 'z) World_scheme, unit) go"
    and stateMap :: "'s \<Rightarrow> 's WeightedTuple list option"
    and I :: "'s \<Rightarrow> ('x, 'z) World_scheme \<Rightarrow> bool" and Q :: "('x, 'z) World_scheme \<Rightarrow> bool"
  assumes step_next: "I s w \<Longrightarrow> thenE (validate s) (execute s) w = (Ret u, w') \<Longrightarrow>
      stateMap s = Some nxt \<Longrightarrow> t \<in> Value ` set nxt \<Longrightarrow> I t w'"
    and step_end: "I s w \<Longrightarrow> thenE (validate s) (execute s) w = (Ret u, w') \<Longrightarrow> stateMap s = None \<Longrightarrow> Q w'"
    and ctx_keeps: "I s w \<Longrightarrow> ctxErr E (w_ext w) = (ce, x) \<Longrightarrow> I s (w\<lparr>w_ext := x\<rparr>)"
    and cancelled: "I s w \<Longrightarrow> ctxErr E (w_ext w) = (Some e, x) \<Longrightarrow> Q (w\<lparr>w_ext := x\<rparr>)"
    and rand_keeps: "I s w \<Longrightarrow> randFloat64 E (w_ext w) = (q, x) \<Longrightarrow> I s (w\<lparr>w_ext := x\<rparr>)"
begin

lemma loop_end: "I s w \<Longrightarrow> stepLoop E validate execute stateMap n s w = (Ret u, w') \<Longrightarrow> Q w'"
proof (induction n arbitrary: s w)
  case 0
  then show ?case by simp
next
  case (Suc n)
  then obtain ce x where ce: "ctxErr E (w_ext w) = (ce, x)" by fastforce
  let ?w = "w\<lparr>w_ext := x\<rparr>"
  have I: "I s ?w" using ctx_keeps [OF Suc.prems(1) ce] .
  show ?case
  proof (cases ce)
    case (Some e)
    with ce Suc.prems(2) have "w' = ?w" by (simp add: bindE_def extV_def)
    then show ?thesis using cancelled [OF Suc.prems(1)] ce Some by simp
  next
    case None
    with ce Suc.prems(2) obtain w1 where
      run: "thenE (validate s) (execute s) ?w = (Ret (), w1)"
      and rest: "(case stateMap s of None \<Rightarrow> ret () | Some nxt \<Rightarrow>
        bindE (PickRandomWeighted E nxt) (stepLoop E validate execute stateMap n)) w1 = (Ret u, w')"
      by (auto simp: bindE_def extV_def thenE_Ret_iff)
    show ?thesis
    proof (cases "stateMap s")
      case None
      with rest step_end [OF I run] show ?thesis by simp
    next
      case (Some nxt)
      with rest obtain t w2 where pick: "PickRandomWeighted E nxt w1 = (Ret t, w2)"
        and loop: "stepLoop E validate execute stateMap n t w2 = (Ret u, w')"
        by (auto simp: bindE_Ret_iff)
      from PickRandomWeighted_Ret(1) [OF pick] have "I t w1" by (rule step_next [OF I run Some])
      with PickRandomWeighted_Ret(2) [OF pick] have "I t w2" by (auto intro: rand_keeps)
      then show ?thesis using loop by (rule Suc.IH)
    qed
  qed
qed

end

lemma stepLoop_single:
  assumes "ctxErr E (w_ext w) = (None, x)" and "stateMap s = Some [item]"
    and "thenE (validate s) (execute s) (w\<lparr>w_ext := x\<rparr>) = (Ret (), w1)"
  shows "stepLoop E validate execute stateMap (Suc n) s w =
    stepLoop E validate execute stateMap n (Value item) (snd (extV (randFloat64 E) w1))"
  using assms
  by (auto simp: bindE_def extV_def thenE_def PickRandomWeighted_def pickWeighted_single
      split: prod.splits res.splits)

lemma stepLoop_last:
  assumes "ctxErr E (w_ext w) = (None, x)" and "stateMap s = None"
  shows "stepLoop E validate execute stateMap (Suc n) s w = thenE (validate s) (execute s) (w\<lparr>w_ext := x\<rparr>)"
  using assms
  by (auto simp: bindE_def extV_def thenE_def split: prod.splits res.splits)

lemma stepLoop_stop:
  assumes "ctxErr E (w_ext w) = (None, x)"
    and "thenE (validate s) (execute s) (w\<lparr>w_ext := x\<rparr>) = (r, w1)" and "\<not> (\<exists>a. r = Ret a)"
  shows "stepLoop E validate execute stateMap (Suc n) s w = (r, w1)"
  using assms
  by (auto simp: bindE_def extV_def thenE_def split: prod.splits res.splits)

lemma stepLoop_cancelled:
  assumes "ctxErr E (w_ext w) = (Some e, x)"
  shows "stepLoop E validate execute stateMap (Suc n) s w = (Ret (), w\<lparr>w_ext := x\<rparr>)"
  using assms by (simp add: bindE_def extV_def)

text \<open>
  A flow whose steps return and whose table leads downwards in rank returns: fuel above
  the rank of the first step is enough.
\<close>

lemma noBlock_PickRandomWeighted [go_returns]: "noBlock (PickRandomWeighted E list)"
  by (simp add: PickRandomWeighted_def go_returns)

lemma stepLoop_ranked_returns:
  fixes rank :: "'s \<Rightarrow> nat" and validate execute :: "'s \<Rightarrow> (('x, 'z) World_scheme, unit) go"
  assumes steps: "\<And>s. noBlock (validate s)" "\<And>s. noBlock (execute s)"
    and down: "\<And>s nxt t. stateMap s = Some nxt \<Longrightarrow> t \<in> Value ` set nxt \<Longrightarrow> rank t < rank s"
  shows "rank s < n \<Longrightarrow> noBlock (stepLoop E validate execute stateMap n s)"
proof (induction n arbitrary: s)
  case 0
  then show ?case by simp
next
  case (Suc n)
  have "noBlock (bindE (PickRandomWeighted E nxt) (stepLoop E validate execute stateMap n))"
    if "stateMap s = Some nxt" for nxt
  proof (rule noBlock_bindE_dep [OF noBlock_PickRandomWeighted])
    fix t and w w' :: "('x, 'z) World_scheme"
    assume "PickRandomWeighted E nxt w = (Ret t, w')"
    then have "t \<in> Value ` set nxt" by (rule PickRandomWeighted_Ret(1))
    then have "rank t < rank s" by (rule down [OF that])
    then show "fst (stepLoop E validate execute stateMap n t w') \<noteq> Blocks"
      using Suc by (simp add: noBlock_def)
  qed
  then have "noBlock (case stateMap s of None \<Rightarrow> ret () | Some nextStep \<Rightarrow>
      bindE (PickRandomWeighted E nextStep) (stepLoop E validate execute stateMap n))"
    by (simp add: go_returns split: option.splits)
  then show ?case
    by (simp add: steps noBlock_bindE noBlock_thenE noBlock_if noBlock_basic noBlock_outside)
qed

end
