(* ===== verification/Register.thy ===== *)
theory Register
  imports Flow
begin

text \<open>
  The steps shared by all flows (internal/app/steps/noop.go, end.go) and the registration
  flow: \<open>RegisterGuestStep\<close>, \<open>RetrieveGuestStep\<close>
  (internal/app/steps/register_guest_step) and \<open>NewGuestRegisterFlowWithState\<close>
  (internal/app/flows/guest_register_flow.go). The flow is shown to return after its
  three steps for any random numbers, and on success to leave the guest id of the
  service both in the journey state and in the cache.
\<close>

subsection \<open>Noop and End\<close>

definition noopStep_Validate :: "('w, unit) go" where
  "noopStep_Validate = ret ()"

definition noopStep_Execute :: "('w, unit) go" where
  "noopStep_Execute = ret ()"

definition EndStep_Validate :: "('w, unit) go" where
  "EndStep_Validate = ret ()"

definition EndStep_Execute :: "('w, unit) go" where
  "EndStep_Execute = ret ()"

subsection \<open>RegisterGuestStep\<close>

text \<open>\<open>client\<close>: the HTTP client is set; \<open>C\<close>: the cache, \<open>None\<close> when nil.\<close>

definition RegisterGuestStep_Validate :: "bool \<Rightarrow> Cache option \<Rightarrow> (('x, 'z) World_scheme, unit) go" where
  "RegisterGuestStep_Validate client C =
     (if \<not> client then throw (Errorf ''invalid guest client'')
      else bindE (getW w_state) (\<lambda>state.
        if state = None then throw (Errorf ''invalid state, state is nil'')
        else if C = None then throw (Errorf ''invalid guest journey cache'')
        else ret ()))"

definition registerRequest :: "Guest \<Rightarrow> Request" where
  "registerRequest guest =
     \<lparr>rq_service = GuestManager, rq_method = POST, rq_path = ''/guest'', rq_query = [], rq_body = GuestBody guest\<rparr>"

definition RegisterGuestStep_Execute :: "'x External \<Rightarrow> bool \<Rightarrow> Cache option \<Rightarrow> (('x, 'z) World_scheme, unit) go" where
  "RegisterGuestStep_Execute E client C =
     bindE (onCache C (Load E)) (\<lambda>cacheValue.
       case PersonalInfo cacheValue of
         None \<Rightarrow> throw (Errorf ''invalid cached guest context'')
       | Some guest \<Rightarrow>
           thenE (setState (\<lambda>s. s\<lparr>StGuest := Some guest\<rparr>))
          (bindE (httpCall E client (registerRequest guest)) (\<lambda>resp.
           if IsError resp then throw (Errorf (''error: '' @ rs_error resp))
           else bindE (decodeBody unmarshalGuestId resp) (\<lambda>guestId.
             thenE (setState (\<lambda>s. s\<lparr>GuestId := guestId\<rparr>))
               (onCache C (\<lambda>c. Save E c (cacheValue\<lparr>GuestID := guestId, PersonalInfo := Some guest\<rparr>)))))))"

subsection \<open>RetrieveGuestStep\<close>

definition RetrieveGuestStep_Validate :: "(('x, 'z) World_scheme, unit) go" where
  "RetrieveGuestStep_Validate = bindE deref (\<lambda>state.
     if GuestId state = [] then throw (Errorf ''invalid state, guestId is empty'') else ret ())"

definition retrieveRequest :: "string \<Rightarrow> Request" where
  "retrieveRequest guestId =
     \<lparr>rq_service = GuestManager, rq_method = GET, rq_path = ''/guest/'' @ guestId, rq_query = [], rq_body = NoBody\<rparr>"

definition RetrieveGuestStep_Execute :: "'x External \<Rightarrow> bool \<Rightarrow> (('x, 'z) World_scheme, unit) go" where
  "RetrieveGuestStep_Execute E client = bindE deref (\<lambda>state.
     bindE (httpCall E client (retrieveRequest (GuestId state))) (\<lambda>resp.
       if IsError resp then throw (Errorf (''error: '' @ rs_status resp)) else ret ()))"

subsection \<open>The registration flow\<close>

datatype RegisterStep = RegisterGuest | RetrieveGuest | RegisterEnd

definition registerSteps :: "RegisterStep GuestRegisterFlowSteps" where
  "registerSteps = \<lparr>g_Start = RegisterEnd, g_RegisterGuest = RegisterGuest, g_RetrieveGuest = RetrieveGuest,
     g_End = RegisterEnd\<rparr>"

fun register_Validate :: "bool \<Rightarrow> Cache option \<Rightarrow> RegisterStep \<Rightarrow> (('x, 'z) World_scheme, unit) go" where
  "register_Validate client C RegisterGuest = RegisterGuestStep_Validate client C"
| "register_Validate client C RetrieveGuest = RetrieveGuestStep_Validate"
| "register_Validate client C RegisterEnd = EndStep_Validate"

fun register_Execute :: "'x External \<Rightarrow> bool \<Rightarrow> Cache option \<Rightarrow> RegisterStep \<Rightarrow> (('x, 'z) World_scheme, unit) go" where
  "register_Execute E client C RegisterGuest = RegisterGuestStep_Execute E client C"
| "register_Execute E client C RetrieveGuest = RetrieveGuestStep_Execute E client"
| "register_Execute E client C RegisterEnd = EndStep_Execute"

text \<open>\<open>flow.Start\<close> of \<open>NewGuestRegisterFlowWithState\<close>, whose HTTP client is always set.\<close>

definition GuestRegisterFlow_Start :: "'x External \<Rightarrow> Cache option \<Rightarrow> nat \<Rightarrow> (('x, 'z) World_scheme, unit) go" where
  "GuestRegisterFlow_Start E C fuel =
     (let flowDef = DefaultGuestRegisterFlow registerSteps
      in runStepGraph E noopStep_Execute (register_Validate True C) (register_Execute E True C)
           (GuestRegisterStateMap flowDef) fuel (g_Start (fst flowDef)))"

lemmas register_defs = RegisterGuestStep_Validate_def RegisterGuestStep_Execute_def
  RetrieveGuestStep_Validate_def RetrieveGuestStep_Execute_def EndStep_Validate_def EndStep_Execute_def
  noopStep_Execute_def noopStep_Validate_def

lemma register_map [simp]:
  "GuestRegisterStateMap (DefaultGuestRegisterFlow registerSteps) RegisterGuest = Some [tup RetrieveGuest 1]"
  "GuestRegisterStateMap (DefaultGuestRegisterFlow registerSteps) RetrieveGuest = Some [tup RegisterEnd 1]"
  "GuestRegisterStateMap (DefaultGuestRegisterFlow registerSteps) RegisterEnd = None"
  "g_Start (fst (DefaultGuestRegisterFlow registerSteps)) = RegisterGuest"
  by (simp_all add: GuestRegisterStateMap_def DefaultGuestRegisterFlow_def registerSteps_def)

lemma noBlock_register [go_returns]:
  assumes "responsive E"
  shows "noBlock (register_Validate client C s)" "noBlock (register_Execute E client C s)"
  using assms by (cases s; auto simp: register_defs intro!: go_returns)+

lemma register_flow_returns:
  assumes "responsive E" and "3 \<le> fuel"
  shows "noBlock (GuestRegisterFlow_Start E C fuel)"
proof -
  let ?rank = "\<lambda>s. case s of RegisterGuest \<Rightarrow> 2 | RetrieveGuest \<Rightarrow> 1 | RegisterEnd \<Rightarrow> (0::nat)"
  have "noBlock (stepLoop E (register_Validate True C) (register_Execute E True C)
      (GuestRegisterStateMap (DefaultGuestRegisterFlow registerSteps)) fuel RegisterGuest)"
  proof (rule stepLoop_ranked_returns [where rank = ?rank])
    fix s nxt t
    assume "GuestRegisterStateMap (DefaultGuestRegisterFlow registerSteps) s = Some nxt" "t \<in> Value ` set nxt"
    then show "?rank t < ?rank s" by (cases s) auto
  qed (use assms in \<open>auto intro: noBlock_register\<close>)
  then show ?thesis
    by (simp add: GuestRegisterFlow_Start_def runStepGraph_def noopStep_Execute_def)
qed

subsection \<open>What registration establishes\<close>

text \<open>
  \<open>p\<close> is the guest, the booking and the invoice that the journey has: registration keeps
  them and adds the guest id.
\<close>

type_synonym progress = "Guest \<times> GuestJourneyBooking option \<times> GuestJourneyInvoice option"

definition initialised :: "('x \<Rightarrow> string \<Rightarrow> json option) \<Rightarrow> progress \<Rightarrow> ('x, 'z) World_scheme \<Rightarrow> bool" where
  "initialised content p w \<longleftrightarrow>
     (\<exists>v. cached content w = Some v \<and> cacheable v \<and> PersonalInfo v = Some (fst p) \<and> (Booking v, Invoice v) = snd p)"

text \<open>
  \<open>givenId\<close>: the service answered the POST of the guest with this id; \<open>knownId\<close>: it answered the
  GET of this id without an error.
\<close>

definition givenId :: "'x External \<Rightarrow> Guest \<Rightarrow> string \<Rightarrow> bool" where
  "givenId E guest guestId \<longleftrightarrow> (\<exists>x resp x'. httpDo E (registerRequest guest) x = (Ret resp, x') \<and> \<not> IsError resp
     \<and> Option.bind (rs_body resp) unmarshalGuestId = Some guestId)"

definition knownId :: "'x External \<Rightarrow> string \<Rightarrow> bool" where
  "knownId E guestId \<longleftrightarrow> (\<exists>x resp x'. httpDo E (retrieveRequest guestId) x = (Ret resp, x') \<and> \<not> IsError resp)"

definition registered :: "'x External \<Rightarrow> ('x \<Rightarrow> string \<Rightarrow> json option) \<Rightarrow> progress \<Rightarrow> ('x, 'z) World_scheme \<Rightarrow> bool" where
  "registered E content p w \<longleftrightarrow> (\<exists>st v. givenId E (fst p) (GuestId st) \<and> w_state w = Some st \<and> cached content w = Some v \<and> cacheable v
     \<and> GuestID v = GuestId st \<and> StGuest st = Some (fst p) \<and> PersonalInfo v = Some (fst p)
     \<and> (Booking v, Invoice v) = snd p \<and> RedisKey st \<noteq> [])"

lemma cached_ext [simp]: "content x = content (w_ext w) \<Longrightarrow> cached content (w\<lparr>w_ext := x\<rparr>) = cached content w"
  by (simp add: cached_def split: option.splits)

lemma cached_state:
  "w_state w = Some st \<Longrightarrow> keyOf st' = keyOf st \<Longrightarrow> cached content (w\<lparr>w_state := Some st'\<rparr>) = cached content w"
  by (simp add: cached_def)

lemma RegisterGuestStep_establishes:
  assumes laws: "redisLaws E content"
    and pre: "initialised content p w"
    and run: "RegisterGuestStep_Execute E client (Some c) w = (Ret u, w')"
  shows "registered E content p w'"
proof -
  from run obtain v w1 guest where
    ld: "Load E c w = (Ret v, w1)" and g: "PersonalInfo v = Some guest"
    by (auto simp: RegisterGuestStep_Execute_def onCache_def bindE_Ret_iff [of "Load E c"] split: option.splits)
  obtain st where key: "keyOf st \<noteq> []"
    and st: "w_state w = Some st" "w_state w1 = Some (st\<lparr>RedisKey := keyOf st\<rparr>)"
    using Load_cached(4) [OF laws ld] by blast
  have v: "cacheable v" "guest = fst p" "(Booking v, Invoice v) = snd p"
    using Load_cached(1) [OF laws ld] pre g by (auto simp: initialised_def)
  from run st obtain guestId w2 where
    sv: "Save E c (v\<lparr>GuestID := guestId, PersonalInfo := Some guest\<rparr>) w2 = (Ret u, w')"
    and w2: "w_state w2 = Some (st\<lparr>RedisKey := keyOf st, StGuest := Some guest, GuestId := guestId\<rparr>)"
    and post: "\<exists>resp x. httpDo E (registerRequest guest) (w_ext w1) = (Ret resp, x) \<and> \<not> IsError resp
      \<and> Option.bind (rs_body resp) unmarshalGuestId = Some guestId"
    by (auto simp: RegisterGuestStep_Execute_def onCache_def ld g thenE_Ret_iff bindE_Ret_iff
        setState_Ret_iff httpCall_Ret_iff decodeBody_Ret_iff split: if_splits)
  from post have "givenId E guest guestId" unfolding givenId_def by blast
  then show ?thesis
    using Save_cached [OF laws _ sv] v w2 key
    by (auto simp: registered_def keyOf_def [of "st\<lparr>RedisKey := keyOf st, StGuest := Some guest, GuestId := guestId\<rparr>"])
qed

lemma registered_ext: "content x = content (w_ext w) \<Longrightarrow> registered E content p (w\<lparr>w_ext := x\<rparr>) = registered E content p w"
  by (simp add: registered_def)

text \<open>
  A scenario, not a law of the library: the process has not been told to stop. The context of all
  journeys is the one of \<open>signal.NotifyContext\<close> in \<open>main\<close>; once it is done a flow ends
  with no error (\<open>cancelled_flow_ends\<close>), so what a flow has achieved is stated for runs before that.
\<close>

definition neverCancelled :: "'x External \<Rightarrow> bool" where
  "neverCancelled E \<longleftrightarrow> (\<forall>x. fst (ctxErr E x) = None)"

locale live_store = redis_store +
  assumes live: "neverCancelled E"

definition withGuestId :: "'x External \<Rightarrow> ('x, 'z) World_scheme \<Rightarrow> bool" where
  "withGuestId E w \<longleftrightarrow> (\<exists>st. w_state w = Some st \<and> GuestId st \<noteq> [] \<and> knownId E (GuestId st))"

fun registerEntry :: "'x External \<Rightarrow> ('x \<Rightarrow> string \<Rightarrow> json option) \<Rightarrow> progress \<Rightarrow> RegisterStep \<Rightarrow> ('x, 'z) World_scheme \<Rightarrow> bool" where
  "registerEntry E content p RegisterGuest w = initialised content p w"
| "registerEntry E content p RetrieveGuest w = registered E content p w"
| "registerEntry E content p RegisterEnd w = (registered E content p w \<and> withGuestId E w)"

lemma registerEntry_ext:
  "content x = content (w_ext w) \<Longrightarrow> registerEntry E content p s (w\<lparr>w_ext := x\<rparr>) = registerEntry E content p s w"
  by (cases s) (simp_all add: registered_ext initialised_def withGuestId_def)

lemma RegisterGuestStep_Validate_Ret:
  "RegisterGuestStep_Validate client C w = (Ret u, w') \<Longrightarrow> w' = w"
  by (auto simp: RegisterGuestStep_Validate_def split: if_splits)

lemma RetrieveGuest_run:
  assumes "thenE RetrieveGuestStep_Validate (RetrieveGuestStep_Execute E client) w = (Ret u, w')"
  shows "withGuestId E w \<and> (\<exists>q r x. httpDo E q (w_ext w) = (Ret r, x) \<and> w' = w\<lparr>w_ext := x\<rparr>)"
  using assms
  by (auto simp: RetrieveGuestStep_Validate_def RetrieveGuestStep_Execute_def thenE_Ret_iff bindE_Ret_iff
      deref_Ret_iff httpCall_Ret_iff withGuestId_def knownId_def split: if_splits)

sublocale live_store \<subseteq> reg: step_invariant E "register_Validate True (Some c)" "register_Execute E True (Some c)"
    "GuestRegisterStateMap (DefaultGuestRegisterFlow registerSteps)" "registerEntry E content p"
    "\<lambda>w. registered E content p w \<and> withGuestId E w" for p
proof
  fix s t :: RegisterStep and w w' :: "('a, 'z) World_scheme" and u nxt
  assume entry: "registerEntry E content p s w"
    and run: "thenE (register_Validate True (Some c) s) (register_Execute E True (Some c) s) w = (Ret u, w')"
    and nxt: "GuestRegisterStateMap (DefaultGuestRegisterFlow registerSteps) s = Some nxt" "t \<in> Value ` set nxt"
  show "registerEntry E content p t w'"
  proof (cases s)
    case RegisterGuest
    with run have "RegisterGuestStep_Execute E True (Some c) w = (Ret u, w')"
      by (auto simp: thenE_Ret_iff dest: RegisterGuestStep_Validate_Ret)
    with entry RegisterGuest nxt show ?thesis
      by (auto intro: RegisterGuestStep_establishes [OF laws])
  next
    case RetrieveGuest
    with run have "thenE RetrieveGuestStep_Validate (RetrieveGuestStep_Execute E True) w = (Ret u, w')" by simp
    from RetrieveGuest_run [OF this] entry RetrieveGuest nxt show ?thesis
      by (auto simp: registered_ext withGuestId_def redisLawsD(5) [OF laws])
  qed (use nxt in simp)
next
  fix s :: RegisterStep and w w' :: "('a, 'z) World_scheme" and u
  assume "registerEntry E content p s w"
    and "thenE (register_Validate True (Some c) s) (register_Execute E True (Some c) s) w = (Ret u, w')"
    and "GuestRegisterStateMap (DefaultGuestRegisterFlow registerSteps) s = None"
  then show "registered E content p w' \<and> withGuestId E w'"
    by (cases s) (simp_all add: EndStep_Validate_def EndStep_Execute_def)
next
  fix s :: RegisterStep and w :: "('a, 'z) World_scheme" and e x
  assume "ctxErr E (w_ext w) = (Some e, x)"
  then show "registered E content p (w\<lparr>w_ext := x\<rparr>) \<and> withGuestId E (w\<lparr>w_ext := x\<rparr>)"
    using live unfolding neverCancelled_def by (metis fst_conv option.distinct(1))
qed (simp_all add: registerEntry_ext redisLawsD [OF laws])

context live_store
begin

lemma register_flow_end:
  assumes "initialised content p w" and "GuestRegisterFlow_Start E (Some c) fuel w = (Ret u, w')"
  shows "registered E content p w' \<and> withGuestId E w'"
proof (rule reg.loop_end)
  show "registerEntry E content p RegisterGuest w" using assms(1) by simp
  show "stepLoop E (register_Validate True (Some c)) (register_Execute E True (Some c))
      (GuestRegisterStateMap (DefaultGuestRegisterFlow registerSteps)) fuel RegisterGuest w = (Ret u, w')"
    using assms(2) by (simp add: GuestRegisterFlow_Start_def runStepGraph_def noopStep_Execute_def Let_def)
qed

end

lemma live_storeI: "redisLaws E content \<Longrightarrow> neverCancelled E \<Longrightarrow> live_store E content"
  by (simp add: live_store_def redis_store_def live_store_axioms_def)

end
