(* ===== verification/Selectperiod.thy ===== *)
theory Selectperiod
  imports Register "HOL-Library.Product_Lexorder" "HOL-Library.List_Lexorder" "HOL-Library.Char_ord"
begin

text \<open>
  The search for a stay: \<open>SelectPeriodStep\<close>
  (internal/app/steps/booking_step/select_period.go). The loop over the periods of one
  answer is shown to find the earliest stay that fits, the sort and the removal of
  duplicates to keep the best candidate first, and the whole search to be a function of
  the answers of the cottage service. Because the night counts are tried in ascending
  order and a period that holds a long stay holds a short one, every stay found is of
  the shortest length.
\<close>

subsection \<open>The search in one answer\<close>

definition numberOfNights :: "int list" where
  "numberOfNights = [3, 5, 7, 10, 14]"

definition searchWindows :: "int list" where
  "searchWindows = [3, 5, 7, 10, 14, 21, 30]"

definition maxPeriodAttempts :: nat where
  "maxPeriodAttempts = 5"

definition minSearchLeadDays :: int where
  "minSearchLeadDays = 5"

record stayCandidate =
  cottageName :: string
  period :: Period
  distance :: int
  nights :: int

definition startOfUTCDay :: "Time \<Rightarrow> Time" where
  "startOfUTCDay t = Date (Year (UTC t)) (Month (UTC t)) (Day (UTC t)) 0 0 0 0 0"

text \<open>The start from which stays are searched, and the stay a free period allows.\<close>

definition searchStart :: "Time \<Rightarrow> Time" where
  "searchStart now = AddDate (startOfUTCDay now) 0 0 minSearchLeadDays"

definition candidateStart :: "Time \<Rightarrow> Period \<Rightarrow> Time" where
  "candidateStart now p =
     (let c = startOfUTCDay (Start p) in if Before c (searchStart now) then searchStart now else c)"

fun nearestLoop :: "Time \<Rightarrow> int \<Rightarrow> Period option \<Rightarrow> int \<Rightarrow> Period list \<Rightarrow> Period option" where
  "nearestLoop now n selected selectedDistance [] = selected"
| "nearestLoop now n selected selectedDistance (p # ps) =
     (let cs = candidateStart now p;
          ce = AddDate cs 0 0 n;
          periodEnd = startOfUTCDay (End p)
      in if After ce periodEnd then nearestLoop now n selected selectedDistance ps
         else let dist = Sub cs (searchStart now)
              in if selected = None \<or> dist < selectedDistance
                 then nearestLoop now n (Some \<lparr>Start = cs, End = ce\<rparr>) dist ps
                 else nearestLoop now n selected selectedDistance ps)"

definition pickNearestSuitablePeriod :: "Time \<Rightarrow> Period list \<Rightarrow> int \<Rightarrow> Period option" where
  "pickNearestSuitablePeriod now availablePeriods n = nearestLoop now n None 0 availablePeriods"

text \<open>The inner loop over the night options, left at the first that fits.\<close>

fun firstFit :: "string \<Rightarrow> Time \<Rightarrow> Period list \<Rightarrow> int list \<Rightarrow> stayCandidate option" where
  "firstFit cottage now ps [] = None"
| "firstFit cottage now ps (n # opts) =
     (case pickNearestSuitablePeriod now ps n of
        None \<Rightarrow> firstFit cottage now ps opts
      | Some sel \<Rightarrow> Some \<lparr>cottageName = cottage, period = sel, distance = Sub (Start sel) now, nights = n\<rparr>)"

subsection \<open>Ordering and uniqueness of the candidates\<close>

text \<open>The comparison given to \<open>sort.SliceStable\<close>.\<close>

definition stayLess :: "stayCandidate \<Rightarrow> stayCandidate \<Rightarrow> bool" where
  "stayLess a b =
     (if distance a \<noteq> distance b then distance a < distance b
      else if nights a \<noteq> nights b then nights a < nights b
      else if Start (period a) \<noteq> Start (period b) then Before (Start (period a)) (Start (period b))
      else cottageName a < cottageName b)"

text \<open>A stable sort; for a strict weak order the result of any stable sort is the same.\<close>

fun insertStable :: "('a \<Rightarrow> 'a \<Rightarrow> bool) \<Rightarrow> 'a \<Rightarrow> 'a list \<Rightarrow> 'a list" where
  "insertStable lt x [] = [x]"
| "insertStable lt x (y # ys) = (if lt y x then y # insertStable lt x ys else x # y # ys)"

definition SliceStable :: "('a \<Rightarrow> 'a \<Rightarrow> bool) \<Rightarrow> 'a list \<Rightarrow> 'a list" where
  "SliceStable lt xs = foldr (insertStable lt) xs []"

definition stayKey :: "stayCandidate \<Rightarrow> string" where
  "stayKey c = cottageName c @ ''|'' @ FormatRFC3339 (UTC (Start (period c))) @ ''|''
     @ FormatRFC3339 (UTC (End (period c)))"

fun uniqueLoop :: "string list \<Rightarrow> stayCandidate list \<Rightarrow> stayCandidate list" where
  "uniqueLoop seen [] = []"
| "uniqueLoop seen (c # cs) =
     (if stayKey c \<in> set seen then uniqueLoop seen cs else c # uniqueLoop (stayKey c # seen) cs)"

definition uniqueStayCandidates :: "stayCandidate list \<Rightarrow> stayCandidate list" where
  "uniqueStayCandidates cs = uniqueLoop [] cs"

subsection \<open>The step\<close>

definition availableRequest :: "string \<Rightarrow> Time \<Rightarrow> int \<Rightarrow> Request" where
  "availableRequest cottage now windowDays =
     (let from = AddDate (startOfUTCDay now) 0 0 minSearchLeadDays;
          to = AddDate from 0 0 windowDays
      in \<lparr>rq_service = CottageManager, rq_method = GET,
          rq_path = ''/cottage/'' @ cottage @ ''/available-dates'',
          rq_query = [(''to'', FormatDate to), (''from'', FormatDate from)], rq_body = NoBody\<rparr>)"

definition loadAvailablePeriods :: "'x External \<Rightarrow> bool \<Rightarrow> string \<Rightarrow> Time \<Rightarrow> int \<Rightarrow> (('x, 'z) World_scheme, Period list) go" where
  "loadAvailablePeriods E client cottage now windowDays =
     bindE (httpCall E client (availableRequest cottage now windowDays)) (\<lambda>resp.
       if IsError resp then throw (Errorf (''error: '' @ rs_status resp))
       else bindE (decodeBody unmarshalAvailable resp) (\<lambda>d. ret (ToPeriods d)))"

fun collectWindows :: "'x External \<Rightarrow> bool \<Rightarrow> Time \<Rightarrow> int list \<Rightarrow> string \<Rightarrow> int list \<Rightarrow> stayCandidate list
    \<Rightarrow> (('x, 'z) World_scheme, stayCandidate list) go" where
  "collectWindows E client now nightOptions cottage [] candidates = ret candidates"
| "collectWindows E client now nightOptions cottage (windowDays # windows) candidates =
     bindE (loadAvailablePeriods E client cottage now windowDays) (\<lambda>ps.
       collectWindows E client now nightOptions cottage windows
         (case firstFit cottage now ps nightOptions of None \<Rightarrow> candidates | Some c \<Rightarrow> candidates @ [c]))"

fun collectCottages :: "'x External \<Rightarrow> bool \<Rightarrow> Time \<Rightarrow> int list \<Rightarrow> string list \<Rightarrow> stayCandidate list
    \<Rightarrow> (('x, 'z) World_scheme, stayCandidate list) go" where
  "collectCottages E client now nightOptions [] candidates = ret candidates"
| "collectCottages E client now nightOptions (cottage # cottages) candidates =
     bindE (collectWindows E client now nightOptions cottage searchWindows candidates)
       (collectCottages E client now nightOptions cottages)"

definition collectStayCandidates :: "'x External \<Rightarrow> bool \<Rightarrow> Time \<Rightarrow> int list \<Rightarrow> (('x, 'z) World_scheme, stayCandidate list) go" where
  "collectStayCandidates E client now nightOptions = bindE deref (\<lambda>state.
     bindE (collectCottages E client now nightOptions (cottageList state) []) (\<lambda>candidates.
       if candidates = [] then ret []
       else ret (uniqueStayCandidates (SliceStable stayLess candidates))))"

definition SelectPeriodStep_Validate :: "Cache option \<Rightarrow> (('x, 'z) World_scheme, unit) go" where
  "SelectPeriodStep_Validate C = bindE (getW w_state) (\<lambda>state.
     if state = None then throw (Errorf ''invalid state, state is nil'')
     else if C = None then throw (Errorf ''invalid guest journey cache'')
     else ret ())"

definition SelectPeriodStep_Execute :: "'x External \<Rightarrow> bool \<Rightarrow> Cache option \<Rightarrow> (('x, 'z) World_scheme, unit) go" where
  "SelectPeriodStep_Execute E client C =
     bindE (ext (clockNow E)) (\<lambda>now.
     bindE (onCache C (Load E)) (\<lambda>cacheValue.
       case Booking cacheValue of
         None \<Rightarrow> throw (Errorf ''invalid cached booking context, booking is nil'')
       | Some b \<Rightarrow> bindE deref (\<lambda>state.
           if cottageList state = [] then throw (Errorf ''invalid state, cottageNames is empty'')
           else let nightOptions = sort numberOfNights
                in bindE (collectStayCandidates E client now nightOptions) (\<lambda>candidates.
                   if candidates = [] then throw ErrNoSuitablePeriod
                   else let candidates = (if maxPeriodAttempts < length candidates
                                          then take maxPeriodAttempts candidates else candidates);
                            selected = candidates ! 0
                        in onCache C (\<lambda>c. Save E c (cacheValue\<lparr>Booking := Some
                             (b\<lparr>SelectedCottage := cottageName selected, SelectedPeriod := Some (period selected)\<rparr>)\<rparr>))))))"

subsection \<open>The earliest stay of one answer\<close>

lemma startOfUTCDay_ns [time_simps]: "startOfUTCDay t = \<lparr>ns = ns t div DayNs * DayNs, off = 0\<rparr>"
  by (simp add: startOfUTCDay_def Date_midnight)

lemma searchStart_ns [time_simps]: "searchStart now = \<lparr>ns = (ns now div DayNs + 5) * DayNs, off = 0\<rparr>"
  by (simp add: searchStart_def startOfUTCDay_ns AddDate_days minSearchLeadDays_def distrib_right)

text \<open>A UTC midnight.\<close>

definition midnight :: "Time \<Rightarrow> bool" where
  "midnight t \<longleftrightarrow> off t = 0 \<and> ns t mod DayNs = 0"

lemma midnight_startOfUTCDay: "midnight (startOfUTCDay t)"
  by (simp add: midnight_def startOfUTCDay_ns)

lemma midnight_searchStart: "midnight (searchStart now)"
  by (simp add: midnight_def searchStart_ns)

lemma midnight_AddDate: "midnight t \<Longrightarrow> midnight (AddDate t 0 0 n)"
  by (simp add: midnight_def AddDate_days mod_add_right_eq [symmetric] del: mod_add_right_eq)

lemma candidateStart_props:
  "midnight (candidateStart now p)" "ns (searchStart now) \<le> ns (candidateStart now p)"
  "ns (startOfUTCDay (Start p)) \<le> ns (candidateStart now p)"
  by (auto simp: candidateStart_def Let_def midnight_searchStart midnight_startOfUTCDay Before_def)

text \<open>The stay of \<open>n\<close> nights that a free period allows, and whether it fits.\<close>

definition stayIn :: "Time \<Rightarrow> int \<Rightarrow> Period \<Rightarrow> Period" where
  "stayIn now n p = \<lparr>Start = candidateStart now p, End = AddDate (candidateStart now p) 0 0 n\<rparr>"

definition fits :: "Time \<Rightarrow> int \<Rightarrow> Period \<Rightarrow> bool" where
  "fits now n p \<longleftrightarrow> \<not> After (End (stayIn now n p)) (startOfUTCDay (End p))"

lemma fits_shorter: "fits now m p \<Longrightarrow> n \<le> m \<Longrightarrow> fits now n p"
  by (simp add: fits_def stayIn_def After_def AddDate_days)

lemma nearestLoop_step:
  "nearestLoop now n sel d (p # ps) =
     (if fits now n p \<and> (sel = None \<or> Sub (candidateStart now p) (searchStart now) < d)
      then nearestLoop now n (Some (stayIn now n p)) (Sub (candidateStart now p) (searchStart now)) ps
      else nearestLoop now n sel d ps)"
  by (simp add: fits_def stayIn_def Let_def)

declare nearestLoop.simps(2) [simp del]

lemma nearestLoop_None:
  "nearestLoop now n sel d ps = None \<longleftrightarrow> sel = None \<and> (\<forall>p \<in> set ps. \<not> fits now n p)"
  by (induction ps arbitrary: sel d) (auto simp: nearestLoop_step)

lemma nearestLoop_Some:
  assumes "nearestLoop now n sel d ps = Some r"
    and "\<forall>s. sel = Some s \<longrightarrow> Sub (Start s) (searchStart now) = d"
  shows "sel = Some r \<or> (\<exists>p \<in> set ps. fits now n p \<and> r = stayIn now n p)"
    and "sel \<noteq> None \<longrightarrow> Sub (Start r) (searchStart now) \<le> d"
    and "\<forall>p \<in> set ps. fits now n p \<longrightarrow>
      Sub (Start r) (searchStart now) \<le> Sub (candidateStart now p) (searchStart now)"
  using assms
proof (induction ps arbitrary: sel d)
  case Nil
  { case 1 then show ?case by simp }
  { case 2 then show ?case by auto }
  { case 3 then show ?case by simp }
next
  case (Cons p ps)
  let ?d = "Sub (candidateStart now p) (searchStart now)"
  have new: "\<forall>s. Some (stayIn now n p) = Some s \<longrightarrow> Sub (Start s) (searchStart now) = ?d"
    by (simp add: stayIn_def)
  { case 1
    then show ?case
      using Cons.IH(1) [OF _ new] Cons.IH(1) [of sel d] by (auto simp: nearestLoop_step split: if_splits) }
  { case 2
    then show ?case
      using Cons.IH(2) [OF _ new] Cons.IH(2) [of sel d]
      by (cases sel) (auto simp: nearestLoop_step not_less split: if_splits) }
  { case 3
    then show ?case
      using Cons.IH(2,3) [OF _ new] Cons.IH(2,3) [of sel d]
      by (cases sel) (auto simp: nearestLoop_step not_less split: if_splits) }
qed

lemma pickNearest_None:
  "pickNearestSuitablePeriod now ps n = None \<longleftrightarrow> (\<forall>p \<in> set ps. \<not> fits now n p)"
  by (simp add: pickNearestSuitablePeriod_def nearestLoop_None)

lemma pickNearest_Some:
  assumes "pickNearestSuitablePeriod now ps n = Some r"
  shows "\<exists>p \<in> set ps. fits now n p \<and> r = stayIn now n p"
    and "p \<in> set ps \<Longrightarrow> fits now n p \<Longrightarrow>
      Sub (Start r) (searchStart now) \<le> Sub (candidateStart now p) (searchStart now)"
  using nearestLoop_Some(1,3) [of now n None 0 ps r] assms by (auto simp: pickNearestSuitablePeriod_def)

text \<open>Within the range of a \<open>time.Duration\<close> the shorter distance is the earlier instant.\<close>

lemma Sub_le_earlier:
  assumes "Sub t s \<le> Sub u s" and "ns s \<le> ns u" and "ns u - ns s < maxDuration"
  shows "ns t \<le> ns u"
  using assms by (auto simp: Sub_def maxDuration_def minDuration_def min_def max_def split: if_splits)

text \<open>The shortest option is the one that is taken.\<close>

lemma firstFit_shortest:
  assumes "\<forall>m \<in> set opts. n \<le> m"
  shows "firstFit cottage now ps (n # opts) = map_option (\<lambda>sel.
    \<lparr>cottageName = cottage, period = sel, distance = Sub (Start sel) now, nights = n\<rparr>)
    (pickNearestSuitablePeriod now ps n)"
proof (cases "pickNearestSuitablePeriod now ps n")
  case None
  then have no: "pickNearestSuitablePeriod now ps m = None" if "m \<in> set opts" for m
    using assms that fits_shorter by (fastforce simp: pickNearest_None)
  have "set os \<subseteq> set opts \<Longrightarrow> firstFit cottage now ps os = None" for os
    by (induction os) (auto simp: no)
  with None show ?thesis by simp
qed simp

lemma nights_sorted: "sort numberOfNights = [3, 5, 7, 10, 14]"
  by (simp add: numberOfNights_def)

lemma firstFit_three:
  "firstFit cottage now ps (sort numberOfNights) = map_option (\<lambda>sel.
    \<lparr>cottageName = cottage, period = sel, distance = Sub (Start sel) now, nights = 3\<rparr>)
    (pickNearestSuitablePeriod now ps 3)"
  unfolding nights_sorted by (rule firstFit_shortest) simp

subsection \<open>The best candidate first\<close>

definition stayRank :: "stayCandidate \<Rightarrow> int \<times> int \<times> int \<times> string" where
  "stayRank c = (distance c, nights c, ns (Start (period c)), cottageName c)"

lemma stayLess_rank:
  assumes "off (Start (period a)) = 0" and "off (Start (period b)) = 0"
  shows "stayLess a b \<longleftrightarrow> stayRank a < stayRank b"
  using assms by (auto simp: stayLess_def stayRank_def less_prod_def' Before_def intro: Time_eqI)

lemma insertStable_key:
  "(\<And>y. y \<in> set ys \<Longrightarrow> lt y x \<longleftrightarrow> f y < (f x :: 'k::linorder)) \<Longrightarrow> insertStable lt x ys = insort_key f x ys"
  by (induction ys) auto

lemma SliceStable_key:
  assumes "\<And>x y. x \<in> set xs \<Longrightarrow> y \<in> set xs \<Longrightarrow> lt x y \<longleftrightarrow> f x < (f y :: 'k::linorder)"
  shows "SliceStable lt xs = sort_key f xs"
proof -
  have "set ys \<subseteq> set xs \<Longrightarrow> foldr (insertStable lt) ys [] = sort_key f ys" for ys
  proof (induction ys)
    case (Cons y ys)
    then have "insertStable lt y (sort_key f ys) = insort_key f y (sort_key f ys)"
      by (intro insertStable_key) (auto simp: assms)
    with Cons show ?case by simp
  qed simp
  then show ?thesis by (simp add: SliceStable_def)
qed

lemma SliceStable_stay:
  "\<forall>c \<in> set cs. off (Start (period c)) = 0 \<Longrightarrow> SliceStable stayLess cs = sort_key stayRank cs"
  by (rule SliceStable_key) (auto simp: stayLess_rank)

lemma uniqueLoop_keys:
  "distinct (map stayKey (uniqueLoop seen cs))"
  "stayKey ` set (uniqueLoop seen cs) = stayKey ` set cs - set seen"
  by (induction cs arbitrary: seen) auto

lemma uniqueLoop_subset: "c \<in> set (uniqueLoop seen cs) \<Longrightarrow> c \<in> set cs"
  by (induction cs arbitrary: seen) (auto split: if_splits)

lemma uniqueStayCandidates_head [simp]: "uniqueStayCandidates (c # cs) = c # uniqueLoop [stayKey c] cs"
  by (simp add: uniqueStayCandidates_def)

lemma uniqueStayCandidates_empty [simp]: "uniqueStayCandidates cs = [] \<longleftrightarrow> cs = []"
  by (cases cs) (simp_all add: uniqueStayCandidates_def)

lemma sort_key_least:
  assumes "sort_key f xs = y # ys" and "x \<in> set xs"
  shows "y \<in> set xs \<and> f y \<le> (f x :: 'k::linorder)"
proof -
  have "x \<in> set (y # ys)" "y \<in> set xs" using assms by (metis set_sort list.set_intros(1))+
  moreover have "sorted (map f (y # ys))" using assms(1) by (metis sorted_sort_key)
  ultimately show ?thesis by auto
qed

lemma best_first:
  assumes "\<forall>c \<in> set cs. off (Start (period c)) = 0" and "cs \<noteq> []"
  shows "\<exists>best rest. uniqueStayCandidates (SliceStable stayLess cs) = best # rest \<and> best \<in> set cs
    \<and> (\<forall>c \<in> set cs. stayRank best \<le> stayRank c)"
proof -
  obtain y ys where s: "sort_key stayRank cs = y # ys"
    using assms(2) by (cases "sort_key stayRank cs") (metis set_empty set_sort, blast)
  obtain c0 where "c0 \<in> set cs" using assms(2) by (cases cs) auto
  with s sort_key_least [OF s] show ?thesis by (auto simp: SliceStable_stay [OF assms(1)])
qed

text \<open>Printing whole seconds in UTC loses nothing.\<close>

lemma FormatRFC3339_json: "Nanosecond t = 0 \<Longrightarrow> jsonTime t \<Longrightarrow> timeUnmarshal (FormatRFC3339 t) = Some t"
  using timeUnmarshal_print [of t] by (simp add: FormatRFC3339_def FormatNano_def)

lemma length_FormatRFC3339:
  assumes "jsonTime t" and "off t = 0"
  shows "length (FormatRFC3339 t) = 20"
proof -
  note b = Month_Day_bounds [of t] clock_bounds [of t]
  show ?thesis using assms b
    by (simp add: FormatRFC3339_def FormatDate_def FormatClock_def FormatZone_def padInt_fixed jsonTime_def)
qed

lemma midnight_Nanosecond: "midnight t \<Longrightarrow> Nanosecond t = 0"
proof -
  assume m: "midnight t"
  then have "DayNs dvd ns t" by (auto simp: midnight_def)
  then have "Second dvd ns t" by (rule dvd_trans [rotated]) simp
  moreover have "clockNs t = 0" using m by (simp add: midnight_def clockNs_def localNs_def)
  ultimately show ?thesis by (simp add: Nanosecond_def)
qed

definition printable :: "Time \<Rightarrow> bool" where
  "printable t \<longleftrightarrow> midnight t \<and> 0 \<le> Year t \<and> Year t \<le> 9999"

lemma printable_json: "printable t \<Longrightarrow> jsonTime t \<and> UTC t = t \<and> Nanosecond t = 0 \<and> off t = 0"
  by (auto simp: printable_def jsonTime_def midnight_Nanosecond) (auto simp: midnight_def UTC_def)

lemma FormatRFC3339_inject:
  "printable t \<Longrightarrow> printable u \<Longrightarrow> FormatRFC3339 t = FormatRFC3339 u \<longleftrightarrow> t = u"
  by (metis FormatRFC3339_json option.inject printable_json)

lemma stayKey_inject:
  assumes "printable (Start (period a))" "printable (End (period a))"
    and "printable (Start (period b))" "printable (End (period b))"
  shows "stayKey a = stayKey b \<longleftrightarrow> cottageName a = cottageName b \<and> period a = period b"
proof -
  note u = assms [THEN printable_json]
  have l: "length (FormatRFC3339 (Start (period a))) = 20" "length (FormatRFC3339 (Start (period b))) = 20"
    "length (FormatRFC3339 (End (period a))) = 20" "length (FormatRFC3339 (End (period b))) = 20"
    using u by (simp_all add: length_FormatRFC3339)
  have "stayKey a = stayKey b \<longleftrightarrow> cottageName a = cottageName b
      \<and> FormatRFC3339 (Start (period a)) = FormatRFC3339 (Start (period b))
      \<and> FormatRFC3339 (End (period a)) = FormatRFC3339 (End (period b))"
    using l u by (auto simp: stayKey_def)
  then show ?thesis
    using assms by (auto simp: FormatRFC3339_inject intro: Period.equality)
qed

subsection \<open>The search as a function of the answers\<close>

text \<open>
  \<open>offered E now cands\<close>: every candidate comes from an answer of the cottage service to a
  request of the search, and is the stay the search picks in that answer.
\<close>

definition offeredBy :: "'x External \<Rightarrow> Time \<Rightarrow> int list \<Rightarrow> string list \<Rightarrow> stayCandidate \<Rightarrow> bool" where
  "offeredBy E now opts cottages c \<longleftrightarrow>
     (\<exists>windowDays \<in> set searchWindows. \<exists>x x' resp d.
        cottageName c \<in> set cottages
      \<and> httpDo E (availableRequest (cottageName c) now windowDays) x = (Ret resp, x') \<and> \<not> IsError resp
      \<and> Option.bind (rs_body resp) unmarshalAvailable = Some d
      \<and> firstFit (cottageName c) now (ToPeriods d) opts = Some c)"

lemma offeredByI:
  assumes "windowDays \<in> set searchWindows" and "cottageName c \<in> set cottages"
    and "httpDo E (availableRequest (cottageName c) now windowDays) x = (Ret resp, x')" and "\<not> IsError resp"
    and "Option.bind (rs_body resp) unmarshalAvailable = Some d"
    and "firstFit (cottageName c) now (ToPeriods d) opts = Some c"
  shows "offeredBy E now opts cottages c"
  unfolding offeredBy_def using assms by blast

lemma firstFit_cottage: "firstFit cottage now ps opts = Some c \<Longrightarrow> cottageName c = cottage"
  by (induction cottage now ps opts rule: firstFit.induct) (auto split: option.splits)

lemma loadAvailablePeriods_Ret:
  assumes "loadAvailablePeriods E client cottage now windowDays w = (Ret ps, w')"
  shows "\<exists>resp x' d. httpDo E (availableRequest cottage now windowDays) (w_ext w) = (Ret resp, x') \<and> \<not> IsError resp
    \<and> Option.bind (rs_body resp) unmarshalAvailable = Some d \<and> ps = ToPeriods d \<and> w' = w\<lparr>w_ext := x'\<rparr>"
  using assms
  by (auto simp: loadAvailablePeriods_def bindE_Ret_iff httpCall_Ret_iff decodeBody_Ret_iff split: if_splits)

lemma collectWindows_offered:
  assumes "collectWindows E client now opts cottage windows acc w = (Ret cs, w')"
    and "\<forall>c \<in> set acc. offeredBy E now opts cottages c"
    and "cottage \<in> set cottages" and "set windows \<subseteq> set searchWindows"
  shows "(\<forall>c \<in> set cs. offeredBy E now opts cottages c) \<and> w_state w' = w_state w"
  using assms
proof (induction windows arbitrary: acc w)
  case (Cons d ws)
  from Cons.prems(1) obtain ps w1 where
    ld: "loadAvailablePeriods E client cottage now d w = (Ret ps, w1)"
    and rest: "collectWindows E client now opts cottage ws
      (case firstFit cottage now ps opts of None \<Rightarrow> acc | Some c \<Rightarrow> acc @ [c]) w1 = (Ret cs, w')"
    by (auto simp: bindE_Ret_iff)
  have "offeredBy E now opts cottages c" if "firstFit cottage now ps opts = Some c" for c
    using loadAvailablePeriods_Ret [OF ld] that Cons.prems(3,4) firstFit_cottage [OF that]
    by (auto intro!: offeredByI [of d])
  then have "\<forall>c \<in> set (case firstFit cottage now ps opts of None \<Rightarrow> acc | Some c \<Rightarrow> acc @ [c]).
      offeredBy E now opts cottages c"
    using Cons.prems(2) by (auto split: option.splits)
  from Cons.IH [OF rest this] Cons.prems(3,4) loadAvailablePeriods_Ret [OF ld] show ?case by auto
qed auto

lemma collectCottages_offered:
  assumes "collectCottages E client now opts cottages acc w = (Ret cs, w')"
    and "\<forall>c \<in> set acc. offeredBy E now opts all c" and "set cottages \<subseteq> set all"
  shows "(\<forall>c \<in> set cs. offeredBy E now opts all c) \<and> w_state w' = w_state w"
  using assms
proof (induction cottages arbitrary: acc w)
  case (Cons ct cts)
  from Cons.prems(1) obtain acc' w1 where
    cw: "collectWindows E client now opts ct searchWindows acc w = (Ret acc', w1)"
    and rest: "collectCottages E client now opts cts acc' w1 = (Ret cs, w')"
    by (auto simp: bindE_Ret_iff)
  from collectWindows_offered [OF cw Cons.prems(2)] Cons.prems(3)
  have "\<forall>c \<in> set acc'. offeredBy E now opts all c" "w_state w1 = w_state w" by auto
  with Cons.IH [OF rest] Cons.prems(3) show ?case by auto
qed auto

text \<open>What a candidate of the search is: three nights from a UTC midnight on, inside a free period.\<close>

definition goodStay :: "Time \<Rightarrow> Period \<Rightarrow> bool" where
  "goodStay now p \<longleftrightarrow> midnight (Start p) \<and> End p = AddDate (Start p) 0 0 3
     \<and> ns (searchStart now) \<le> ns (Start p)"

lemma offeredBy_goodStay:
  assumes "offeredBy E now (sort numberOfNights) cottages c"
  shows "goodStay now (period c) \<and> nights c = 3 \<and> distance c = Sub (Start (period c)) now
    \<and> cottageName c \<in> set cottages"
proof -
  from assms obtain d sel where "pickNearestSuitablePeriod now (ToPeriods d) 3 = Some sel"
    and c: "c = \<lparr>cottageName = cottageName c, period = sel, distance = Sub (Start sel) now, nights = 3\<rparr>"
    and "cottageName c \<in> set cottages"
    unfolding offeredBy_def firstFit_three by fastforce
  moreover from this(1) have "goodStay now sel"
    by (auto simp: goodStay_def stayIn_def candidateStart_props dest!: pickNearest_Some(1))
  moreover have "period c = sel" "nights c = 3" "distance c = Sub (Start sel) now" by (subst c, simp)+
  ultimately show ?thesis by simp
qed

lemma collectStayCandidates_spec:
  assumes run: "collectStayCandidates E client now (sort numberOfNights) w = (Ret cs, w')"
    and st: "w_state w = Some st"
  shows "w_state w' = w_state w"
    and "\<forall>c \<in> set cs. offeredBy E now (sort numberOfNights) (cottageList st) c"
    and "distinct (map stayKey cs)"
proof -
  from run st obtain all where
    cc: "collectCottages E client now (sort numberOfNights) (cottageList st) [] w = (Ret all, w')"
    and cs: "cs = uniqueStayCandidates (SliceStable stayLess all)"
    by (auto simp: collectStayCandidates_def bindE_Ret_iff deref_Ret_iff uniqueStayCandidates_def
        SliceStable_def split: if_splits)
  note off = collectCottages_offered [OF cc, of "cottageList st", simplified]
  show "w_state w' = w_state w" using off by blast
  have "SliceStable stayLess all = sort_key stayRank all"
    by (rule SliceStable_stay) (use off in \<open>auto dest!: bspec offeredBy_goodStay simp: goodStay_def midnight_def\<close>)
  then have "set cs \<subseteq> set all"
    by (auto simp: cs uniqueStayCandidates_def dest: uniqueLoop_subset)
  then show "\<forall>c \<in> set cs. offeredBy E now (sort numberOfNights) (cottageList st) c" using off by blast
  show "distinct (map stayKey cs)" by (simp add: cs uniqueStayCandidates_def uniqueLoop_keys(1))
qed

text \<open>
  A cottage service whose answers do not change during the search: \<open>free\<close> is what it
  answers for a cottage and a window. \<open>stays\<close> are the nearest stays, at most one for each cottage and
  window: the first number of nights that fits, in the first free period it fits into.
\<close>

definition availability :: "'x External \<Rightarrow> Time \<Rightarrow> (string \<Rightarrow> int \<Rightarrow> Period list) \<Rightarrow> bool" where
  "availability E now free \<longleftrightarrow> (\<forall>ct d x. \<exists>resp dto x'. httpDo E (availableRequest ct now d) x = (Ret resp, x')
     \<and> \<not> IsError resp \<and> Option.bind (rs_body resp) unmarshalAvailable = Some dto \<and> free ct d = ToPeriods dto)"

definition stays :: "(string \<Rightarrow> int \<Rightarrow> Period list) \<Rightarrow> Time \<Rightarrow> int list \<Rightarrow> string list \<Rightarrow> stayCandidate list" where
  "stays free now opts cottages =
     concat (map (\<lambda>ct. List.map_filter (\<lambda>d. firstFit ct now (free ct d) opts) searchWindows) cottages)"

lemma loadAvailablePeriods_free:
  assumes "availability E now free"
  shows "\<exists>x'. loadAvailablePeriods E True ct now d w = (Ret (free ct d), w\<lparr>w_ext := x'\<rparr>)"
proof -
  from assms obtain resp dto x' where "httpDo E (availableRequest ct now d) (w_ext w) = (Ret resp, x')"
     "\<not> IsError resp" "Option.bind (rs_body resp) unmarshalAvailable = Some dto" "free ct d = ToPeriods dto"
    unfolding availability_def by meson
  then show ?thesis
    by (intro exI [of _ x']) (simp add: loadAvailablePeriods_def httpCall_def ext_def bindE_def decodeBody_def)
qed

lemma collectWindows_stays:
  assumes "availability E now free"
  shows "\<exists>x'. collectWindows E True now opts ct windows acc w =
    (Ret (acc @ List.map_filter (\<lambda>d. firstFit ct now (free ct d) opts) windows), w\<lparr>w_ext := x'\<rparr>)"
proof (induction windows arbitrary: acc w)
  case Nil
  show ?case by (rule exI [of _ "w_ext w"]) (simp add: map_filter_simps)
next
  case (Cons d ds)
  obtain x1 where "loadAvailablePeriods E True ct now d w = (Ret (free ct d), w\<lparr>w_ext := x1\<rparr>)"
    using loadAvailablePeriods_free [OF assms] by blast
  then show ?case
    using Cons.IH [of "acc @ [the (firstFit ct now (free ct d) opts)]" "w\<lparr>w_ext := x1\<rparr>"]
      Cons.IH [of acc "w\<lparr>w_ext := x1\<rparr>"]
    by (cases "firstFit ct now (free ct d) opts") (auto simp: bindE_def map_filter_simps)
qed

lemma collectCottages_stays:
  assumes "availability E now free"
  shows "\<exists>x'. collectCottages E True now opts cottages acc w =
    (Ret (acc @ stays free now opts cottages), w\<lparr>w_ext := x'\<rparr>)"
proof (induction cottages arbitrary: acc w)
  case Nil
  show ?case by (rule exI [of _ "w_ext w"]) (simp add: stays_def)
next
  case (Cons ct cts)
  obtain x1 where "collectWindows E True now opts ct searchWindows acc w =
      (Ret (acc @ List.map_filter (\<lambda>d. firstFit ct now (free ct d) opts) searchWindows), w\<lparr>w_ext := x1\<rparr>)"
    using collectWindows_stays [OF assms] by blast
  then show ?case
    using Cons.IH [of "acc @ List.map_filter (\<lambda>d. firstFit ct now (free ct d) opts) searchWindows" "w\<lparr>w_ext := x1\<rparr>"]
    by (auto simp: bindE_def stays_def)
qed

lemma collectStayCandidates_stays:
  assumes "availability E now free" and "w_state w = Some st"
  shows "\<exists>x'. collectStayCandidates E True now opts w =
    (Ret (uniqueStayCandidates (SliceStable stayLess (stays free now opts (cottageList st)))), w\<lparr>w_ext := x'\<rparr>)"
proof -
  obtain x' where "collectCottages E True now opts (cottageList st) [] w =
      (Ret (stays free now opts (cottageList st)), w\<lparr>w_ext := x'\<rparr>)"
    using collectCottages_stays [OF assms(1), of opts "cottageList st" "[]" w] by auto
  then show ?thesis
    by (auto simp: collectStayCandidates_def deref_def assms(2) bindE_def uniqueStayCandidates_def SliceStable_def)
qed

lemma set_map_filter: "set (List.map_filter f xs) = {y. \<exists>x \<in> set xs. f x = Some y}"
  by (auto simp: List.map_filter_def image_iff) force

lemma map_filter_Nil: "List.map_filter f xs = [] \<longleftrightarrow> (\<forall>x \<in> set xs. f x = None)"
  by (induction xs) (auto simp: map_filter_simps split: option.splits)

lemma stays_iff:
  "c \<in> set (stays free now (sort numberOfNights) cottages) \<longleftrightarrow>
     (\<exists>ct \<in> set cottages. \<exists>d \<in> set searchWindows. \<exists>sel. pickNearestSuitablePeriod now (free ct d) 3 = Some sel
        \<and> c = \<lparr>cottageName = ct, period = sel, distance = Sub (Start sel) now, nights = 3\<rparr>)"
  by (auto simp: stays_def set_map_filter firstFit_three)

lemma stays_midnight:
  "c \<in> set (stays free now (sort numberOfNights) cottages) \<Longrightarrow> goodStay now (period c)"
  by (auto simp: stays_iff goodStay_def stayIn_def candidateStart_props dest!: pickNearest_Some(1))

lemma stays_empty:
  "stays free now (sort numberOfNights) cottages = [] \<longleftrightarrow>
     (\<forall>ct \<in> set cottages. \<forall>d \<in> set searchWindows. \<forall>p \<in> set (free ct d). \<not> fits now 3 p)"
proof -
  have "stays free now (sort numberOfNights) cottages = [] \<longleftrightarrow>
      (\<forall>ct \<in> set cottages. \<forall>d \<in> set searchWindows. pickNearestSuitablePeriod now (free ct d) 3 = None)"
    by (simp add: stays_def firstFit_three map_filter_Nil)
  then show ?thesis by (simp add: pickNearest_None)
qed

subsection \<open>What the step establishes\<close>

lemma timeMarshal_json: "timeMarshal t \<noteq> None \<Longrightarrow> off t = 0 \<Longrightarrow> jsonTime t"
  by (auto simp: timeMarshal_def jsonTime_def split: if_splits)

lemma marshalCache_cacheable:
  assumes "marshalCache v \<noteq> None" and "Booking v = Some b"
    and "SelectedPeriod b = Some p" and "off (Start p) = 0" and "off (End p) = 0"
  shows "cacheable v"
proof -
  from assms(1-3) have "timeMarshal (Start p) \<noteq> None" "timeMarshal (End p) \<noteq> None"
    by (auto simp: marshalCache_def marshalBooking_def marshalPeriod_def Let_def split: option.splits bind_splits)
  with assms show ?thesis by (simp add: cacheable_def timeMarshal_json)
qed

lemma Save_marshals: "Save E c v w = (Ret u, w') \<Longrightarrow> marshalCache v \<noteq> None"
  by (auto simp: Save_def bindE_Ret_iff split: if_splits option.splits)

lemma goodStay_UTC: "goodStay now p \<Longrightarrow> off (Start p) = 0 \<and> off (End p) = 0"
  by (simp add: goodStay_def midnight_def AddDate_days)

definition chosen :: "stayCandidate \<Rightarrow> GuestJourneyBooking \<Rightarrow> GuestJourneyBooking" where
  "chosen c b = b\<lparr>SelectedCottage := cottageName c, SelectedPeriod := Some (period c)\<rparr>"

lemma chosen_simps [simp]:
  "SelectedCottage (chosen c b) = cottageName c" "SelectedPeriod (chosen c b) = Some (period c)"
  "BookingID (chosen c b) = BookingID b"
  by (simp_all add: chosen_def)

lemma SelectPeriodStep_establishes:
  assumes laws: "redisLaws E content"
    and run: "SelectPeriodStep_Execute E client (Some c) w = (Ret u, w')"
  shows "\<exists>now st v b best. w_state w = Some st \<and> cached content w = Some v \<and> Booking v = Some b
    \<and> fst (clockNow E (w_ext w)) = Ret now
    \<and> offeredBy E now (sort numberOfNights) (cottageList st) best
    \<and> cached content w' = Some (v\<lparr>Booking := Some (chosen best b)\<rparr>)
    \<and> cacheable (v\<lparr>Booking := Some (chosen best b)\<rparr>)
    \<and> w_state w' = Some (st\<lparr>RedisKey := keyOf st\<rparr>)"
proof -
  from run obtain now x1 v w2 b where
    now: "clockNow E (w_ext w) = (Ret now, x1)"
    and ld: "Load E c (w\<lparr>w_ext := x1\<rparr>) = (Ret v, w2)" and b: "Booking v = Some b"
    by (auto simp: SelectPeriodStep_Execute_def onCache_def bindE_Ret_iff [of "ext (clockNow E)"]
        bindE_Ret_iff [of "Load E c"] ext_Ret_iff split: option.splits)
  obtain st where st: "w_state w = Some st" and key: "keyOf st \<noteq> []"
    and st2: "w_state w2 = Some (st\<lparr>RedisKey := keyOf st\<rparr>)"
    using Load_cached(4) [OF laws ld] by auto
  have cw: "cached content w = Some v"
    using Load_cached(1) [OF laws ld] redisLawsD(6) [OF laws now] by simp
  let ?st = "st\<lparr>RedisKey := keyOf st\<rparr>"
  from run obtain cs w3 where
    search: "collectStayCandidates E client now (sort numberOfNights) w2 = (Ret cs, w3)" and cs: "cs \<noteq> []"
    and sv: "Save E c (v\<lparr>Booking := Some (chosen (hd cs) b)\<rparr>) w3 = (Ret u, w')"
    by (auto simp: SelectPeriodStep_Execute_def onCache_def bindE_def ext_def now ld b deref_def st2 chosen_def
        hd_conv_nth maxPeriodAttempts_def Let_def
        split: if_splits prod.splits res.splits)
  have off: "offeredBy E now (sort numberOfNights) (cottageList st) (hd cs)"
    and w3: "w_state w3 = Some ?st"
    using collectStayCandidates_spec(1,2) [OF search st2] cs st2 by (auto simp: cottageList_def)
  have good: "goodStay now (period (hd cs))" using offeredBy_goodStay [OF off] by blast
  have ok: "cacheable (v\<lparr>Booking := Some (chosen (hd cs) b)\<rparr>)"
    by (rule marshalCache_cacheable [OF Save_marshals [OF sv]]) (use goodStay_UTC [OF good] in auto)
  show ?thesis
    using Save_cached [OF laws ok sv] st cw b now off ok w3 key by (auto simp: keyOf_def)
qed

end
