(* ===== verification/Bookingsteps.thy ===== *)
theory Bookingsteps
  imports Selectperiod
begin

text \<open>
  The other steps of the booking flow, \<open>ListCottagesStep\<close>, \<open>SelectCottageStep\<close> and
  \<open>BookCottageStep\<close> (internal/app/steps/booking_step), and \<open>NewBookingFlow\<close>
  (internal/app/flows/booking_flow.go). The flow wanders between the first three steps at
  random; the invariant of the flow is that a booking is only ever made for a cottage and
  a period that one search found together.
\<close>

subsection \<open>ListCottagesStep\<close>

definition ListCottagesStep_Validate :: "(('x, 'z) World_scheme, unit) go" where
  "ListCottagesStep_Validate = bindE (getW w_state) (\<lambda>state.
     if state = None then throw (Errorf ''invalid state, state is nil'') else ret ())"

definition cottagesRequest :: Request where
  "cottagesRequest =
     \<lparr>rq_service = CottageManager, rq_method = GET, rq_path = ''/cottages'', rq_query = [], rq_body = NoBody\<rparr>"

definition ListCottagesStep_Execute :: "'x External \<Rightarrow> bool \<Rightarrow> (('x, 'z) World_scheme, unit) go" where
  "ListCottagesStep_Execute E client =
     bindE (httpCall E client cottagesRequest) (\<lambda>resp.
       if IsError resp then throw (Errorf (''error: '' @ rs_status resp))
       else bindE (decodeBody unmarshalCottages resp) (\<lambda>cottages.
         setState (\<lambda>s. s\<lparr>CottageNames := Some (map ct_Name cottages)\<rparr>)))"

subsection \<open>SelectCottageStep\<close>

definition SelectCottageStep_Validate :: "Cache option \<Rightarrow> (('x, 'z) World_scheme, unit) go" where
  "SelectCottageStep_Validate C = bindE (getW w_state) (\<lambda>state. case state of
      None \<Rightarrow> throw (Errorf ''invalid state, state is nil'')
    | Some s \<Rightarrow>
        if C = None then throw (Errorf ''invalid guest journey cache'')
        else if CottageNames s = Some [] then throw (Errorf ''invalid state, cottageNames is empty'')
        else ret ())"

text \<open>\<open>rand.Intn(n)\<close> panics when \<open>n\<close> is not positive.\<close>

definition Intn :: "'x External \<Rightarrow> nat \<Rightarrow> (('x, 'z) World_scheme, nat) go" where
  "Intn E n = (if n = 0 then panic ''invalid argument to Intn'' else extV (randIntn E n))"

definition SelectCottageStep_Execute :: "'x External \<Rightarrow> Cache option \<Rightarrow> (('x, 'z) World_scheme, unit) go" where
  "SelectCottageStep_Execute E C = bindE deref (\<lambda>state.
     bindE (Intn E (length (cottageList state))) (\<lambda>i.
       if length (cottageList state) \<le> i then panic ''index out of range''
       else let selectedCottage = cottageList state ! i
            in bindE (onCache C (Load E)) (\<lambda>cacheValue.
                 let b = (case Booking cacheValue of None \<Rightarrow> zeroBooking | Some b \<Rightarrow> b)
                 in onCache C (\<lambda>c. Save E c
                      (cacheValue\<lparr>Booking := Some (b\<lparr>SelectedCottage := selectedCottage\<rparr>)\<rparr>)))))"

subsection \<open>BookCottageStep\<close>

definition BookCottageStep_Validate :: "Cache option \<Rightarrow> (('x, 'z) World_scheme, unit) go" where
  "BookCottageStep_Validate C = bindE (getW w_state) (\<lambda>state. case state of
      None \<Rightarrow> throw (Errorf ''invalid state, state is nil'')
    | Some s \<Rightarrow>
        if C = None then throw (Errorf ''invalid guest journey cache'')
        else if GuestId s = [] then throw (Errorf ''invalid state, guestId is empty'')
        else ret ())"

definition bookingRequest :: "State \<Rightarrow> Guest \<Rightarrow> string \<Rightarrow> Period \<Rightarrow> Request" where
  "bookingRequest state guest cottage p =
     \<lparr>rq_service = CottageManager, rq_method = POST, rq_path = ''/cottage/'' @ cottage @ ''/booking'', rq_query = [],
      rq_body = BookingBody
        \<lparr>br_GuestId = GuestId state, br_NumberOfGuests = 1,
         br_CheckInDate = FormatDate (Start p), br_CheckOutDate = FormatDate (End p),
         br_GuestName = GivenNames guest @ '' '' @ Surname guest, br_GuestEmail = Email guest,
         br_GuestDocument = DocumentId guest, br_BillingAddress = BillingAddress guest\<rparr>\<rparr>"

definition BookCottageStep_Execute :: "'x External \<Rightarrow> bool \<Rightarrow> Cache option \<Rightarrow> (('x, 'z) World_scheme, unit) go" where
  "BookCottageStep_Execute E client C =
     bindE (onCache C (Load E)) (\<lambda>cacheValue.
       case PersonalInfo cacheValue of
         None \<Rightarrow> throw (Errorf ''invalid cached guest context'')
       | Some guest \<Rightarrow>
      (case Booking cacheValue of
         None \<Rightarrow> throw (Errorf ''invalid cached booking context'')
       | Some b \<Rightarrow>
           if SelectedCottage b = [] then throw (Errorf ''invalid cached booking context'')
           else case SelectedPeriod b of
             None \<Rightarrow> throw (Errorf ''invalid cached booking context'')
           | Some p \<Rightarrow>
               if BookingID b \<noteq> []
               then throw (Errorf (''booking already created for this journey: '' @ BookingID b))
               else bindE deref (\<lambda>state.
                    bindE (httpCall E client (bookingRequest state guest (SelectedCottage b) p)) (\<lambda>resp.
                      if IsError resp then throw (Errorf (''error: '' @ rs_status resp))
                      else bindE (decodeBody unmarshalConfirmation resp) (\<lambda>bookingId.
                        onCache C (\<lambda>c. Save E c (cacheValue\<lparr>Booking := Some (b\<lparr>BookingID := bookingId\<rparr>)\<rparr>)))))))"

subsection \<open>The booking flow\<close>

datatype BookingStep = ListCottages | SelectCottage | SelectPeriod | BookCottage | BookingEnd

definition bookingSteps :: "BookingStep BookingSteps" where
  "bookingSteps = \<lparr>b_Start = BookingEnd, b_ListCottages = ListCottages, b_SelectCottage = SelectCottage,
     b_SelectPeriod = SelectPeriod, b_BookCottage = BookCottage, b_End = BookingEnd\<rparr>"

fun booking_Validate :: "Cache option \<Rightarrow> BookingStep \<Rightarrow> (('x, 'z) World_scheme, unit) go" where
  "booking_Validate C ListCottages = ListCottagesStep_Validate"
| "booking_Validate C SelectCottage = SelectCottageStep_Validate C"
| "booking_Validate C SelectPeriod = SelectPeriodStep_Validate C"
| "booking_Validate C BookCottage = BookCottageStep_Validate C"
| "booking_Validate C BookingEnd = EndStep_Validate"

fun booking_Execute :: "'x External \<Rightarrow> Cache option \<Rightarrow> BookingStep \<Rightarrow> (('x, 'z) World_scheme, unit) go" where
  "booking_Execute E C ListCottages = ListCottagesStep_Execute E True"
| "booking_Execute E C SelectCottage = SelectCottageStep_Execute E C"
| "booking_Execute E C SelectPeriod = SelectPeriodStep_Execute E True C"
| "booking_Execute E C BookCottage = BookCottageStep_Execute E True C"
| "booking_Execute E C BookingEnd = EndStep_Execute"

definition BookingFlow_Start :: "'x External \<Rightarrow> Cache option \<Rightarrow> nat \<Rightarrow> (('x, 'z) World_scheme, unit) go" where
  "BookingFlow_Start E C fuel =
     (let flowDef = DefaultBookingFlow bookingSteps
      in runStepGraph E noopStep_Execute (booking_Validate C) (booking_Execute E C)
           (BookingStateMap flowDef) fuel (b_Start (fst flowDef)))"

abbreviation bookingMap :: "BookingStep \<Rightarrow> BookingStep WeightedTuple list option" where
  "bookingMap \<equiv> BookingStateMap (DefaultBookingFlow bookingSteps)"

lemma booking_map [simp]:
  "bookingMap ListCottages = Some [tup SelectCottage (80/100), tup BookingEnd (20/100)]"
  "bookingMap SelectCottage = Some [tup SelectPeriod (60/100), tup ListCottages (30/100), tup BookingEnd (10/100)]"
  "bookingMap SelectPeriod = Some [tup SelectPeriod (30/100), tup SelectCottage (20/100), tup ListCottages (5/100),
     tup BookCottage (40/100), tup BookingEnd (5/100)]"
  "bookingMap BookCottage = Some [tup BookingEnd 1]"
  "bookingMap BookingEnd = None"
  "b_Start (fst (DefaultBookingFlow bookingSteps)) = ListCottages"
  by (simp_all add: BookingStateMap_def DefaultBookingFlow_def bookingSteps_def)

subsection \<open>What the steps do to the cached journey\<close>

lemma booking_Validate_Ret: "booking_Validate C s w = (Ret u, w') \<Longrightarrow> w' = w"
  by (cases s) (auto simp: ListCottagesStep_Validate_def SelectCottageStep_Validate_def
      SelectPeriodStep_Validate_def BookCottageStep_Validate_def EndStep_Validate_def
      split: if_splits option.splits)

lemma ListCottagesStep_establishes:
  assumes "redisLaws E content" and "ListCottagesStep_Execute E client w = (Ret u, w')"
  shows "\<exists>st cs. w_state w = Some st \<and> w_state w' = Some (st\<lparr>CottageNames := Some cs\<rparr>)
    \<and> cached content w' = cached content w"
  using assms(2)
  by (auto simp: ListCottagesStep_Execute_def bindE_Ret_iff httpCall_Ret_iff decodeBody_Ret_iff setState_Ret_iff
      cached_def keyOf_def redisLawsD(5) [OF assms(1)] split: if_splits)

lemma SelectCottageStep_establishes:
  assumes laws: "redisLaws E content" and pre: "cached content w = Some v0" "cacheable v0"
    and run: "SelectCottageStep_Execute E (Some c) w = (Ret u, w')"
  shows "\<exists>st b ct. w_state w = Some st \<and> ct \<in> set (cottageList st)
    \<and> b = (case Booking v0 of None \<Rightarrow> zeroBooking | Some b \<Rightarrow> b)
    \<and> cached content w' = Some (v0\<lparr>Booking := Some (b\<lparr>SelectedCottage := ct\<rparr>)\<rparr>)
    \<and> cacheable (v0\<lparr>Booking := Some (b\<lparr>SelectedCottage := ct\<rparr>)\<rparr>)
    \<and> w_state w' = Some (st\<lparr>RedisKey := keyOf st\<rparr>)"
proof -
  from run obtain st i x where st: "w_state w = Some st" and i: "i < length (cottageList st)"
    and rnd: "randIntn E (length (cottageList st)) (w_ext w) = (i, x)"
    and rest: "bindE (Load E c) (\<lambda>v. Save E c (v\<lparr>Booking := Some
      ((case Booking v of None \<Rightarrow> zeroBooking | Some b \<Rightarrow> b)\<lparr>SelectedCottage := cottageList st ! i\<rparr>)\<rparr>))
      (w\<lparr>w_ext := x\<rparr>) = (Ret u, w')"
    by (auto simp: SelectCottageStep_Execute_def onCache_def Intn_def Let_def
        bindE_Ret_iff [of deref] bindE_Ret_iff [of "extV (randIntn E n)" for n] deref_Ret_iff extV_Ret_iff
        not_le split: if_splits)
  then obtain v w1 where ld: "Load E c (w\<lparr>w_ext := x\<rparr>) = (Ret v, w1)" by (auto simp: bindE_Ret_iff)
  have v: "v = v0" using Load_cached(1) [OF laws ld] pre redisLawsD(9) [OF laws rnd] by simp
  have st1: "w_state w1 = Some (st\<lparr>RedisKey := keyOf st\<rparr>)" and key: "keyOf st \<noteq> []"
    using Load_cached(4) [OF laws ld] st by auto
  let ?b = "case Booking v0 of None \<Rightarrow> zeroBooking | Some b \<Rightarrow> b"
  let ?v = "v0\<lparr>Booking := Some (?b\<lparr>SelectedCottage := cottageList st ! i\<rparr>)\<rparr>"
  from rest ld v have sv: "Save E c ?v w1 = (Ret u, w')" by (simp add: bindE_def)
  have ok: "cacheable ?v" using pre(2) by (auto simp: cacheable_def zeroBooking_def split: option.splits)
  show ?thesis
    using Save_cached [OF laws ok sv] ok st1 st key i by (auto simp: keyOf_def intro!: exI [of _ "cottageList st ! i"])
qed

lemma BookCottageStep_establishes:
  assumes laws: "redisLaws E content" and pre: "cached content w = Some v0" "cacheable v0"
    and run: "BookCottageStep_Execute E client (Some c) w = (Ret u, w')"
  shows "\<exists>st g b p bid x resp x'. w_state w = Some st \<and> PersonalInfo v0 = Some g \<and> Booking v0 = Some b
    \<and> SelectedCottage b \<noteq> [] \<and> SelectedPeriod b = Some p \<and> BookingID b = []
    \<and> httpDo E (bookingRequest (st\<lparr>RedisKey := keyOf st\<rparr>) g (SelectedCottage b) p) x = (Ret resp, x')
    \<and> \<not> IsError resp \<and> Option.bind (rs_body resp) unmarshalConfirmation = Some bid
    \<and> cached content w' = Some (v0\<lparr>Booking := Some (b\<lparr>BookingID := bid\<rparr>)\<rparr>)
    \<and> cacheable (v0\<lparr>Booking := Some (b\<lparr>BookingID := bid\<rparr>)\<rparr>)
    \<and> w_state w' = Some (st\<lparr>RedisKey := keyOf st\<rparr>)"
proof -
  from run obtain v w1 where ld: "Load E c w = (Ret v, w1)"
    by (auto simp: BookCottageStep_Execute_def onCache_def bindE_Ret_iff [of "Load E c"])
  have v: "v = v0" using Load_cached(1) [OF laws ld] pre by simp
  obtain st where st: "w_state w = Some st" "w_state w1 = Some (st\<lparr>RedisKey := keyOf st\<rparr>)" and key: "keyOf st \<noteq> []"
    using Load_cached(4) [OF laws ld] by blast
  from run obtain g b p bid resp x' where
    parts: "PersonalInfo v0 = Some g" "Booking v0 = Some b" "SelectedCottage b \<noteq> []" "SelectedPeriod b = Some p"
      "BookingID b = []" "\<not> IsError resp" "Option.bind (rs_body resp) unmarshalConfirmation = Some bid"
    and post: "httpDo E (bookingRequest (st\<lparr>RedisKey := keyOf st\<rparr>) g (SelectedCottage b) p) (w_ext w1) = (Ret resp, x')"
    and sv: "Save E c (v0\<lparr>Booking := Some (b\<lparr>BookingID := bid\<rparr>)\<rparr>) (w1\<lparr>w_ext := x'\<rparr>) = (Ret u, w')"
    by (auto simp: BookCottageStep_Execute_def onCache_def bindE_Ret_iff ld v st deref_Ret_iff httpCall_Ret_iff
        decodeBody_Ret_iff split: option.splits if_splits)
  have ok: "cacheable (v0\<lparr>Booking := Some (b\<lparr>BookingID := bid\<rparr>)\<rparr>)"
    using pre(2) parts(2) by (simp add: cacheable_def)
  show ?thesis
    using Save_cached [OF laws ok sv] ok st key parts post by (fastforce simp: keyOf_def)
qed

subsection \<open>The invariant of the flow\<close>

text \<open>
  \<open>foundTogether\<close>: the cottage and the period of a booking were found by one search.
  \<open>bookingEntry\<close> is what holds when a step of the flow is entered, for a journey whose
  guest is \<open>g\<close> and whose invoice is \<open>n\<close>.
\<close>

definition foundTogether :: "'x External \<Rightarrow> GuestJourneyBooking \<Rightarrow> bool" where
  "foundTogether E b \<longleftrightarrow> (\<exists>now cottages c. offeredBy E now (sort numberOfNights) cottages c
     \<and> SelectedCottage b = cottageName c \<and> SelectedPeriod b = Some (period c))"

type_synonym identity = "string \<times> Guest option \<times> GuestJourneyInvoice option"

definition identity :: "GuestJourneyCacheValue \<Rightarrow> identity" where
  "identity v = (GuestID v, PersonalInfo v, Invoice v)"

lemma identity_Booking [simp]: "identity (v\<lparr>Booking := b\<rparr>) = identity v"
  by (simp add: identity_def)

definition journeyHas :: "('x \<Rightarrow> string \<Rightarrow> json option) \<Rightarrow> identity \<Rightarrow> (GuestJourneyBooking option \<Rightarrow> bool)
    \<Rightarrow> ('x, 'z) World_scheme \<Rightarrow> bool" where
  "journeyHas content g P w \<longleftrightarrow>
     (\<exists>v. cached content w = Some v \<and> cacheable v \<and> identity v = g \<and> P (Booking v))"

definition unbooked :: "GuestJourneyBooking option \<Rightarrow> bool" where
  "unbooked b \<longleftrightarrow> (\<forall>x. b = Some x \<longrightarrow> BookingID x = [])"

text \<open>
  \<open>confirmedBy\<close>: the id of the booking is the service's answer to the request that books the booking's
  cottage for the booking's period in the name of the guest. \<open>consistent\<close> speaks of a journey that has
  a booking id; the graph may also reach its end without one.
\<close>

definition confirmedBy :: "'x External \<Rightarrow> Guest option \<Rightarrow> GuestJourneyBooking \<Rightarrow> bool" where
  "confirmedBy E guest b \<longleftrightarrow> (\<exists>st g p x resp x'. guest = Some g \<and> SelectedPeriod b = Some p
     \<and> httpDo E (bookingRequest st g (SelectedCottage b) p) x = (Ret resp, x') \<and> \<not> IsError resp
     \<and> Option.bind (rs_body resp) unmarshalConfirmation = Some (BookingID b))"

definition consistent :: "'x External \<Rightarrow> identity \<Rightarrow> GuestJourneyBooking option \<Rightarrow> bool" where
  "consistent E g b \<longleftrightarrow> (\<forall>x. b = Some x \<and> BookingID x \<noteq> [] \<longrightarrow>
     SelectedCottage x \<noteq> [] \<and> foundTogether E x \<and> confirmedBy E (fst (snd g)) x)"

lemma unbooked_consistent: "unbooked b \<Longrightarrow> consistent E g b"
  by (auto simp: unbooked_def consistent_def)

fun bookingEntry :: "'x External \<Rightarrow> ('x \<Rightarrow> string \<Rightarrow> json option) \<Rightarrow> identity \<Rightarrow> BookingStep
    \<Rightarrow> ('x, 'z) World_scheme \<Rightarrow> bool" where
  "bookingEntry E content g BookCottage w =
     journeyHas content g (\<lambda>b. unbooked b \<and> (\<forall>x. b = Some x \<longrightarrow> foundTogether E x)) w"
| "bookingEntry E content g BookingEnd w = journeyHas content g (consistent E g) w"
| "bookingEntry E content g _ w = journeyHas content g unbooked w"

lemma journeyHas_mono: "journeyHas content g P w \<Longrightarrow> (\<And>b. P b \<Longrightarrow> Q b) \<Longrightarrow> journeyHas content g Q w"
  by (auto simp: journeyHas_def)

lemma bookingEntry_ext:
  "content x = content (w_ext w) \<Longrightarrow> bookingEntry E content g s (w\<lparr>w_ext := x\<rparr>) = bookingEntry E content g s w"
  by (cases s) (simp_all add: journeyHas_def)

lemma bookingEntry_unbooked:
  "journeyHas content g unbooked w \<Longrightarrow> s \<noteq> BookCottage \<Longrightarrow> bookingEntry E content g s w"
  by (cases s) (auto elim: journeyHas_mono intro: unbooked_consistent)

lemma bookingEntry_found:
  "journeyHas content g (\<lambda>b. unbooked b \<and> (\<forall>x. b = Some x \<longrightarrow> foundTogether E x)) w \<Longrightarrow> bookingEntry E content g s w"
  by (cases s) (auto elim!: journeyHas_mono intro: unbooked_consistent)

text \<open>The effect of each step on the invariant.\<close>

lemma ListCottages_keeps:
  assumes "redisLaws E content" and "journeyHas content g P w" and "ListCottagesStep_Execute E True w = (Ret u, w')"
  shows "journeyHas content g P w'"
  using ListCottagesStep_establishes [OF assms(1,3)] assms(2) by (auto simp: journeyHas_def)

lemma SelectCottage_keeps:
  assumes "redisLaws E content" and "journeyHas content g unbooked w"
    and "SelectCottageStep_Execute E (Some c) w = (Ret u, w')"
  shows "journeyHas content g unbooked w'"
proof -
  from assms(2) obtain v where "cached content w = Some v" "cacheable v" "identity v = g" "unbooked (Booking v)"
    by (auto simp: journeyHas_def)
  with SelectCottageStep_establishes [OF assms(1) this(1,2) assms(3)] show ?thesis
    by (fastforce simp: journeyHas_def unbooked_def zeroBooking_def split: option.splits)
qed

lemma SelectPeriod_finds:
  assumes "redisLaws E content" and "journeyHas content g unbooked w"
    and "SelectPeriodStep_Execute E True (Some c) w = (Ret u, w')"
  shows "journeyHas content g (\<lambda>b. unbooked b \<and> (\<forall>x. b = Some x \<longrightarrow> foundTogether E x)) w'"
  using SelectPeriodStep_establishes [OF assms(1,3)] assms(2)
  by (fastforce simp: journeyHas_def unbooked_def foundTogether_def)

lemma BookCottage_books:
  assumes "redisLaws E content"
    and pre: "journeyHas content g (\<lambda>b. unbooked b \<and> (\<forall>x. b = Some x \<longrightarrow> foundTogether E x)) w"
    and "BookCottageStep_Execute E True (Some c) w = (Ret u, w')"
  shows "journeyHas content g (consistent E g) w'"
proof -
  from pre obtain v where v: "cached content w = Some v" "cacheable v" "identity v = g"
    and f: "\<forall>x. Booking v = Some x \<longrightarrow> foundTogether E x"
    by (auto simp: journeyHas_def)
  obtain st gu b p bid x resp x' where b: "PersonalInfo v = Some gu" "Booking v = Some b" "SelectedCottage b \<noteq> []"
      "SelectedPeriod b = Some p"
    and ans: "httpDo E (bookingRequest (st\<lparr>RedisKey := keyOf st\<rparr>) gu (SelectedCottage b) p) x = (Ret resp, x')"
      "\<not> IsError resp" "Option.bind (rs_body resp) unmarshalConfirmation = Some bid"
    and w': "cached content w' = Some (v\<lparr>Booking := Some (b\<lparr>BookingID := bid\<rparr>)\<rparr>)"
      "cacheable (v\<lparr>Booking := Some (b\<lparr>BookingID := bid\<rparr>)\<rparr>)"
    using BookCottageStep_establishes [OF assms(1) v(1,2) assms(3)] by blast
  have "foundTogether E b" using f b(2) by blast
  moreover have "confirmedBy E (fst (snd g)) (b\<lparr>BookingID := bid\<rparr>)"
    using b(1,4) ans v(3) by (fastforce simp: confirmedBy_def identity_def)
  ultimately have "consistent E g (Some (b\<lparr>BookingID := bid\<rparr>))" using b(3)
    by (auto simp: consistent_def foundTogether_def)
  then show ?thesis using w' v(3) by (auto simp: journeyHas_def)
qed

text \<open>The invariant holds for a cancelled context too: the loop then stops between two steps.\<close>

lemma bookingEntry_consistent: "bookingEntry E content g s w \<Longrightarrow> journeyHas content g (consistent E g) w"
  by (cases s) (auto elim!: journeyHas_mono intro: unbooked_consistent)

sublocale redis_store \<subseteq> book: step_invariant E "booking_Validate (Some c)" "booking_Execute E (Some c)"
    bookingMap "bookingEntry E content g" "journeyHas content g (consistent E g)" for g
proof
  fix s t :: BookingStep and w w' :: "('x, 'z) World_scheme" and u nxt
  assume entry: "bookingEntry E content g s w"
    and run: "thenE (booking_Validate (Some c) s) (booking_Execute E (Some c) s) w = (Ret u, w')"
    and nxt: "bookingMap s = Some nxt" "t \<in> Value ` set nxt"
  from run have ex: "booking_Execute E (Some c) s w = (Ret u, w')"
    by (auto simp: thenE_Ret_iff dest: booking_Validate_Ret)
  show "bookingEntry E content g t w'"
  proof (cases s)
    case ListCottages
    with entry ex nxt show ?thesis
      by (intro bookingEntry_unbooked) (auto intro: ListCottages_keeps [OF laws])
  next
    case SelectCottage
    with entry ex nxt show ?thesis
      by (intro bookingEntry_unbooked) (auto intro: SelectCottage_keeps [OF laws])
  next
    case SelectPeriod
    with entry ex show ?thesis by (intro bookingEntry_found) (auto intro: SelectPeriod_finds [OF laws])
  next
    case BookCottage
    with entry ex nxt show ?thesis by (auto intro: BookCottage_books [OF laws])
  qed (use nxt in simp)
next
  fix s :: BookingStep and w w' :: "('x, 'z) World_scheme" and u
  assume "bookingEntry E content g s w"
    and "thenE (booking_Validate (Some c) s) (booking_Execute E (Some c) s) w = (Ret u, w')"
    and "bookingMap s = None"
  then show "journeyHas content g (consistent E g) w'"
    by (cases s) (simp_all add: EndStep_Validate_def EndStep_Execute_def)
next
  fix s :: BookingStep and w :: "('x, 'z) World_scheme" and e x
  assume "bookingEntry E content g s w" and "ctxErr E (w_ext w) = (Some e, x)"
  then show "journeyHas content g (consistent E g) (w\<lparr>w_ext := x\<rparr>)"
    by (intro bookingEntry_consistent [where s = s]) (simp add: bookingEntry_ext redisLawsD [OF laws])
qed (simp_all add: bookingEntry_ext redisLawsD [OF laws])

context redis_store
begin

lemma booking_flow_end:
  assumes "journeyHas content g unbooked w" and "BookingFlow_Start E (Some c) fuel w = (Ret u, w')"
  shows "journeyHas content g (consistent E g) w'"
proof (rule book.loop_end)
  show "bookingEntry E content g ListCottages w" using assms(1) by simp
  show "stepLoop E (booking_Validate (Some c)) (booking_Execute E (Some c)) bookingMap fuel ListCottages w = (Ret u, w')"
    using assms(2) by (simp add: BookingFlow_Start_def runStepGraph_def noopStep_Execute_def Let_def)
qed

end

end
