(* ===== verification/Payment.thy ===== *)
theory Payment
  imports Bookingsteps
begin

text \<open>
  The payment flow: \<open>PayInvoiceStep\<close> (internal/app/steps/payment_step/pay_invoice.go)
  and \<open>NewPaymentFlowWithState\<close> (internal/app/flows/payment_flow.go). The flow is
  shown to return, to charge only a journey that has a booking and an invoice, and on
  success to store the receipt of a succeeded payment.
\<close>

subsection \<open>PayInvoiceStep\<close>

definition PayInvoiceStep_Validate :: "bool \<Rightarrow> Cache option \<Rightarrow> (('x, 'z) World_scheme, unit) go" where
  "PayInvoiceStep_Validate paymentClient C = bindE (getW w_state) (\<lambda>state. case state of
      None \<Rightarrow> throw (Errorf ''invalid state, state is nil'')
    | Some s \<Rightarrow>
        if GuestId s = [] then throw (Errorf ''invalid state, guestId is empty'')
        else if C = None then throw (Errorf ''invalid guest journey cache'')
        else if \<not> paymentClient then throw (Errorf ''invalid payment client'')
        else ret ())"

definition payRequest :: "Guest \<Rightarrow> string \<Rightarrow> Request" where
  "payRequest guest invoiceNumber =
     \<lparr>rq_service = PaymentSimulator, rq_method = POST, rq_path = ''/v1/payments/invoice/'' @ invoiceNumber,
      rq_query = [],
      rq_body = PayBody
        \<lparr>pc_Number = ''4111111111111111'', pc_Brand = ''VISA'', pc_ExpMonth = 12, pc_ExpYear = 2030, pc_Cvv = ''123'',
         pc_HolderName = TrimSpace (GivenNames guest @ '' '' @ Surname guest)\<rparr>\<rparr>"

text \<open>The checks on the cached journey, in the order of the code.\<close>

definition payChecks :: "GuestJourneyCacheValue \<Rightarrow> error + (Guest \<times> GuestJourneyInvoice)" where
  "payChecks v =
     (case PersonalInfo v of
        None \<Rightarrow> Inl (Errorf ''invalid cached guest context'')
      | Some guest \<Rightarrow>
     (case Booking v of
        None \<Rightarrow> Inl (Errorf ''invalid cached booking context'')
      | Some b \<Rightarrow>
          if BookingID b = [] \<or> SelectedCottage b = [] \<or> SelectedPeriod b = None
          then Inl (Errorf ''invalid cached booking context'')
          else (case Invoice v of
                  None \<Rightarrow> Inl (Errorf ''invalid cached invoice context'')
                | Some i \<Rightarrow> if InvoiceNumber i = [] then Inl (Errorf ''invalid cached invoice context'')
                            else Inr (guest, i))))"

definition PayInvoiceStep_Execute :: "'x External \<Rightarrow> bool \<Rightarrow> Cache option \<Rightarrow> (('x, 'z) World_scheme, unit) go" where
  "PayInvoiceStep_Execute E paymentClient C =
     thenE (PayInvoiceStep_Validate paymentClient C)
    (bindE (onCache C (Load E)) (\<lambda>cacheValue.
       case payChecks cacheValue of
         Inl e \<Rightarrow> throw e
       | Inr (guest, invoice) \<Rightarrow>
           bindE (httpCall E paymentClient (payRequest guest (InvoiceNumber invoice))) (\<lambda>resp.
             if IsError resp
             then throw (Errorf (''pay invoice '' @ InvoiceNumber invoice @ '': '' @ rs_status resp))
             else bindE (decodeBody unmarshalPayResponse resp) (\<lambda>paymentResp.
               if pw_Status paymentResp \<noteq> ''PAYMENT_STATUS_SUCCEEDED''
               then throw (Errorf (''payment for invoice '' @ InvoiceNumber invoice @ '' returned status ''
                      @ pw_Status paymentResp))
               else onCache C (\<lambda>c. Save E c (cacheValue\<lparr>Invoice := Some
                      (invoice\<lparr>ReceiptNumber := pw_ReceiptNumber paymentResp\<rparr>)\<rparr>))))))"

subsection \<open>The payment flow\<close>

datatype PaymentStep = PayInvoice | PaymentEnd

definition paymentSteps :: "PaymentStep PaymentSteps" where
  "paymentSteps = \<lparr>p_Start = PaymentEnd, p_PayInvoice = PayInvoice, p_End = PaymentEnd\<rparr>"

fun payment_Validate :: "Cache option \<Rightarrow> PaymentStep \<Rightarrow> (('x, 'z) World_scheme, unit) go" where
  "payment_Validate C PayInvoice = PayInvoiceStep_Validate True C"
| "payment_Validate C PaymentEnd = EndStep_Validate"

fun payment_Execute :: "'x External \<Rightarrow> Cache option \<Rightarrow> PaymentStep \<Rightarrow> (('x, 'z) World_scheme, unit) go" where
  "payment_Execute E C PayInvoice = PayInvoiceStep_Execute E True C"
| "payment_Execute E C PaymentEnd = EndStep_Execute"

definition PaymentFlow_Start :: "'x External \<Rightarrow> Cache option \<Rightarrow> nat \<Rightarrow> (('x, 'z) World_scheme, unit) go" where
  "PaymentFlow_Start E C fuel =
     (let flowDef = DefaultPaymentFlow paymentSteps
      in runStepGraph E noopStep_Execute (payment_Validate C) (payment_Execute E C)
           (PaymentStateMap flowDef) fuel (p_Start (fst flowDef)))"

abbreviation paymentMap :: "PaymentStep \<Rightarrow> PaymentStep WeightedTuple list option" where
  "paymentMap \<equiv> PaymentStateMap (DefaultPaymentFlow paymentSteps)"

lemma payment_map [simp]:
  "paymentMap PayInvoice = Some [tup PaymentEnd 1]" "paymentMap PaymentEnd = None"
  "p_Start (fst (DefaultPaymentFlow paymentSteps)) = PayInvoice"
  by (simp_all add: PaymentStateMap_def DefaultPaymentFlow_def paymentSteps_def)

lemma noBlock_payment [go_returns]:
  assumes "responsive E"
  shows "noBlock (payment_Validate C s)" "noBlock (payment_Execute E C s)"
  using assms
  by (cases s; auto simp: PayInvoiceStep_Validate_def PayInvoiceStep_Execute_def EndStep_Validate_def EndStep_Execute_def
      split: sum.splits intro!: go_returns)+

lemma payment_flow_returns:
  assumes "responsive E" and "2 \<le> fuel"
  shows "noBlock (PaymentFlow_Start E C fuel)"
proof -
  have "noBlock (stepLoop E (payment_Validate C) (payment_Execute E C) paymentMap fuel PayInvoice)"
  proof (rule stepLoop_ranked_returns [where rank = "\<lambda>s. case s of PayInvoice \<Rightarrow> 1 | PaymentEnd \<Rightarrow> (0::nat)"])
    fix s nxt t
    assume "paymentMap s = Some nxt" "t \<in> Value ` set nxt"
    then show "(case t of PayInvoice \<Rightarrow> 1 | PaymentEnd \<Rightarrow> (0::nat)) < (case s of PayInvoice \<Rightarrow> 1 | PaymentEnd \<Rightarrow> 0)"
      by (cases s) auto
  qed (use assms in \<open>auto intro: noBlock_payment\<close>)
  then show ?thesis
    by (simp add: PaymentFlow_Start_def runStepGraph_def noopStep_Execute_def)
qed

subsection \<open>What payment establishes\<close>

lemma payChecks_Inr:
  "payChecks v = Inr (guest, i) \<longleftrightarrow> PersonalInfo v = Some guest \<and> Invoice v = Some i \<and> InvoiceNumber i \<noteq> []
     \<and> (\<exists>b. Booking v = Some b \<and> BookingID b \<noteq> [] \<and> SelectedCottage b \<noteq> [] \<and> SelectedPeriod b \<noteq> None)"
  by (auto simp: payChecks_def split: option.splits if_splits)

lemma PayInvoiceStep_Validate_Ret:
  "PayInvoiceStep_Validate client C w = (Ret u, w') \<longleftrightarrow>
     w' = w \<and> client \<and> C \<noteq> None \<and> (\<exists>s. w_state w = Some s \<and> GuestId s \<noteq> [])"
  by (auto simp: PayInvoiceStep_Validate_def split: option.splits if_splits)

definition paidWith :: "'x External \<Rightarrow> GuestJourneyCacheValue \<Rightarrow> GuestJourneyCacheValue \<Rightarrow> bool" where
  "paidWith E v v' \<longleftrightarrow> (\<exists>guest i x resp x' pay. payChecks v = Inr (guest, i)
     \<and> httpDo E (payRequest guest (InvoiceNumber i)) x = (Ret resp, x') \<and> \<not> IsError resp
     \<and> Option.bind (rs_body resp) unmarshalPayResponse = Some pay \<and> pw_Status pay = ''PAYMENT_STATUS_SUCCEEDED''
     \<and> v' = v\<lparr>Invoice := Some (i\<lparr>ReceiptNumber := pw_ReceiptNumber pay\<rparr>)\<rparr>)"

lemma PayInvoiceStep_establishes:
  assumes laws: "redisLaws E content" and pre: "cached content w = Some v0" "cacheable v0"
    and run: "PayInvoiceStep_Execute E client (Some c) w = (Ret u, w')"
  shows "\<exists>v'. paidWith E v0 v' \<and> cached content w' = Some v' \<and> cacheable v'"
proof -
  from run obtain v w1 where ld: "Load E c w = (Ret v, w1)"
    by (auto simp: PayInvoiceStep_Execute_def onCache_def thenE_Ret_iff PayInvoiceStep_Validate_Ret
        bindE_Ret_iff [of "Load E c"])
  have v: "v = v0" using Load_cached(1) [OF laws ld] pre by simp
  from run obtain guest i resp x' pay where
    checks: "payChecks v0 = Inr (guest, i)" and ok: "\<not> IsError resp"
      "Option.bind (rs_body resp) unmarshalPayResponse = Some pay" "pw_Status pay = ''PAYMENT_STATUS_SUCCEEDED''"
    and post: "httpDo E (payRequest guest (InvoiceNumber i)) (w_ext w1) = (Ret resp, x')"
    and sv: "Save E c (v0\<lparr>Invoice := Some (i\<lparr>ReceiptNumber := pw_ReceiptNumber pay\<rparr>)\<rparr>) (w1\<lparr>w_ext := x'\<rparr>) = (Ret u, w')"
    by (auto simp: PayInvoiceStep_Execute_def onCache_def thenE_Ret_iff PayInvoiceStep_Validate_Ret bindE_Ret_iff
        ld v httpCall_Ret_iff decodeBody_Ret_iff split: sum.splits if_splits)
  let ?v = "v0\<lparr>Invoice := Some (i\<lparr>ReceiptNumber := pw_ReceiptNumber pay\<rparr>)\<rparr>"
  have c: "cacheable ?v" using pre(2) by simp
  have "paidWith E v0 ?v" unfolding paidWith_def using checks ok post by blast
  with Save_cached(1) [OF laws c sv] c show ?thesis by blast
qed

subsection \<open>What the payment flow establishes\<close>

fun paymentEntry :: "'x External \<Rightarrow> ('x \<Rightarrow> string \<Rightarrow> json option) \<Rightarrow> GuestJourneyCacheValue \<Rightarrow> PaymentStep
    \<Rightarrow> ('x, 'z) World_scheme \<Rightarrow> bool" where
  "paymentEntry E content v PayInvoice w = (cached content w = Some v \<and> cacheable v)"
| "paymentEntry E content v PaymentEnd w = (\<exists>v'. paidWith E v v' \<and> cached content w = Some v' \<and> cacheable v')"

lemma paymentEntry_ext:
  "content x = content (w_ext w) \<Longrightarrow> paymentEntry E content v s (w\<lparr>w_ext := x\<rparr>) = paymentEntry E content v s w"
  by (cases s) simp_all

sublocale live_store \<subseteq> pay: step_invariant E "payment_Validate (Some c)" "payment_Execute E (Some c)" paymentMap
    "paymentEntry E content v" "paymentEntry E content v PaymentEnd" for v
proof
  fix s t :: PaymentStep and w w' :: "('a, 'z) World_scheme" and u nxt
  assume "paymentEntry E content v s w"
    and "thenE (payment_Validate (Some c) s) (payment_Execute E (Some c) s) w = (Ret u, w')"
    and "paymentMap s = Some nxt" "t \<in> Value ` set nxt"
  then show "paymentEntry E content v t w'"
    by (cases s) (auto simp: thenE_Ret_iff PayInvoiceStep_Validate_Ret intro: PayInvoiceStep_establishes [OF laws])
next
  fix s :: PaymentStep and w w' :: "('a, 'z) World_scheme" and u
  assume "paymentEntry E content v s w"
    and "thenE (payment_Validate (Some c) s) (payment_Execute E (Some c) s) w = (Ret u, w')"
    and "paymentMap s = None"
  then show "paymentEntry E content v PaymentEnd w'"
    by (cases s) (simp_all add: EndStep_Validate_def EndStep_Execute_def)
next
  fix s :: PaymentStep and w :: "('a, 'z) World_scheme" and e x
  assume "ctxErr E (w_ext w) = (Some e, x)"
  then show "paymentEntry E content v PaymentEnd (w\<lparr>w_ext := x\<rparr>)"
    using live unfolding neverCancelled_def by (metis fst_conv option.distinct(1))
qed (simp_all add: paymentEntry_ext redisLawsD [OF laws])

context live_store
begin

lemma payment_flow_end:
  assumes "cached content w = Some v" "cacheable v" and "PaymentFlow_Start E (Some c) fuel w = (Ret u, w')"
  shows "\<exists>v'. paidWith E v v' \<and> cached content w' = Some v' \<and> cacheable v'"
proof -
  have "paymentEntry E content v PaymentEnd w'"
  proof (rule pay.loop_end)
    show "paymentEntry E content v PayInvoice w" using assms by simp
    show "stepLoop E (payment_Validate (Some c)) (payment_Execute E (Some c)) paymentMap fuel PayInvoice w = (Ret u, w')"
      using assms(3) by (simp add: PaymentFlow_Start_def runStepGraph_def noopStep_Execute_def Let_def)
  qed
  then show ?thesis by simp
qed

end

text \<open>The store in memory is an instance: its context is never cancelled.\<close>

lemma mem_live: "neverCancelled memExternal"
  by (simp add: neverCancelled_def memExternal_def)

interpretation memLive: live_store memExternal mem_store "\<lparr>redis = True\<rparr>"
  by unfold_locales (rule mem_live)

end
