(* ===== verification/Channels.thy ===== *)
theory Channels
  imports Domain
begin

text \<open>
  Buffered Go channels and the way the event services publish to them: a set of
  subscribed channels, each with a buffer of capacity one, and a send that skips a
  subscriber whose buffer is full. The order in which a set of subscribers is visited is
  open in Go; publishing is shown not to depend on it.
\<close>

text \<open>\<open>nextChan\<close> numbers the channels that \<open>make(chan, 1)\<close> has made so far.\<close>

record 'm Channels =
  chans :: "nat GoSet"
  buffers :: "nat \<Rightarrow> 'm list"
  nextChan :: nat

definition makeChan :: "('m, 'z) Channels_scheme \<Rightarrow> nat \<times> ('m, 'z) Channels_scheme" where
  "makeChan t = (nextChan t, t\<lparr>nextChan := Suc (nextChan t)\<rparr>)"

definition subscribe :: "nat \<Rightarrow> ('m, 'z) Channels_scheme \<Rightarrow> ('m, 'z) Channels_scheme" where
  "subscribe ch t = t\<lparr>chans := Add ch (chans t)\<rparr>"

definition unsubscribe :: "nat \<Rightarrow> ('m, 'z) Channels_scheme \<Rightarrow> ('m, 'z) Channels_scheme" where
  "unsubscribe ch t = t\<lparr>chans := Remove ch (chans t)\<rparr>"

text \<open>The loop over the subscribers: a send that does not block, or skip; was any send done?\<close>

fun notifySubscribers :: "nat list \<Rightarrow> 'm \<Rightarrow> ('m, 'z) Channels_scheme \<Rightarrow> bool \<times> ('m, 'z) Channels_scheme" where
  "notifySubscribers [] msg t = (False, t)"
| "notifySubscribers (ch # chs) msg t =
     (if length (buffers t ch) < 1
      then (True, snd (notifySubscribers chs msg (t\<lparr>buffers := (buffers t)(ch := buffers t ch @ [msg])\<rparr>)))
      else notifySubscribers chs msg t)"

text \<open>\<open>msg := <-ch\<close>, when the buffer is not empty.\<close>

definition receive :: "nat \<Rightarrow> ('m, 'z) Channels_scheme \<Rightarrow> ('m \<times> ('m, 'z) Channels_scheme) option" where
  "receive ch t = (case buffers t ch of [] \<Rightarrow> None | m # ms \<Rightarrow> Some (m, t\<lparr>buffers := (buffers t)(ch := ms)\<rparr>))"

definition topicInv :: "('m, 'z) Channels_scheme \<Rightarrow> bool" where
  "topicInv t \<longleftrightarrow> setInv (chans t) \<and> (\<forall>ch. length (buffers t ch) \<le> 1)
     \<and> (\<forall>ch \<in> set (items (chans t)). ch < nextChan t) \<and> (\<forall>ch \<ge> nextChan t. buffers t ch = [])"

text \<open>Some subscriber is ready to take a message.\<close>

definition idle :: "('m, 'z) Channels_scheme \<Rightarrow> bool" where
  "idle t \<longleftrightarrow> (\<exists>ch \<in> set (items (chans t)). buffers t ch = [])"

lemma notify_effect:
  assumes "distinct chs"
  shows "fst (notifySubscribers chs msg t) \<longleftrightarrow> (\<exists>ch \<in> set chs. buffers t ch = [])"
    and "snd (notifySubscribers chs msg t) =
      t\<lparr>buffers := (\<lambda>ch. if ch \<in> set chs \<and> buffers t ch = [] then [msg] else buffers t ch)\<rparr>"
  using assms
  by (induction chs arbitrary: t)
    (auto simp: fun_upd_def intro!: arg_cong [where f = "\<lambda>b. t\<lparr>buffers := b\<rparr>" for t])

lemma notify_all:
  assumes "setInv (chans t)" and "iterationOrder ord"
  shows "notifySubscribers (Values ord (chans t)) msg t =
    (idle t, t\<lparr>buffers := (\<lambda>ch. if ch \<in> set (items (chans t)) \<and> buffers t ch = [] then [msg] else buffers t ch)\<rparr>)"
proof -
  have v: "distinct (Values ord (chans t))" "set (Values ord (chans t)) = set (items (chans t))"
    using gs.vals_spec [OF assms] by auto
  show ?thesis
    by (rule prod_eqI) (simp_all add: notify_effect [OF v(1)] v(2) idle_def)
qed

lemma notify_not_idle:
  "\<not> idle t \<Longrightarrow> (\<lambda>ch. if ch \<in> set (items (chans t)) \<and> buffers t ch = [] then [msg] else buffers t ch) = buffers t"
  by (auto simp: idle_def)

lemma topicInv_notify:
  assumes "topicInv t" and "iterationOrder ord"
  shows "topicInv (snd (notifySubscribers (Values ord (chans t)) msg t))"
  using assms notify_all [of t ord msg] by (auto simp: topicInv_def)

lemma notify_frame [simp]:
  "chans (snd (notifySubscribers chs msg t)) = chans t" "nextChan (snd (notifySubscribers chs msg t)) = nextChan t"
  by (induction chs arbitrary: t) simp_all

lemma topicInv_send: "topicInv t \<Longrightarrow> \<forall>ch \<in> set chs. ch < nextChan t \<Longrightarrow> topicInv (snd (notifySubscribers chs msg t))"
proof (induction chs arbitrary: t)
  case (Cons ch chs)
  then show ?case by (auto simp: topicInv_def intro!: Cons.IH)
qed simp

lemma topicInv_ops:
  assumes "topicInv t"
  shows "topicInv (unsubscribe ch t)" and "receive ch t = Some (m, t') \<Longrightarrow> topicInv t'"
    and "makeChan t = (k, t') \<Longrightarrow> topicInv (subscribe k t') \<and> buffers t' k = [] \<and> k \<notin> set (items (chans t))"
proof -
  have si: "setInv (chans t)" using assms by (simp add: topicInv_def)
  show "topicInv (unsubscribe ch t)"
    using assms gs.inv_remove [OF si, of ch] by (auto simp: topicInv_def unsubscribe_def gs.elems_remove [OF si])
  show "receive ch t = Some (m, t') \<Longrightarrow> topicInv t'"
    using assms by (auto simp: receive_def topicInv_def split: list.splits)
      (metis Suc_le_mono le_SucI list.size(4) add.right_neutral add_Suc_right)
  show "makeChan t = (k, t') \<Longrightarrow> topicInv (subscribe k t') \<and> buffers t' k = [] \<and> k \<notin> set (items (chans t))"
    using assms gs.inv_add [OF si] by (auto simp: makeChan_def subscribe_def topicInv_def gs.elems_add [OF si] less_Suc_eq)
qed

end
