(* ===== verification/Bus.thy ===== *)
theory Bus
  imports Messages Channels
begin

text \<open>
  The guest communication bus (internal/app/journey/journey\_services/guest\_communication.go,
  guest\_communication\_bus.go, cleanup\_service.go).

  The three topics of the bus are written three times in the code with the same text; here
  a topic is a record with its operations, and the bus has three of them. The goroutine that
  \<open>Start\<close> launches is the pump: each delivery it takes is one atomic step, because
  \<open>publish\<close> runs under the mutex of the topic.
\<close>

subsection \<open>Deliveries\<close>

text \<open>Values of an AMQP header table; \<open>HOther\<close> carries what \<open>fmt.Sprint\<close> prints.\<close>

datatype HeaderValue = HString string | HBytes string | HNil | HOther string

record Delivery =
  Headers :: "(string \<times> HeaderValue) list option"
  DeliveryBody :: string
  DeliveryRoutingKey :: string

definition deliveryHeader :: "Delivery \<Rightarrow> string \<Rightarrow> string" where
  "deliveryHeader d key =
     (case Headers d of
        None \<Rightarrow> []
      | Some hs \<Rightarrow>
          (case map_of hs key of
             None \<Rightarrow> []
           | Some HNil \<Rightarrow> []
           | Some (HString s) \<Rightarrow> s
           | Some (HBytes s) \<Rightarrow> s
           | Some (HOther s) \<Rightarrow> s))"

definition guestCommunicationExchange :: string where
  "guestCommunicationExchange = ''ex.communication''"

definition guestQueuePrefix :: string where
  "guestQueuePrefix = ''q.guest.''"

definition guestRoutingKeyPrefix :: string where
  "guestRoutingKeyPrefix = ''guest.''"

definition paymentRequestMessageType :: string where
  "paymentRequestMessageType = ''paymentSimulator.payment.v1.PaymentRequest''"

definition bookingConfirmationMessageType :: string where
  "bookingConfirmationMessageType = ''cottageManager.invoice.BookingConfirmedNotificationEvent''"

definition checkinTodayMessageType :: string where
  "checkinTodayMessageType = ''lodging.v1.CheckInTodayNotification''"

subsection \<open>Topics\<close>

record 'm Topic = "'m Channels" +
  pendingMsgs :: "'m list"

definition newTopic :: "'m Topic" where
  "newTopic = \<lparr>chans = NewSet, buffers = (\<lambda>_. []), nextChan = 0, pendingMsgs = []\<rparr>"

text \<open>\<open>publish...\<close>: notify the subscribers, or queue the message when none could take it.\<close>

definition publish :: "(nat list \<Rightarrow> nat list) \<Rightarrow> 'm \<Rightarrow> 'm Topic \<Rightarrow> 'm Topic" where
  "publish ord msg t =
     (let (delivered, t') = notifySubscribers (Values ord (chans t)) msg t
      in if delivered then t' else t'\<lparr>pendingMsgs := pendingMsgs t' @ [msg]\<rparr>)"

text \<open>\<open>takePending...\<close>: the oldest queued message.\<close>

definition takePending :: "'m Topic \<Rightarrow> ('m \<times> 'm Topic) option" where
  "takePending t = (case pendingMsgs t of [] \<Rightarrow> None | m # ms \<Rightarrow> Some (m, t\<lparr>pendingMsgs := ms\<rparr>))"

definition resetTopic :: "'m Topic \<Rightarrow> 'm Topic" where
  "resetTopic t = t\<lparr>pendingMsgs := [], chans := NewSet\<rparr>"

subsection \<open>The bus\<close>

text \<open>
  \<open>done\<close> is the channel that \<open>Done()\<close> returns, \<open>closedDone\<close> the done channels that
  are closed; \<open>pumps\<close> are the running pumps, each with the done channel it will close;
  \<open>settled\<close> records the deliveries that were acknowledged (\<open>True\<close>) or rejected.
\<close>

record GuestCommunicationBus =
  Consumer :: bool
  paymentRequests :: "PaymentRequest Topic"
  bookingConfirmations :: "BookingConfirmedNotificationEvent Topic"
  checkinToday :: "CheckInTodayNotification Topic"
  doneChan :: nat
  nextDone :: nat
  closedDone :: "nat list"
  busErr :: "error option"
  pumps :: "nat list"
  settled :: "(Delivery \<times> bool) list"

definition NewGuestCommunicationBus :: GuestCommunicationBus where
  "NewGuestCommunicationBus =
     \<lparr>Consumer = False, paymentRequests = newTopic, bookingConfirmations = newTopic, checkinToday = newTopic,
      doneChan = 0, nextDone = 1, closedDone = [], busErr = None, pumps = [], settled = []\<rparr>"

definition makeDone :: "GuestCommunicationBus \<Rightarrow> GuestCommunicationBus" where
  "makeDone b = b\<lparr>busErr := None, doneChan := nextDone b, nextDone := Suc (nextDone b)\<rparr>"

definition StartBus :: "GuestCommunicationBus \<Rightarrow> GuestCommunicationBus" where
  "StartBus b = (let b' = makeDone b in b'\<lparr>pumps := pumps b' @ [doneChan b']\<rparr>)"

definition DoneClosed :: "GuestCommunicationBus \<Rightarrow> bool" where
  "DoneClosed b \<longleftrightarrow> doneChan b \<in> set (closedDone b)"

definition Reset :: "GuestCommunicationBus \<Rightarrow> GuestCommunicationBus" where
  "Reset b = makeDone
     (b\<lparr>paymentRequests := resetTopic (paymentRequests b),
        bookingConfirmations := resetTopic (bookingConfirmations b),
        checkinToday := resetTopic (checkinToday b)\<rparr>)"

text \<open>
  What the runtime decides: \<open>proto.Unmarshal\<close> for the three messages (\<open>None\<close> is an
  error) and the iteration order of maps.
\<close>

record Runtime =
  protoPaymentRequest :: "string \<Rightarrow> PaymentRequest option"
  protoBookingConfirmed :: "string \<Rightarrow> BookingConfirmedNotificationEvent option"
  protoCheckInToday :: "string \<Rightarrow> CheckInTodayNotification option"
  mapOrder :: "nat list \<Rightarrow> nat list"

definition handleDelivery :: "Runtime \<Rightarrow> Delivery \<Rightarrow> GuestCommunicationBus \<Rightarrow> error + GuestCommunicationBus" where
  "handleDelivery R d b =
     (let messageType = deliveryHeader d ''message_type'' in
      if messageType = paymentRequestMessageType then
        (case protoPaymentRequest R (DeliveryBody d) of
           None \<Rightarrow> Inl (Wrapf ''unmarshal payment request: '' (Ext ''proto''))
         | Some msg \<Rightarrow> Inr (b\<lparr>paymentRequests := publish (mapOrder R) msg (paymentRequests b)\<rparr>))
      else if messageType = bookingConfirmationMessageType then
        (case protoBookingConfirmed R (DeliveryBody d) of
           None \<Rightarrow> Inl (Wrapf ''unmarshal booking confirmation: '' (Ext ''proto''))
         | Some msg \<Rightarrow> Inr (b\<lparr>bookingConfirmations := publish (mapOrder R) msg (bookingConfirmations b)\<rparr>))
      else if messageType = checkinTodayMessageType then
        (case protoCheckInToday R (DeliveryBody d) of
           None \<Rightarrow> Inl (Wrapf ''unmarshal checkin today: '' (Ext ''proto''))
         | Some msg \<Rightarrow> Inr (b\<lparr>checkinToday := publish (mapOrder R) msg (checkinToday b)\<rparr>))
      else Inl (Errorf (''unsupported message_type '' @ Quote messageType)))"

text \<open>
  A delivery is settled alone, and a rejected one is not requeued; an error of the broker is
  only logged.
\<close>

definition ackDelivery :: "Delivery \<Rightarrow> GuestCommunicationBus \<Rightarrow> GuestCommunicationBus" where
  [simp]: "ackDelivery d b = b\<lparr>settled := (d, True) # settled b\<rparr>"

definition nackDelivery :: "Delivery \<Rightarrow> GuestCommunicationBus \<Rightarrow> GuestCommunicationBus" where
  [simp]: "nackDelivery d b = b\<lparr>settled := (d, False) # settled b\<rparr>"

text \<open>The three cases of the loop of the pump that closes done channel \<open>k\<close>.\<close>

definition pumpDeliver :: "Runtime \<Rightarrow> Delivery \<Rightarrow> GuestCommunicationBus \<Rightarrow> GuestCommunicationBus" where
  "pumpDeliver R d b =
     (case handleDelivery R d b of
        Inl e \<Rightarrow> nackDelivery d b
      | Inr b' \<Rightarrow> ackDelivery d b')"

definition pumpStop :: "error \<Rightarrow> nat \<Rightarrow> GuestCommunicationBus \<Rightarrow> GuestCommunicationBus" where
  "pumpStop e k b = b\<lparr>busErr := Some e, pumps := removeAll k (pumps b), closedDone := k # closedDone b\<rparr>"

definition channelClosed :: error where
  "channelClosed = Errorf ''guest communication channel closed''"

subsection \<open>Facts about a topic\<close>

text \<open>What \<open>publish\<close> does: every free subscriber gets the message, or it is queued.\<close>

lemma publish_effect:
  assumes "setInv (chans t)" and "iterationOrder ord"
  shows "publish ord msg t =
    (if idle t then t\<lparr>buffers := (\<lambda>ch. if ch \<in> set (items (chans t)) \<and> buffers t ch = [] then [msg] else buffers t ch)\<rparr>
     else t\<lparr>pendingMsgs := pendingMsgs t @ [msg]\<rparr>)"
  using notify_all [OF assms, of msg] by (simp add: publish_def notify_not_idle)

lemma topicInv_topic:
  assumes "topicInv t"
  shows "iterationOrder ord \<Longrightarrow> topicInv (publish ord msg t)" and "topicInv (resetTopic t)"
    and "takePending t = Some (m, t') \<Longrightarrow> topicInv t'"
proof -
  have si: "setInv (chans t)" using assms by (simp add: topicInv_def)
  show "iterationOrder ord \<Longrightarrow> topicInv (publish ord msg t)"
    using assms by (auto simp: publish_effect [OF si] topicInv_def)
  show "topicInv (resetTopic t)" using assms by (auto simp: topicInv_def resetTopic_def gs.inv_new gs.elems_new)
  show "takePending t = Some (m, t') \<Longrightarrow> topicInv t'"
    using assms by (auto simp: takePending_def topicInv_def split: list.splits)
qed

lemma topicInv_new: "topicInv newTopic"
  by (simp add: topicInv_def newTopic_def gs.inv_new gs.elems_new)

subsection \<open>The topics of the bus\<close>

definition decodePayment :: "Runtime \<Rightarrow> Delivery \<Rightarrow> PaymentRequest option" where
  "decodePayment R d =
     (if deliveryHeader d ''message_type'' = paymentRequestMessageType then protoPaymentRequest R (DeliveryBody d) else None)"

definition decodeConfirmation :: "Runtime \<Rightarrow> Delivery \<Rightarrow> BookingConfirmedNotificationEvent option" where
  "decodeConfirmation R d =
     (if deliveryHeader d ''message_type'' = bookingConfirmationMessageType
      then protoBookingConfirmed R (DeliveryBody d) else None)"

definition decodeCheckin :: "Runtime \<Rightarrow> Delivery \<Rightarrow> CheckInTodayNotification option" where
  "decodeCheckin R d =
     (if deliveryHeader d ''message_type'' = checkinTodayMessageType then protoCheckInToday R (DeliveryBody d) else None)"

lemma messageTypes_distinct [simp]:
  "bookingConfirmationMessageType \<noteq> paymentRequestMessageType" "checkinTodayMessageType \<noteq> paymentRequestMessageType"
  "checkinTodayMessageType \<noteq> bookingConfirmationMessageType"
  "paymentRequestMessageType \<noteq> bookingConfirmationMessageType" "paymentRequestMessageType \<noteq> checkinTodayMessageType"
  "bookingConfirmationMessageType \<noteq> checkinTodayMessageType"
  by (simp_all add: paymentRequestMessageType_def bookingConfirmationMessageType_def checkinTodayMessageType_def)

text \<open>What a waiter relies on, for the topic it reads.\<close>

locale bus_topic =
  fixes get :: "GuestCommunicationBus \<Rightarrow> 'm Topic"
    and upd :: "('m Topic \<Rightarrow> 'm Topic) \<Rightarrow> GuestCommunicationBus \<Rightarrow> GuestCommunicationBus"
    and decode :: "Runtime \<Rightarrow> Delivery \<Rightarrow> 'm option"
  assumes get_upd: "get (upd f b) = f (get b)"
    and frame: "DoneClosed (upd f b) = DoneClosed b" "busErr (upd f b) = busErr b" "settled (upd f b) = settled b"
    and get_deliver: "get (pumpDeliver R d b) =
      (case decode R d of None \<Rightarrow> get b | Some m \<Rightarrow> publish (mapOrder R) m (get b))"
    and get_stop: "get (pumpStop e k b) = get b"
    and get_start: "get (StartBus b) = get b"
    and get_reset: "get (Reset b) = resetTopic (get b)"
begin

text \<open>A delivery for the topic is queued or reaches a subscriber; any other leaves the topic alone.\<close>

lemma deliver_kept:
  assumes "topicInv (get b)" and "iterationOrder (mapOrder R)" and "decode R d = Some m"
  shows "m \<in> set (pendingMsgs (get (pumpDeliver R d b)))
    \<or> (\<exists>ch \<in> set (items (chans (get b))). buffers (get (pumpDeliver R d b)) ch = [m])"
  using assms publish_effect [of "get b" "mapOrder R" m]
  by (auto simp: get_deliver topicInv_def idle_def)

lemma deliver_inv: "topicInv (get b) \<Longrightarrow> iterationOrder (mapOrder R) \<Longrightarrow> topicInv (get (pumpDeliver R d b))"
  by (cases "decode R d") (simp_all add: get_deliver topicInv_topic(1))

lemma deliver_other: "decode R d = None \<Longrightarrow> get (pumpDeliver R d b) = get b"
  by (simp add: get_deliver)

end

lemmas bus_step_defs = pumpDeliver_def handleDelivery_def pumpStop_def StartBus_def makeDone_def Reset_def DoneClosed_def
  Let_def

interpretation payments: bus_topic paymentRequests paymentRequests_update decodePayment
  by unfold_locales (auto simp: bus_step_defs decodePayment_def split: option.splits)

interpretation confirmations: bus_topic bookingConfirmations bookingConfirmations_update decodeConfirmation
  by unfold_locales (auto simp: bus_step_defs decodeConfirmation_def split: option.splits)

interpretation checkins: bus_topic checkinToday checkinToday_update decodeCheckin
  by unfold_locales (auto simp: bus_step_defs decodeCheckin_def split: option.splits)

text \<open>A delivery is acknowledged exactly when one of the three decoders accepts it.\<close>

lemma pumpDeliver_settled:
  "settled (pumpDeliver R d b) = (d, decodePayment R d \<noteq> None \<or> decodeConfirmation R d \<noteq> None \<or> decodeCheckin R d \<noteq> None) # settled b"
  by (auto simp: bus_step_defs decodePayment_def decodeConfirmation_def decodeCheckin_def split: option.splits)

end
