(* ===== verification/Timeevents.thy ===== *)
theory Timeevents
  imports Messages Channels
begin

text \<open>
  The hour events: \<open>timeEventService\<close>
  (internal/app/services/time\_event\_service.go) and \<open>HourNotification\<close>
  (internal/app/services/hour\_notification\_service.go). The service receives an event,
  remembers its time, and offers it to the registered channels; one goroutine per
  \<open>HourNotification\<close> call filters the events of its channel by the hour and passes
  them on to a channel of capacity one.

  The steps of the goroutines are functions on the state of the hub, one per atomic step
  of the code. The service reads the list of subscribers under its lock and sends to them
  after it has given the lock back, so the list and each send are steps of their own, between which
  subscribers come, go and read; \<open>hubNotify\<close> is the rest of a notification without interruption.
\<close>

datatype HourPc = NotRegistered | Listening | Publishing Time | Finished

text \<open>
  A goroutine in \<open>HourNotification\<close>; \<open>hn_timerCh\<close> is the buffer of the caller's channel. The hub is shared by
  all journeys: \<open>hn_mine\<close> says that the caller is the journey at hand, \<open>hn_cancelled\<close> that the
  context it was started with has been cancelled.
\<close>

record HourNotifier =
  hn_hour :: int
  hn_events :: nat
  hn_timerCh :: "Time list"
  hn_pc :: HourPc
  hn_mine :: bool
  hn_cancelled :: bool

text \<open>
  Where the goroutine of \<open>Start\<close> is: before the answer of \<open>Consume\<close>, in its loop, or
  returned. \<open>main\<close> starts it once and nothing starts it again.
\<close>

datatype ServicePc = Starting | Consuming | ServiceStopped

text \<open>
  \<open>notifying\<close>: the event whose notification is under way; \<open>sendingTo\<close>: the channels it is still to
  be sent to, once they have been listed; \<open>timeSettled\<close>: the
  deliveries acknowledged (\<open>True\<close>) or rejected.
\<close>

record TimeHub =
  servicePc :: ServicePc
  hourChangeChannels :: "Time Channels"
  currentTime :: Time
  hasCurrentTime :: bool
  notifying :: "Time option"
  sendingTo :: "nat list option"
  timeSettled :: "(string \<times> bool) list"
  notifiers :: "HourNotifier list"

definition NewTimeEventService :: TimeHub where
  "NewTimeEventService =
     \<lparr>servicePc = Starting, hourChangeChannels = \<lparr>chans = NewSet, buffers = (\<lambda>_. []), nextChan = 0\<rparr>, currentTime = zeroTime,
      hasCurrentTime = False, notifying = None, sendingTo = None, timeSettled = [], notifiers = []\<rparr>"

text \<open>The constructor refuses a nil client.\<close>

definition makeTimeEventService :: "bool \<Rightarrow> error + TimeHub" where
  "makeTimeEventService client = (if \<not> client then Inl (Errorf ''hourChangeClient is nil'') else Inr NewTimeEventService)"

subsection \<open>timeEventService\<close>

datatype TimeEventType = TimeEventHourChange | OtherTimeEvent string

text \<open>\<open>Register\<close> and \<open>Unregister\<close>; \<open>None\<close> is a nil channel.\<close>

definition Register :: "TimeEventType \<Rightarrow> nat option \<Rightarrow> TimeHub \<Rightarrow> TimeHub" where
  "Register eventType ch h =
     (case ch of
        None \<Rightarrow> h
      | Some c \<Rightarrow>
          (case eventType of
             TimeEventHourChange \<Rightarrow> h\<lparr>hourChangeChannels := subscribe c (hourChangeChannels h)\<rparr>
           | OtherTimeEvent _ \<Rightarrow> h))"

definition Unregister :: "TimeEventType \<Rightarrow> nat option \<Rightarrow> TimeHub \<Rightarrow> TimeHub" where
  "Unregister eventType ch h =
     (case ch of
        None \<Rightarrow> h
      | Some c \<Rightarrow>
          (case eventType of
             TimeEventHourChange \<Rightarrow> h\<lparr>hourChangeChannels := unsubscribe c (hourChangeChannels h)\<rparr>
           | OtherTimeEvent _ \<Rightarrow> h))"

definition CurrentTime :: "TimeHub \<Rightarrow> Time \<times> bool" where
  "CurrentTime h = (if \<not> hasCurrentTime h then (zeroTime, False) else (currentTime h, True))"

text \<open>\<open>unmarshalTimeEvent\<close>; \<open>proto\<close> is \<open>proto.Unmarshal\<close>.\<close>

definition unmarshalTimeEvent :: "(string \<Rightarrow> TimeEvent option) \<Rightarrow> string \<Rightarrow> error + Time" where
  "unmarshalTimeEvent proto body =
     (case proto body of
        None \<Rightarrow> Inl (Ext ''proto'')
      | Some ev \<Rightarrow>
          (case te_Time ev of
             None \<Rightarrow> Inl (Errorf ''time event payload missing time'')
           | Some t \<Rightarrow> Inr (AsTime t)))"

text \<open>\<open>Consume\<close> answers: \<open>Start\<close> goes into its loop, or logs the error and returns.\<close>

definition hubStarted :: "bool \<Rightarrow> TimeHub \<Rightarrow> TimeHub" where
  "hubStarted ok h = (if servicePc h = Starting then h\<lparr>servicePc := (if ok then Consuming else ServiceStopped)\<rparr> else h)"

text \<open>In the select of \<open>Start\<close>, the context is done or the channel of deliveries closed: \<open>Start\<close> returns.\<close>

definition hubStopped :: "TimeHub \<Rightarrow> TimeHub" where
  "hubStopped h = (if servicePc h = Consuming \<and> notifying h = None then h\<lparr>servicePc := ServiceStopped\<rparr> else h)"

text \<open>\<open>ackDelivery\<close> and \<open>nackDelivery\<close> of the service.\<close>

definition ackTimeDelivery :: "string \<Rightarrow> TimeHub \<Rightarrow> TimeHub" where
  [simp]: "ackTimeDelivery body h = h\<lparr>timeSettled := (body, True) # timeSettled h\<rparr>"

definition nackTimeDelivery :: "string \<Rightarrow> TimeHub \<Rightarrow> TimeHub" where
  [simp]: "nackTimeDelivery body h = h\<lparr>timeSettled := (body, False) # timeSettled h\<rparr>"

text \<open>A delivery is taken: rejected, or acknowledged and its time stored.\<close>

definition hubReceive :: "(string \<Rightarrow> TimeEvent option) \<Rightarrow> string \<Rightarrow> TimeHub \<Rightarrow> TimeHub" where
  "hubReceive proto body h =
     (if servicePc h \<noteq> Consuming \<or> notifying h \<noteq> None then h
      else case unmarshalTimeEvent proto body of
        Inl e \<Rightarrow> nackTimeDelivery body h
      | Inr t \<Rightarrow> (ackTimeDelivery body h)\<lparr>currentTime := t, hasCurrentTime := True, notifying := Some t\<rparr>)"

text \<open>
  The second half of \<open>notifyHourChange\<close>: the subscribers are listed, then \<open>notify\<close> sends to one
  after the other, or skips a busy one.
\<close>

definition hubSend :: "(nat list \<Rightarrow> nat list) \<Rightarrow> TimeHub \<Rightarrow> TimeHub" where
  "hubSend ord h =
     (case notifying h of
        None \<Rightarrow> h
      | Some t \<Rightarrow>
          (case sendingTo h of
             None \<Rightarrow> h\<lparr>sendingTo := Some (Values ord (chans (hourChangeChannels h)))\<rparr>
           | Some [] \<Rightarrow> h\<lparr>notifying := None, sendingTo := None\<rparr>
           | Some (ch # chs) \<Rightarrow>
               h\<lparr>sendingTo := Some chs, hourChangeChannels := snd (notifySubscribers [ch] t (hourChangeChannels h))\<rparr>))"

definition hubNotify :: "(nat list \<Rightarrow> nat list) \<Rightarrow> TimeHub \<Rightarrow> TimeHub" where
  "hubNotify ord h =
     (case notifying h of
        None \<Rightarrow> h
      | Some t \<Rightarrow>
          (let channels = (case sendingTo h of None \<Rightarrow> Values ord (chans (hourChangeChannels h)) | Some chs \<Rightarrow> chs)
           in h\<lparr>notifying := None, sendingTo := None,
                hourChangeChannels := snd (notifySubscribers channels t (hourChangeChannels h))\<rparr>))"

lemma notify_split: "snd (notifySubscribers (ch # chs) t cs) = snd (notifySubscribers chs t (snd (notifySubscribers [ch] t cs)))"
  by simp

lemma hubNotify_listed: "notifying h = Some t \<Longrightarrow> sendingTo h = Some chs \<Longrightarrow> hubNotify ord h = (hubSend ord ^^ Suc (length chs)) h"
proof (induction chs arbitrary: h)
  case Nil
  then show ?case by (simp add: hubNotify_def hubSend_def)
next
  case (Cons ch chs)
  have "hubNotify ord h = hubNotify ord (hubSend ord h)"
    using Cons.prems by (simp add: hubNotify_def hubSend_def Let_def)
  also have "\<dots> = (hubSend ord ^^ Suc (length chs)) (hubSend ord h)"
    by (rule Cons.IH) (use Cons.prems in \<open>simp_all add: hubSend_def\<close>)
  finally show ?case by (simp only: funpow_swap1 funpow.simps(2) o_apply list.size add_Suc_right add_0_right)
qed

text \<open>A notification without interruption is a run of its steps.\<close>

lemma hubNotify_sends: "\<exists>n. hubNotify ord h = (hubSend ord ^^ n) h"
proof (cases "notifying h")
  case None
  then show ?thesis by (intro exI [of _ 0]) (simp add: hubNotify_def)
next
  case (Some t)
  show ?thesis
  proof (cases "sendingTo h")
    case None
    let ?h = "hubSend ord h"
    have h: "notifying ?h = Some t" "sendingTo ?h = Some (Values ord (chans (hourChangeChannels h)))" "hubNotify ord h = hubNotify ord ?h"
      using Some None by (simp_all add: hubSend_def hubNotify_def)
    show ?thesis unfolding h(3) hubNotify_listed [OF h(1,2)] by (metis funpow_swap1 funpow.simps(2) o_apply)
  next
    case (Some chs)
    then show ?thesis using hubNotify_listed \<open>notifying h = Some t\<close> by blast
  qed
qed

subsection \<open>HourNotification\<close>

text \<open>\<open>go HourNotification(ctx, timerCh, hour)\<close>, with a fresh channel of capacity one.\<close>

definition newNotifier :: "bool \<Rightarrow> int \<Rightarrow> HourNotifier" where
  "newNotifier mine hour =
     \<lparr>hn_hour = hour, hn_events = 0, hn_timerCh = [], hn_pc = NotRegistered, hn_mine = mine, hn_cancelled = False\<rparr>"

definition spawnHourNotification :: "int \<Rightarrow> TimeHub \<Rightarrow> nat \<times> TimeHub" where
  "spawnHourNotification hour h = (length (notifiers h), h\<lparr>notifiers := notifiers h @ [newNotifier True hour]\<rparr>)"

definition setNotifier :: "nat \<Rightarrow> HourNotifier \<Rightarrow> TimeHub \<Rightarrow> TimeHub" where
  "setNotifier i n h = h\<lparr>notifiers := (notifiers h)[i := n]\<rparr>"

text \<open>One step of goroutine \<open>i\<close>; a step that cannot be taken yet leaves the hub as it is.\<close>

definition hourStep :: "nat \<Rightarrow> TimeHub \<Rightarrow> TimeHub" where
  "hourStep i h =
     (if length (notifiers h) \<le> i then h
      else let n = notifiers h ! i in
        case hn_pc n of
          NotRegistered \<Rightarrow>
            (let (ch, cs) = makeChan (hourChangeChannels h)
             in setNotifier i (n\<lparr>hn_events := ch, hn_pc := Listening\<rparr>)
                  (Register TimeEventHourChange (Some ch) (h\<lparr>hourChangeChannels := cs\<rparr>)))
        | Listening \<Rightarrow>
            (case receive (hn_events n) (hourChangeChannels h) of
               None \<Rightarrow> h
             | Some (t, cs) \<Rightarrow>
                 setNotifier i (n\<lparr>hn_pc := (if HourOf t = hn_hour n then Publishing t else Listening)\<rparr>)
                   (h\<lparr>hourChangeChannels := cs\<rparr>))
        | Publishing t \<Rightarrow>
            if length (hn_timerCh n) < 1
            then setNotifier i (n\<lparr>hn_timerCh := hn_timerCh n @ [t], hn_pc := Listening\<rparr>) h
            else h
        | Finished \<Rightarrow> h)"

text \<open>Goroutine \<open>i\<close> sees its context cancelled: it unregisters and returns.\<close>

definition hourCancel :: "nat \<Rightarrow> TimeHub \<Rightarrow> TimeHub" where
  "hourCancel i h =
     (if length (notifiers h) \<le> i then h
      else let n = notifiers h ! i in
        if hn_pc n = NotRegistered \<or> hn_pc n = Finished then h
        else setNotifier i (n\<lparr>hn_pc := Finished\<rparr>) (Unregister TimeEventHourChange (Some (hn_events n)) h))"

text \<open>The caller takes a notification from its channel.\<close>

definition takeNotification :: "nat \<Rightarrow> TimeHub \<Rightarrow> (Time \<times> TimeHub) option" where
  "takeNotification i h =
     (if length (notifiers h) \<le> i then None
      else let n = notifiers h ! i in
        case hn_timerCh n of [] \<Rightarrow> None | t # ts \<Rightarrow> Some (t, setNotifier i (n\<lparr>hn_timerCh := ts\<rparr>) h))"

text \<open>\<open>defer cancel()\<close> of the flow that runs the stay: the context of the journey's own notifiers is done.\<close>

definition cancelNotifiers :: "TimeHub \<Rightarrow> TimeHub" where
  "cancelNotifiers h = h\<lparr>notifiers := map (\<lambda>n. if hn_mine n then n\<lparr>hn_cancelled := True\<rparr> else n) (notifiers h)\<rparr>"

definition contextDone :: "nat \<Rightarrow> TimeHub \<Rightarrow> bool" where
  "contextDone i h \<longleftrightarrow> i < length (notifiers h) \<and> hn_cancelled (notifiers h ! i)"

text \<open>The same steps of another journey: it starts a notifier, takes from its channel, ends its stay.\<close>

definition spawnElsewhere :: "int \<Rightarrow> TimeHub \<Rightarrow> TimeHub" where
  "spawnElsewhere hour h = h\<lparr>notifiers := notifiers h @ [newNotifier False hour]\<rparr>"

definition foreign :: "nat \<Rightarrow> TimeHub \<Rightarrow> bool" where
  "foreign i h \<longleftrightarrow> i < length (notifiers h) \<and> \<not> hn_mine (notifiers h ! i)"

definition takeElsewhere :: "nat \<Rightarrow> TimeHub \<Rightarrow> TimeHub" where
  "takeElsewhere i h =
     (if foreign i h then (case takeNotification i h of None \<Rightarrow> h | Some (t, h') \<Rightarrow> h') else h)"

definition cancelElsewhere :: "nat \<Rightarrow> TimeHub \<Rightarrow> TimeHub" where
  "cancelElsewhere i h = (if foreign i h then setNotifier i ((notifiers h ! i)\<lparr>hn_cancelled := True\<rparr>) h else h)"

subsection \<open>The invariant of the hub\<close>

text \<open>
  Buffers hold at most one event; every goroutine only handles events of its hour; the
  channels of the listening goroutines are registered, those of the finished ones are not; they were made before
  and are not shared.
\<close>

definition notifierOk :: "Time Channels \<Rightarrow> HourNotifier \<Rightarrow> bool" where
  "notifierOk cs n \<longleftrightarrow> length (hn_timerCh n) \<le> 1 \<and> (\<forall>t \<in> set (hn_timerCh n). HourOf t = hn_hour n)
     \<and> (case hn_pc n of
          NotRegistered \<Rightarrow> hn_timerCh n = []
        | Finished \<Rightarrow> hn_events n < nextChan cs \<and> hn_events n \<notin> set (items (chans cs))
        | Listening \<Rightarrow> hn_events n < nextChan cs \<and> hn_events n \<in> set (items (chans cs))
        | Publishing t \<Rightarrow> HourOf t = hn_hour n \<and> hn_events n < nextChan cs \<and> hn_events n \<in> set (items (chans cs)))"

definition ownChannels :: "HourNotifier list \<Rightarrow> bool" where
  "ownChannels nts \<longleftrightarrow> (\<forall>i < length nts. \<forall>j < length nts. i \<noteq> j \<longrightarrow> hn_pc (nts ! i) \<noteq> NotRegistered \<longrightarrow>
     hn_pc (nts ! j) \<noteq> NotRegistered \<longrightarrow> hn_events (nts ! i) \<noteq> hn_events (nts ! j))"

definition hubInv :: "TimeHub \<Rightarrow> bool" where
  "hubInv h \<longleftrightarrow> topicInv (hourChangeChannels h) \<and> (\<forall>n \<in> set (notifiers h). notifierOk (hourChangeChannels h) n)
     \<and> ownChannels (notifiers h) \<and> (notifying h = None \<longrightarrow> sendingTo h = None)
     \<and> (\<forall>chs. sendingTo h = Some chs \<longrightarrow> (\<forall>ch \<in> set chs. ch < nextChan (hourChangeChannels h)))"

text \<open>The steps of the hub, as a relation; \<open>hubReach\<close> is what any interleaving reaches.\<close>

inductive hubStep :: "(nat list \<Rightarrow> nat list) \<Rightarrow> (string \<Rightarrow> TimeEvent option) \<Rightarrow> TimeHub \<Rightarrow> TimeHub \<Rightarrow> bool"
  for ord proto where
  started: "hubStep ord proto h (hubStarted ok h)"
| stopped: "hubStep ord proto h (hubStopped h)"
| receive: "hubStep ord proto h (hubReceive proto body h)"
| notify: "hubStep ord proto h (hubNotify ord h)"
| send: "hubStep ord proto h (hubSend ord h)"
| spawn: "hubStep ord proto h (snd (spawnHourNotification hour h))"
| elsewhere: "hubStep ord proto h (spawnElsewhere hour h)"
| flowEnds: "hubStep ord proto h (cancelNotifiers h)"
| flowEndsElsewhere: "hubStep ord proto h (cancelElsewhere i h)"
| listen: "hubStep ord proto h (hourStep i h)"
| cancel: "hubStep ord proto h (hourCancel i h)"
| taken: "takeNotification i h = Some (t, h') \<Longrightarrow> hubStep ord proto h h'"
| takenElsewhere: "hubStep ord proto h (takeElsewhere i h)"

inductive hubReach :: "(nat list \<Rightarrow> nat list) \<Rightarrow> (string \<Rightarrow> TimeEvent option) \<Rightarrow> TimeHub \<Rightarrow> bool"
  for ord proto where
  init: "hubReach ord proto NewTimeEventService"
| step: "hubReach ord proto h \<Longrightarrow> hubStep ord proto h h' \<Longrightarrow> hubReach ord proto h'"

subsection \<open>Every interleaving keeps the invariant\<close>

lemma notifierOk_cong:
  "chans cs' = chans cs \<Longrightarrow> nextChan cs' = nextChan cs \<Longrightarrow> notifierOk cs' n = notifierOk cs n"
  by (simp add: notifierOk_def split: HourPc.splits)

lemma notifierOk_grow:
  "notifierOk cs n \<Longrightarrow> set (items (chans cs')) = insert (nextChan cs) (set (items (chans cs))) \<Longrightarrow> nextChan cs \<le> nextChan cs'
     \<Longrightarrow> notifierOk cs' n"
  by (auto simp: notifierOk_def split: HourPc.splits)

lemma ownChannels_update:
  assumes "ownChannels nts"
    and "\<And>j. j < length nts \<Longrightarrow> j \<noteq> i \<Longrightarrow> hn_pc (nts ! j) \<noteq> NotRegistered \<Longrightarrow> hn_events (nts ! j) \<noteq> hn_events n"
  shows "ownChannels (nts[i := n])"
  unfolding ownChannels_def
proof (intro allI impI)
  fix a b
  assume ab: "a < length (nts[i := n])" "b < length (nts[i := n])" "a \<noteq> b"
    and reg: "hn_pc (nts[i := n] ! a) \<noteq> NotRegistered" "hn_pc (nts[i := n] ! b) \<noteq> NotRegistered"
  show "hn_events (nts[i := n] ! a) \<noteq> hn_events (nts[i := n] ! b)"
  proof (cases "a = i \<or> b = i")
    case True
    then show ?thesis using ab reg assms(2) [of a] assms(2) [of b] by (cases "a = i") auto
  next
    case False
    then show ?thesis using ab reg assms(1) by (simp add: ownChannels_def)
  qed
qed

lemma hubInv_updated:
  assumes inv: "hubInv h" and i: "i < length (notifiers h)"
    and cs: "topicInv cs" "\<And>m. m \<in> set (notifiers h) \<Longrightarrow> notifierOk cs m"
    and n: "notifierOk cs n" and ev: "hn_events n = hn_events (notifiers h ! i)"
    and pc: "hn_pc (notifiers h ! i) \<noteq> NotRegistered" and next_chan: "nextChan cs = nextChan (hourChangeChannels h)"
  shows "hubInv (setNotifier i n (h\<lparr>hourChangeChannels := cs\<rparr>))"
proof -
  have own: "ownChannels (notifiers h)" using inv by (simp add: hubInv_def)
  have "ownChannels ((notifiers h)[i := n])"
    by (rule ownChannels_update [OF own]) (use own i ev pc in \<open>simp add: ownChannels_def\<close>)
  with cs n inv next_chan show ?thesis
    by (auto simp: hubInv_def setNotifier_def dest!: set_update_subset_insert [THEN subsetD])
qed

lemma hubSend_inv:
  assumes inv: "hubInv h" and ord: "iterationOrder ord"
  shows "hubInv (hubSend ord h)"
proof -
  let ?cs = "hourChangeChannels h"
  have tinv: "topicInv ?cs" and si: "setInv (chans ?cs)" using inv by (simp_all add: hubInv_def topicInv_def)
  have listed: "\<forall>ch \<in> set (Values ord (chans ?cs)). ch < nextChan ?cs"
    using gs.vals_spec [OF si ord] tinv by (simp add: topicInv_def)
  have "topicInv (snd (notifySubscribers [ch] t ?cs))" if "sendingTo h = Some (ch # chs)" for ch chs t
    using tinv that inv by (intro topicInv_send) (auto simp: hubInv_def)
  moreover have "notifierOk (snd (notifySubscribers [ch] t ?cs)) n = notifierOk ?cs n" for ch t n
    by (intro notifierOk_cong) (rule notify_frame)+
  moreover have "nextChan (snd (notifySubscribers [ch] t ?cs)) = nextChan ?cs" for ch t by (rule notify_frame)
  ultimately show ?thesis
    using inv listed unfolding hubSend_def
    by (auto simp del: notifySubscribers.simps simp: hubInv_def split: option.splits list.splits)
qed

lemma hubNotify_inv:
  assumes "hubInv h" and "iterationOrder ord"
  shows "hubInv (hubNotify ord h)"
proof -
  have "hubInv ((hubSend ord ^^ n) h)" for n using assms by (induction n) (simp_all add: hubSend_inv)
  then show ?thesis using hubNotify_sends [of ord h] by metis
qed

lemma register_inv:
  assumes inv: "hubInv h" and i: "i < length (notifiers h)" and pc: "hn_pc (notifiers h ! i) = NotRegistered"
  shows "hubInv (hourStep i h)"
proof -
  let ?old = "hourChangeChannels h" and ?n = "notifiers h ! i"
  let ?k = "nextChan ?old"
  let ?cs = "subscribe ?k (snd (makeChan ?old))"
  let ?n' = "?n\<lparr>hn_events := ?k, hn_pc := Listening\<rparr>"
  have tinv: "topicInv ?old" and ok: "\<forall>m \<in> set (notifiers h). notifierOk ?old m" and own: "ownChannels (notifiers h)"
    using inv by (auto simp: hubInv_def)
  have si: "setInv (chans ?old)" using tinv by (simp add: topicInv_def)
  have step: "hourStep i h = setNotifier i ?n' (h\<lparr>hourChangeChannels := ?cs\<rparr>)"
    using i pc by (simp add: hourStep_def Let_def makeChan_def Register_def)
  have "topicInv ?cs" using topicInv_ops(3) [OF tinv, of ?k "snd (makeChan ?old)"] by (simp add: makeChan_def)
  moreover have grow: "set (items (chans ?cs)) = insert ?k (set (items (chans ?old)))" "nextChan ?cs = Suc ?k"
    by (simp_all add: subscribe_def makeChan_def gs.elems_add [OF si])
  then have "\<forall>m \<in> set (notifiers h). notifierOk ?cs m"
    using ok notifierOk_grow [of ?old _ ?cs] by auto
  moreover have "notifierOk ?cs ?n'"
    using grow ok nth_mem [OF i] pc by (auto simp: notifierOk_def)
  moreover have "ownChannels ((notifiers h)[i := ?n'])"
  proof -
    have "hn_events (notifiers h ! j) < ?k" if "j < length (notifiers h)" "hn_pc (notifiers h ! j) \<noteq> NotRegistered" for j
      using bspec [OF ok nth_mem [OF that(1)]] that(2) by (cases "hn_pc (notifiers h ! j)") (auto simp: notifierOk_def)
    then show ?thesis by (intro ownChannels_update [OF own]) (simp add: less_imp_neq)
  qed
  moreover have "ch < nextChan ?cs" if "sendingTo h = Some chs" "ch \<in> set chs" for chs ch
    using inv that grow(2) by (fastforce simp: hubInv_def)
  ultimately show ?thesis using inv
    unfolding step by (auto simp: hubInv_def setNotifier_def dest!: set_update_subset_insert [THEN subsetD])
qed

lemma hourStep_inv:
  assumes inv: "hubInv h"
  shows "hubInv (hourStep i h)"
proof (cases "i < length (notifiers h)")
  case i: True
  let ?n = "notifiers h ! i" and ?cs = "hourChangeChannels h"
  have tinv: "topicInv ?cs" and ok: "\<forall>m \<in> set (notifiers h). notifierOk ?cs m"
    using inv by (auto simp: hubInv_def)
  have n: "notifierOk ?cs ?n" using ok nth_mem [OF i] by blast
  show ?thesis
  proof (cases "hn_pc ?n")
    case NotRegistered
    then show ?thesis by (rule register_inv [OF inv i])
  next
    case Listening
    show ?thesis
    proof (cases "receive (hn_events ?n) ?cs")
      case None
      then show ?thesis using inv i Listening by (simp add: hourStep_def Let_def)
    next
      case (Some p)
      then obtain t cs where p: "receive (hn_events ?n) ?cs = Some (t, cs)" by (cases p) auto
      have same: "notifierOk cs m = notifierOk ?cs m" for m
        using p by (intro notifierOk_cong) (auto simp: receive_def split: list.splits)
      have "hubInv (setNotifier i (?n\<lparr>hn_pc := (if HourOf t = hn_hour ?n then Publishing t else Listening)\<rparr>)
          (h\<lparr>hourChangeChannels := cs\<rparr>))"
      proof (rule hubInv_updated [OF inv i topicInv_ops(2) [OF tinv p]])
        show "m \<in> set (notifiers h) \<Longrightarrow> notifierOk cs m" for m using ok by (simp add: same)
        show "notifierOk cs (?n\<lparr>hn_pc := (if HourOf t = hn_hour ?n then Publishing t else Listening)\<rparr>)"
          using n Listening unfolding same by (simp add: notifierOk_def)
      qed (use Listening p in \<open>auto simp: receive_def split: list.splits\<close>)
      then show ?thesis using i Listening p by (simp add: hourStep_def Let_def)
    qed
  next
    case (Publishing t)
    then have "length (hn_timerCh ?n) < 1 \<Longrightarrow> hubInv (setNotifier i
        (?n\<lparr>hn_timerCh := hn_timerCh ?n @ [t], hn_pc := Listening\<rparr>) (h\<lparr>hourChangeChannels := ?cs\<rparr>))"
      using inv i tinv ok n by (intro hubInv_updated) (auto simp: notifierOk_def)
    then show ?thesis using i Publishing inv by (simp add: hourStep_def Let_def)
  qed (use inv i in \<open>simp add: hourStep_def Let_def\<close>)
qed (use inv in \<open>simp add: hourStep_def\<close>)

lemma hourCancel_inv:
  assumes inv: "hubInv h"
  shows "hubInv (hourCancel i h)"
proof (cases "i < length (notifiers h) \<and> hn_pc (notifiers h ! i) \<noteq> NotRegistered \<and> hn_pc (notifiers h ! i) \<noteq> Finished")
  case True
  let ?n = "notifiers h ! i" and ?cs = "hourChangeChannels h"
  let ?cs' = "unsubscribe (hn_events ?n) ?cs" and ?n' = "?n\<lparr>hn_pc := Finished\<rparr>"
  have tinv: "topicInv ?cs" and ok: "\<forall>m \<in> set (notifiers h). notifierOk ?cs m" and own: "ownChannels (notifiers h)"
    using inv by (auto simp: hubInv_def)
  have si: "setInv (chans ?cs)" using tinv by (simp add: topicInv_def)
  have el: "set (items (chans ?cs')) = set (items (chans ?cs)) - {hn_events ?n}" "nextChan ?cs' = nextChan ?cs"
    by (simp_all add: unsubscribe_def gs.elems_remove [OF si])
  have "notifierOk ?cs' (notifiers h ! j)" if "j < length (notifiers h)" "j \<noteq> i" for j
  proof -
    have "notifierOk ?cs (notifiers h ! j)" using ok nth_mem [OF that(1)] by blast
    moreover have "hn_pc (notifiers h ! j) \<noteq> NotRegistered \<Longrightarrow> hn_events (notifiers h ! j) \<noteq> hn_events ?n"
      using own that True by (simp add: ownChannels_def)
    ultimately show ?thesis using el by (auto simp: notifierOk_def split: HourPc.splits)
  qed
  moreover have "notifierOk ?cs' ?n'"
  proof -
    have "notifierOk ?cs ?n" using ok nth_mem [of i "notifiers h"] True by blast
    then show ?thesis using True el by (auto simp: notifierOk_def split: HourPc.splits)
  qed
  ultimately have "\<forall>m \<in> set ((notifiers h)[i := ?n']). notifierOk ?cs' m"
    by (metis in_set_conv_nth length_list_update nth_list_update nth_list_update_neq True)
  moreover have "ownChannels ((notifiers h)[i := ?n'])"
    by (rule ownChannels_update [OF own]) (use own True in \<open>simp add: ownChannels_def\<close>)
  moreover have "topicInv ?cs'" using topicInv_ops(1) [OF tinv] .
  moreover have "hourCancel i h = h\<lparr>hourChangeChannels := ?cs', notifiers := (notifiers h)[i := ?n']\<rparr>"
    using True by (auto simp: hourCancel_def Let_def Unregister_def setNotifier_def not_le)
  ultimately show ?thesis using inv el(2) by (simp add: hubInv_def)
qed (use inv in \<open>auto simp: hourCancel_def Let_def not_le\<close>)

lemma takeNotification_inv:
  assumes inv: "hubInv h" and "takeNotification i h = Some (t, h')"
  shows "hubInv h' \<and> i < length (notifiers h) \<and> HourOf t = hn_hour (notifiers h ! i)"
proof -
  let ?n = "notifiers h ! i"
  from assms(2) obtain ts where i: "i < length (notifiers h)" and tch: "hn_timerCh ?n = t # ts"
    and h': "h' = setNotifier i (?n\<lparr>hn_timerCh := ts\<rparr>) (h\<lparr>hourChangeChannels := hourChangeChannels h\<rparr>)"
    by (auto simp: takeNotification_def Let_def split: if_splits list.splits)
  have ok: "\<forall>m \<in> set (notifiers h). notifierOk (hourChangeChannels h) m" and tinv: "topicInv (hourChangeChannels h)"
    using inv by (auto simp: hubInv_def)
  have n: "notifierOk (hourChangeChannels h) ?n" using ok nth_mem [OF i] by blast
  then have pc: "hn_pc ?n \<noteq> NotRegistered" using tch by (auto simp: notifierOk_def)
  have "hubInv h'" unfolding h'
    using inv i tinv ok n pc tch by (intro hubInv_updated) (auto simp: notifierOk_def split: HourPc.splits)
  then show ?thesis using i n tch by (simp add: notifierOk_def)
qed

lemma marked_ok [simp]: "notifierOk cs (n\<lparr>hn_cancelled := b\<rparr>) = notifierOk cs n"
  by (simp add: notifierOk_def split: HourPc.splits)

lemma cancelNotifiers_inv: "hubInv h \<Longrightarrow> hubInv (cancelNotifiers h)"
  by (auto simp: hubInv_def cancelNotifiers_def ownChannels_def)

lemma elsewhere_inv:
  assumes inv: "hubInv h"
  shows "hubInv (spawnElsewhere hour h)" "hubInv (takeElsewhere i h)" "hubInv (cancelElsewhere i h)"
proof -
  show "hubInv (spawnElsewhere hour h)"
    using inv by (auto simp: spawnElsewhere_def newNotifier_def hubInv_def notifierOk_def ownChannels_def nth_append)
  show "hubInv (takeElsewhere i h)"
    using inv takeNotification_inv [OF inv] by (auto simp: takeElsewhere_def split: option.splits)
  show "hubInv (cancelElsewhere i h)"
  proof (cases "foreign i h")
    case True
    let ?n = "(notifiers h ! i)\<lparr>hn_cancelled := True\<rparr>"
    have own: "ownChannels ((notifiers h)[i := ?n])"
      using inv True by (auto simp: hubInv_def ownChannels_def foreign_def nth_list_update)
    have "notifierOk (hourChangeChannels h) ?n" using inv True by (simp add: hubInv_def foreign_def)
    then show ?thesis
      using inv own True by (auto simp: cancelElsewhere_def hubInv_def setNotifier_def dest!: set_update_subset_insert [THEN subsetD])
  qed (use inv in \<open>simp add: cancelElsewhere_def\<close>)
qed

lemma hubStep_inv:
  assumes "iterationOrder ord" and "hubStep ord proto h h'" and inv: "hubInv h"
  shows "hubInv h'"
  using assms(2)
proof (cases rule: hubStep.cases)
  case (started ok)
  then show ?thesis using inv by (auto simp: hubStarted_def hubInv_def)
next
  case stopped
  then show ?thesis using inv by (auto simp: hubStopped_def hubInv_def)
next
  case (receive body)
  then show ?thesis using inv by (auto simp: hubReceive_def hubInv_def split: sum.splits)
next
  case notify
  then show ?thesis using hubNotify_inv [OF inv assms(1)] by simp
next
  case send
  then show ?thesis using hubSend_inv [OF inv assms(1)] by simp
next
  case (spawn hour)
  then show ?thesis using inv
    by (auto simp: spawnHourNotification_def newNotifier_def hubInv_def notifierOk_def ownChannels_def nth_append)
next
  case (listen i)
  then show ?thesis using hourStep_inv [OF inv] by simp
next
  case (cancel i)
  then show ?thesis using hourCancel_inv [OF inv] by simp
next
  case (taken i t)
  then show ?thesis using takeNotification_inv [OF inv] by blast
qed (use cancelNotifiers_inv [OF inv] elsewhere_inv [OF inv] in simp_all)

lemma hubInv_new: "hubInv NewTimeEventService"
  by (simp add: hubInv_def NewTimeEventService_def topicInv_def gs.inv_new gs.elems_new ownChannels_def)

lemma hubReach_inv: "hubReach ord proto h \<Longrightarrow> iterationOrder ord \<Longrightarrow> hubInv h"
  by (induction rule: hubReach.induct) (auto intro: hubInv_new hubStep_inv)

end
