(* ===== verification/Chat.thy ===== *)
theory Chat
  imports Messages World
begin

text \<open>
  The lodging chat client (internal/infra/websocket/lodging\_chat.go): the state of a
  \<open>Client\<close>, and the steps of the goroutine \<open>readLoop\<close>. The operations of the client
  that block (\<open>SendAction\<close>, \<open>Reply\<close>, \<open>WaitForNextSystemMessage\<close>) are in
  theory \<open>Chatops\<close>, after blocking is defined. The websocket connection, the JSON
  form of the messages, fresh identifiers and trace propagation are parameters, the fields
  of \<open>Net\<close>.
\<close>

record 'x Net =
  wsDial :: "string \<Rightarrow> 'x \<Rightarrow> unit res \<times> 'x"
  wsSetWriteDeadline :: "'x \<Rightarrow> unit res \<times> 'x"
  wsWriteMessage :: "string \<Rightarrow> 'x \<Rightarrow> unit res \<times> 'x"
  wsClose :: "'x \<Rightarrow> unit res \<times> 'x"
  uuidNewString :: "'x \<Rightarrow> string \<times> 'x"
  traceInject :: "'x \<Rightarrow> (string \<times> string) list \<times> 'x"
  protojsonMarshal :: "ChatMessage \<Rightarrow> string option"
  protojsonUnmarshal :: "string \<Rightarrow> ChatMessage option"

definition protocolVersion :: string where
  "protocolVersion = ''lodging.v1''"

text \<open>Where \<open>readLoop\<close> is: reading, or about to put a message into a channel.\<close>

datatype ReadPc = Reading | PutAck ChatMessage | PutInbound ChatMessage | ReadStopped

record Client =
  inboundCh :: "ChatMessage list"
  ackCh :: "ChatMessage list"
  errCh :: "error list"
  chatPending :: "ChatMessage list"
  readPc :: ReadPc

definition newClient :: Client where
  "newClient = \<lparr>inboundCh = [], ackCh = [], errCh = [], chatPending = [], readPc = Reading\<rparr>"

text \<open>Getters of the envelope: the zero value when the payload is of another kind.\<close>

definition GetSystemNotification :: "ChatMessage \<Rightarrow> SystemNotification" where
  "GetSystemNotification m = (case cm_Payload m of P_SystemNotification n \<Rightarrow> n | _ \<Rightarrow> SYSTEM_NOTIFICATION_UNSPECIFIED)"

definition GetSystemRequest :: "ChatMessage \<Rightarrow> SystemRequest" where
  "GetSystemRequest m = (case cm_Payload m of P_SystemRequest r \<Rightarrow> r | _ \<Rightarrow> SYSTEM_REQUEST_UNSPECIFIED)"

definition GetAck :: "ChatMessage \<Rightarrow> Ack option" where
  "GetAck m = (case cm_Payload m of P_Ack a \<Rightarrow> Some a | _ \<Rightarrow> None)"

text \<open>\<open>write\<close>; the trace context is nil when nothing is injected.\<close>

definition chatWrite :: "'x Net \<Rightarrow> ChatMessage \<Rightarrow> (('x, 'z) World_scheme, unit) go" where
  "chatWrite N msg =
     bindE (extV (traceInject N)) (\<lambda>carrier.
       case protojsonMarshal N (msg\<lparr>cm_TraceContext := carrier\<rparr>) of
         None \<Rightarrow> throw (Ext ''protojson.Marshal'')
       | Some payload \<Rightarrow> thenE (ext (wsSetWriteDeadline N)) (ext (wsWriteMessage N payload)))"

definition guestMessage :: "string \<Rightarrow> string \<Rightarrow> Payload \<Rightarrow> ChatMessage" where
  "guestMessage mid cid payload =
     \<lparr>cm_MessageId = mid, cm_CorrelationId = cid, cm_Sender = SENDER_GUEST, cm_ProtocolVersion = protocolVersion,
      cm_TraceContext = [], cm_Payload = payload\<rparr>"

text \<open>\<open>sendAck\<close>: a failed write is only logged.\<close>

definition sendAck :: "'x Net \<Rightarrow> ChatMessage \<Rightarrow> (('x, 'z) World_scheme, unit) go" where
  "sendAck N msg =
     (if cm_MessageId msg = [] then ret ()
      else bindE (extV (uuidNewString N)) (\<lambda>mid.
        ignoreErr (chatWrite N (guestMessage mid (cm_MessageId msg)
          (P_Ack \<lparr>ak_AcknowledgedMessageId = cm_MessageId msg, ak_Status = ACK_STATUS_ACCEPTED, ak_Code = ERROR_CODE_NONE\<rparr>)))))"

text \<open>A send on \<open>errCh\<close> with a default case: dropped when the buffer of one is full.\<close>

definition offerErr :: "error \<Rightarrow> Client \<Rightarrow> Client" where
  "offerErr e c = (if length (errCh c) < 1 then c\<lparr>errCh := errCh c @ [e]\<rparr> else c)"

text \<open>
  What \<open>readLoop\<close> does with one result of \<open>ReadMessage\<close>: \<open>Inl\<close> a read error,
  \<open>Inr\<close> a payload. The second component says whether the message must be acknowledged.
\<close>

definition readFrame :: "'x Net \<Rightarrow> error + string \<Rightarrow> Client \<Rightarrow> Client \<times> ChatMessage option" where
  "readFrame N frame c =
     (if readPc c \<noteq> Reading then (c, None)
      else case frame of
        Inl e \<Rightarrow> ((offerErr e c)\<lparr>readPc := ReadStopped\<rparr>, None)
      | Inr payload \<Rightarrow>
          (case protojsonUnmarshal N payload of
             None \<Rightarrow> ((offerErr (Ext ''protojson.Unmarshal'') c)\<lparr>readPc := ReadStopped\<rparr>, None)
           | Some msg \<Rightarrow>
               if GetAck msg \<noteq> None then (c\<lparr>readPc := PutAck msg\<rparr>, None)
               else (c\<lparr>readPc := PutInbound msg\<rparr>, Some msg)))"

text \<open>The channel sends of \<open>readLoop\<close>, which wait for room in a buffer of 32.\<close>

definition readPut :: "Client \<Rightarrow> Client" where
  "readPut c =
     (case readPc c of
        PutAck msg \<Rightarrow> if length (ackCh c) < 32 then c\<lparr>ackCh := ackCh c @ [msg], readPc := Reading\<rparr> else c
      | PutInbound msg \<Rightarrow>
          if length (inboundCh c) < 32 then c\<lparr>inboundCh := inboundCh c @ [msg], readPc := Reading\<rparr> else c
      | _ \<Rightarrow> c)"

text \<open>Buffers within their capacities; acknowledgements apart from the other messages.\<close>

definition clientInv :: "Client \<Rightarrow> bool" where
  "clientInv c \<longleftrightarrow> length (inboundCh c) \<le> 32 \<and> length (ackCh c) \<le> 32 \<and> length (errCh c) \<le> 1
     \<and> (\<forall>m \<in> set (ackCh c). GetAck m \<noteq> None) \<and> (\<forall>m \<in> set (inboundCh c @ chatPending c). GetAck m = None)
     \<and> (case readPc c of PutAck m \<Rightarrow> GetAck m \<noteq> None | PutInbound m \<Rightarrow> GetAck m = None | _ \<Rightarrow> True)"

text \<open>The messages received and not yet handed to the caller, oldest first.\<close>

definition inTransit :: "Client \<Rightarrow> ChatMessage list" where
  "inTransit c = chatPending c @ inboundCh c @ (case readPc c of PutInbound m \<Rightarrow> [m] | _ \<Rightarrow> [])"

lemma newClient_inv: "clientInv newClient" "inTransit newClient = []"
  by (simp_all add: clientInv_def newClient_def inTransit_def)

lemma offerErr_inv: "clientInv c \<Longrightarrow> clientInv (offerErr e c)"
  by (simp add: clientInv_def offerErr_def)

lemma readFrame_inv:
  assumes "clientInv c"
  shows "clientInv (fst (readFrame N frame c))"
  using assms by (auto simp: readFrame_def clientInv_def offerErr_def split: sum.splits option.splits)

lemma readPut_inv: "clientInv c \<Longrightarrow> clientInv (readPut c)"
  by (auto simp: readPut_def clientInv_def split: ReadPc.splits)

text \<open>Reading appends the message to what is in transit and passing it on loses nothing.\<close>

lemma readFrame_transit:
  "inTransit (fst (readFrame N frame c)) =
     inTransit c @ (case snd (readFrame N frame c) of None \<Rightarrow> [] | Some m \<Rightarrow> [m])"
  by (auto simp: readFrame_def inTransit_def offerErr_def split: sum.splits option.splits)

lemma readPut_transit: "inTransit (readPut c) = inTransit c"
  by (auto simp: readPut_def inTransit_def split: ReadPc.splits)

end
