(* ===== verification/Mq.thy ===== *)
theory Mq
  imports World
begin

text \<open>
  The RabbitMQ client code: \<open>RabbitMqConnection\<close>, \<open>RabbitMqChannel\<close> and
  \<open>RabbitmqConsumer\<close> (internal/infra/mq) over the AMQP library, whose operations are
  the fields of \<open>Amqp\<close>. Connections and channels are handles of the library. A
  reconnect makes at most five attempts and stops at the first that succeeds; a closed
  connection is never dialled again.
\<close>

record QueueConfig =
  q_Name :: string
  q_Durable :: bool
  q_AutoDelete :: bool
  q_Exclusive :: bool
  q_NoWait :: bool

record BindingConfig =
  b_ExchangeName :: string
  b_RoutingKey :: string
  b_NoWait :: bool

record ConsumeConfig =
  c_Consumer :: string
  c_AutoAck :: bool
  c_Exclusive :: bool
  c_NoLocal :: bool
  c_NoWait :: bool

record RabbitMqConsumerConfig =
  cfg_Queue :: QueueConfig
  cfg_Binding :: BindingConfig
  cfg_Consume :: ConsumeConfig

text \<open>The AMQP library: handles are numbers.\<close>

record 'x Amqp =
  amqpDial :: "'x \<Rightarrow> nat res \<times> 'x"
  connIsClosed :: "nat \<Rightarrow> 'x \<Rightarrow> bool \<times> 'x"
  connClose :: "nat \<Rightarrow> 'x \<Rightarrow> unit res \<times> 'x"
  connChannel :: "nat \<Rightarrow> 'x \<Rightarrow> nat res \<times> 'x"
  chanIsClosed :: "nat \<Rightarrow> 'x \<Rightarrow> bool \<times> 'x"
  chanClose :: "nat \<Rightarrow> 'x \<Rightarrow> unit res \<times> 'x"
  queueDeclare :: "nat \<Rightarrow> QueueConfig \<Rightarrow> 'x \<Rightarrow> string res \<times> 'x"
  queueBind :: "nat \<Rightarrow> string \<Rightarrow> BindingConfig \<Rightarrow> 'x \<Rightarrow> unit res \<times> 'x"
  consumeWithContext :: "nat \<Rightarrow> string \<Rightarrow> ConsumeConfig \<Rightarrow> 'x \<Rightarrow> unit res \<times> 'x"

record RabbitMqConnection =
  conn :: "nat option"
  connClosed :: bool

record RabbitMqChannel = RabbitMqConnection +
  channel :: "nat option"

record RabbitmqConsumer = RabbitMqChannel +
  queueName :: string
  consumeConfig :: ConsumeConfig

text \<open>The world with the consumer of the journey.\<close>

record 'x MqWorld = "'x World" +
  rabbit :: RabbitmqConsumer

definition setRabbit :: "(RabbitmqConsumer \<Rightarrow> RabbitmqConsumer) \<Rightarrow> (('x, 'z) MqWorld_scheme, unit) go" where
  "setRabbit f = modW (\<lambda>w. w\<lparr>rabbit := f (rabbit w)\<rparr>)"

subsection \<open>RabbitMqConnection\<close>

definition rabbitDialAttempts :: nat where
  "rabbitDialAttempts = 5"

text \<open>The dial loop with \<open>n\<close> attempts left; \<open>lastErr\<close> is the error of the last attempt.\<close>

fun dialLoop :: "'x Amqp \<Rightarrow> nat \<Rightarrow> error \<Rightarrow> (('x, 'z) MqWorld_scheme, unit) go" where
  "dialLoop A 0 lastErr = throw (Wrapf (''dial rabbitmq after '' @ show_nat rabbitDialAttempts @ '' attempts: '') lastErr)"
| "dialLoop A (Suc n) lastErr =
     bindE (tryE (ext (amqpDial A))) (\<lambda>r.
       case r of
         Inr c \<Rightarrow> setRabbit (\<lambda>k. k\<lparr>conn := Some c\<rparr>)
       | Inl e \<Rightarrow> dialLoop A n e)"

definition connectionClosed :: error where
  "connectionClosed = Errorf ''rabbitmq connection closed''"

definition reconnectLocked :: "'x Amqp \<Rightarrow> (('x, 'z) MqWorld_scheme, unit) go" where
  "reconnectLocked A = bindE (getW rabbit) (\<lambda>c.
     if connClosed c then throw connectionClosed else dialLoop A rabbitDialAttempts (Ext ''nil''))"

definition IsConnectionOpen :: "'x Amqp \<Rightarrow> (('x, 'z) MqWorld_scheme, bool) go" where
  "IsConnectionOpen A = bindE (getW rabbit) (\<lambda>c.
     case conn c of None \<Rightarrow> ret False | Some k \<Rightarrow> bindE (extV (connIsClosed A k)) (\<lambda>b. ret (\<not> b)))"

definition CloseConnection :: "'x Amqp \<Rightarrow> (('x, 'z) MqWorld_scheme, unit) go" where
  "CloseConnection A =
     thenE (setRabbit (\<lambda>c. c\<lparr>connClosed := True\<rparr>))
    (bindE (getW rabbit) (\<lambda>c.
       case conn c of
         None \<Rightarrow> ret ()
       | Some k \<Rightarrow> bindE (extV (connIsClosed A k)) (\<lambda>b. if b then ret () else ext (connClose A k))))"

text \<open>After a successful \<open>reconnectLocked\<close> the connection is set.\<close>

definition currentConn :: "(('x, 'z) MqWorld_scheme, nat) go" where
  "currentConn = bindE (getW rabbit) (\<lambda>c.
     case conn c of None \<Rightarrow> panic ''nil pointer dereference'' | Some k \<Rightarrow> ret k)"

definition openConnection :: "'x Amqp \<Rightarrow> (('x, 'z) MqWorld_scheme, nat) go" where
  "openConnection A = bindE (getW rabbit) (\<lambda>c.
     if connClosed c then throw connectionClosed
     else case conn c of
       None \<Rightarrow> thenE (reconnectLocked A) currentConn
     | Some k \<Rightarrow> bindE (extV (connIsClosed A k)) (\<lambda>b.
         if \<not> b then ret k else thenE (reconnectLocked A) currentConn))"

subsection \<open>RabbitMqChannel\<close>

text \<open>A second attempt on a fresh connection, when the first failed because the connection is closed.\<close>

definition openChannel :: "'x Amqp \<Rightarrow> (('x, 'z) MqWorld_scheme, unit) go" where
  "openChannel A =
     bindE (openConnection A) (\<lambda>c.
     bindE (tryE (ext (connChannel A c))) (\<lambda>r.
       case r of
         Inr ch \<Rightarrow> setRabbit (\<lambda>k. k\<lparr>channel := Some ch\<rparr>)
       | Inl e \<Rightarrow> bindE (extV (connIsClosed A c)) (\<lambda>b.
           if \<not> b then throw e
           else bindE (openConnection A) (\<lambda>c'.
                bindE (ext (connChannel A c')) (\<lambda>ch. setRabbit (\<lambda>k. k\<lparr>channel := Some ch\<rparr>))))))"

text \<open>\<open>channel == nil || channel.IsClosed()\<close>\<close>

definition channelGone :: "'x Amqp \<Rightarrow> (('x, 'z) MqWorld_scheme, bool) go" where
  "channelGone A = bindE (getW rabbit) (\<lambda>c.
     case channel c of None \<Rightarrow> ret True | Some ch \<Rightarrow> extV (chanIsClosed A ch))"

definition reopenChannel :: "'x Amqp \<Rightarrow> (('x, 'z) MqWorld_scheme, unit) go" where
  "reopenChannel A = openChannel A"

definition ensureChannel :: "'x Amqp \<Rightarrow> (('x, 'z) MqWorld_scheme, nat) go" where
  "ensureChannel A =
     bindE (channelGone A) (\<lambda>gone.
     thenE (if gone then reopenChannel A else ret ())
    (bindE (getW rabbit) (\<lambda>c. case channel c of None \<Rightarrow> panic ''nil pointer dereference'' | Some ch \<Rightarrow> ret ch)))"

definition CloseChannel :: "'x Amqp \<Rightarrow> (('x, 'z) MqWorld_scheme, unit) go" where
  "CloseChannel A = bindE (getW rabbit) (\<lambda>c.
     case channel c of
       None \<Rightarrow> ret ()
     | Some ch \<Rightarrow> bindE (extV (chanIsClosed A ch)) (\<lambda>b. if b then ret () else ext (chanClose A ch)))"

subsection \<open>RabbitmqConsumer\<close>

definition wrapErr :: "string \<Rightarrow> ('w, 'a) go \<Rightarrow> ('w, 'a) go" where
  "wrapErr s m = bindE (tryE m) (\<lambda>r. case r of Inl e \<Rightarrow> throw (Wrapf s e) | Inr a \<Rightarrow> ret a)"

definition DeclareQueue :: "'x Amqp \<Rightarrow> QueueConfig \<Rightarrow> (('x, 'z) MqWorld_scheme, unit) go" where
  "DeclareQueue A cfg =
     bindE (ensureChannel A) (\<lambda>ch.
     bindE (wrapErr (''declare queue '' @ Quote (q_Name cfg) @ '': '') (ext (queueDeclare A ch cfg))) (\<lambda>name.
       setRabbit (\<lambda>c. c\<lparr>queueName := name\<rparr>)))"

definition BindQueue :: "'x Amqp \<Rightarrow> BindingConfig \<Rightarrow> (('x, 'z) MqWorld_scheme, unit) go" where
  "BindQueue A cfg =
     bindE (ensureChannel A) (\<lambda>ch.
     bindE (getW rabbit) (\<lambda>c.
       if queueName c = [] then throw (Errorf ''queue not declared'')
       else wrapErr (''bind queue '' @ Quote (queueName c) @ '' to exchange '' @ Quote (b_ExchangeName cfg) @ '' with routing key ''
              @ Quote (b_RoutingKey cfg) @ '': '') (ext (queueBind A ch (queueName c) cfg))))"

definition Consume :: "'x Amqp \<Rightarrow> (('x, 'z) MqWorld_scheme, unit) go" where
  "Consume A =
     bindE (ensureChannel A) (\<lambda>ch.
     bindE (getW rabbit) (\<lambda>c. ext (consumeWithContext A ch (queueName c) (consumeConfig c))))"

subsection \<open>Reconnecting\<close>

text \<open>Dialling \<open>n\<close> times in a row: the results, up to and including the first success.\<close>

fun dials :: "'x Amqp \<Rightarrow> nat \<Rightarrow> 'x \<Rightarrow> nat res list" where
  "dials A 0 x = []"
| "dials A (Suc n) x = (let (r, x') = amqpDial A x in r # (case r of Err _ \<Rightarrow> dials A n x' | _ \<Rightarrow> []))"

lemma dials_length: "length (dials A n x) \<le> n"
  by (induction n arbitrary: x) (auto simp: Let_def split: prod.splits res.splits)

lemma dialLoop_result:
  fixes w :: "('x, 'z) MqWorld_scheme"
  shows "fst (dialLoop A n e w) =
    (case (if dials A n (w_ext w) = [] then Err e else last (dials A n (w_ext w))) of
       Ret c \<Rightarrow> Ret ()
     | Err e' \<Rightarrow> Err (Wrapf (''dial rabbitmq after '' @ show_nat rabbitDialAttempts @ '' attempts: '') e')
     | Panics s \<Rightarrow> Panics s
     | Blocks \<Rightarrow> Blocks)"
proof (induction n arbitrary: e w)
  case (Suc n)
  obtain r x where r: "amqpDial A (w_ext w) = (r, x)" by fastforce
  show ?case
    using Suc [of _ "w\<lparr>w_ext := x\<rparr>"] by (cases r) (auto simp: bindE_def tryE_def ext_def r setRabbit_def)
qed simp

lemma dialLoop_conn:
  fixes w :: "('x, 'z) MqWorld_scheme"
  assumes "dialLoop A n e w = (Ret u, w')"
  shows "\<exists>c. last (dials A n (w_ext w)) = Ret c \<and> dials A n (w_ext w) \<noteq> [] \<and> conn (rabbit w') = Some c"
  using assms
proof (induction n arbitrary: e w)
  case (Suc n)
  obtain r x where r: "amqpDial A (w_ext w) = (r, x)" by fastforce
  show ?case
    using Suc.prems Suc.IH [of _ "w\<lparr>w_ext := x\<rparr>"]
    by (cases r) (auto simp: bindE_def tryE_def ext_def r setRabbit_def)
qed simp

lemma dialLoop_Err:
  fixes w :: "('x, 'z) MqWorld_scheme"
  shows "dialLoop A n e w = (Err e', w') \<Longrightarrow> conn (rabbit w') = conn (rabbit w)"
proof (induction n arbitrary: e w)
  case (Suc n)
  obtain r x where r: "amqpDial A (w_ext w) = (r, x)" by fastforce
  show ?case using Suc.prems Suc.IH [of _ "w\<lparr>w_ext := x\<rparr>"]
    by (cases r) (auto simp: bindE_def tryE_def ext_def r setRabbit_def)
qed simp

lemma CloseConnection_closed: "CloseConnection A w = (r, w') \<Longrightarrow> connClosed (rabbit w')"
  by (auto simp: CloseConnection_def thenE_def setRabbit_def bindE_def extV_def ext_def split: option.splits if_splits res.splits prod.splits)

text \<open>After \<open>Close\<close> nothing is dialled.\<close>

lemma openConnection_closed: "connClosed (rabbit w) \<Longrightarrow> openConnection A w = (Err connectionClosed, w)"
  by (simp add: openConnection_def)

lemma ensureChannel_closed:
  assumes "connClosed (rabbit w)" and "channel (rabbit w) = None"
  shows "ensureChannel A w = (Err connectionClosed, w)"
  using assms
  by (simp add: ensureChannel_def channelGone_def reopenChannel_def openChannel_def thenE_def bindE_def openConnection_closed)

end
