(* ===== verification/Schedule.thy ===== *)
theory Schedule
  imports Payment Bus Timeevents Chat Mq
begin

text \<open>
  Concurrency. A journey runs in one goroutine; beside it run the pump of its
  communication bus, the hour events service and its notifiers, those of the other journeys too, and the reader of the
  chat connection. A schedule is a list of actions: \<open>Env a\<close> is a step of one of the
  other goroutines, \<open>Go c\<close> lets the journey goroutine take its next step, at a
  \<open>select\<close> with case \<open>c\<close> if that case is ready. A blocking loop of the code is run by
  \<open>loopOn\<close> along the schedule of the world; a schedule that ends while the loop is
  still waiting is a run that does not return. Other goroutines run while the journey blocks, and
  where \<open>preempt\<close> stands: before the journey subscribes to the messages it waits for, after
  the flows that ran since the set-up of its communication, and between the start of an hour
  notifier and the look at the current time. What the journey does between two such points is one
  step; for instance, a wait gives its subscription back in the step in which it accepts a message.
  Statements about every schedule are statements about every interleaving of these steps.
\<close>

subsection \<open>The world of a journey\<close>

datatype SelectCase = CtxDone | BusDone | FromChan | FromErr | FromAck

datatype EnvAction =
    BusDeliver Delivery | BusClosed nat | BusCancelled nat
  | HubStarted bool | HubClosed | HubCancelled | HubReceive string | HubNotify | HubSend | HourGo nat | HourCancelled nat
  | OtherWaits int | OtherTakes nat | OtherEnds nat
  | ReadFrame "error + string" | ReadPut

datatype Action = Env EnvAction | Go SelectCase

record 'x JWorld = "'x MqWorld" +
  bus :: GuestCommunicationBus
  hub :: TimeHub
  chat :: Client
  sched :: "Action list"

text \<open>The outside of a journey: services, network, runtime and the decoder of hour events.\<close>

record 'x System =
  sysE :: "'x External"
  sysN :: "'x Net"
  sysR :: Runtime
  sysTime :: "string \<Rightarrow> TimeEvent option"
  sysA :: "'x Amqp"

text \<open>A goroutine that may stop because its context is done.\<close>

definition whenCancelled :: "'x External \<Rightarrow> (error \<Rightarrow> 'x JWorld \<Rightarrow> 'x JWorld) \<Rightarrow> 'x JWorld \<Rightarrow> 'x JWorld" where
  "whenCancelled E f w =
     (case ctxErr E (w_ext w) of (None, x) \<Rightarrow> w\<lparr>w_ext := x\<rparr> | (Some e, x) \<Rightarrow> f e (w\<lparr>w_ext := x\<rparr>))"

fun envStep :: "'x System \<Rightarrow> EnvAction \<Rightarrow> 'x JWorld \<Rightarrow> 'x JWorld" where
  "envStep S (BusDeliver d) w =
     (if pumps (bus w) = [] then w else w\<lparr>bus := pumpDeliver (sysR S) d (bus w)\<rparr>)"
| "envStep S (BusClosed k) w =
     (if k \<in> set (pumps (bus w)) then w\<lparr>bus := pumpStop channelClosed k (bus w)\<rparr> else w)"
| "envStep S (BusCancelled k) w =
     (if k \<in> set (pumps (bus w)) then whenCancelled (sysE S) (\<lambda>e w. w\<lparr>bus := pumpStop e k (bus w)\<rparr>) w else w)"
| "envStep S (HubStarted ok) w = w\<lparr>hub := hubStarted ok (hub w)\<rparr>"
| "envStep S HubClosed w = w\<lparr>hub := hubStopped (hub w)\<rparr>"
| "envStep S HubCancelled w = whenCancelled (sysE S) (\<lambda>_ w. w\<lparr>hub := hubStopped (hub w)\<rparr>) w"
| "envStep S (HubReceive body) w = w\<lparr>hub := hubReceive (sysTime S) body (hub w)\<rparr>"
| "envStep S HubNotify w = w\<lparr>hub := hubNotify (mapOrder (sysR S)) (hub w)\<rparr>"
| "envStep S HubSend w = w\<lparr>hub := hubSend (mapOrder (sysR S)) (hub w)\<rparr>"
| "envStep S (HourGo i) w = w\<lparr>hub := hourStep i (hub w)\<rparr>"
| "envStep S (HourCancelled i) w =
     (if contextDone i (hub w) then w\<lparr>hub := hourCancel i (hub w)\<rparr>
      else whenCancelled (sysE S) (\<lambda>_ w. w\<lparr>hub := hourCancel i (hub w)\<rparr>) w)"
| "envStep S (OtherWaits hour) w = w\<lparr>hub := spawnElsewhere hour (hub w)\<rparr>"
| "envStep S (OtherTakes i) w = w\<lparr>hub := takeElsewhere i (hub w)\<rparr>"
| "envStep S (OtherEnds i) w = w\<lparr>hub := cancelElsewhere i (hub w)\<rparr>"
| "envStep S (ReadFrame f) w =
     (let (c, m) = readFrame (sysN S) f (chat w); w' = w\<lparr>chat := c\<rparr>
      in case m of None \<Rightarrow> w' | Some msg \<Rightarrow> snd (sendAck (sysN S) msg w'))"
| "envStep S ReadPut w = w\<lparr>chat := readPut (chat w)\<rparr>"

subsection \<open>Blocking loops\<close>

text \<open>
  \<open>turn s c w\<close> is what the loop does at control state \<open>s\<close> when it may go on with case
  \<open>c\<close>: \<open>Inl r\<close> leaves the loop, \<open>Inr s'\<close> goes on waiting.
\<close>

fun loopOn :: "(EnvAction \<Rightarrow> 'w \<Rightarrow> 'w) \<Rightarrow> ('s \<Rightarrow> SelectCase \<Rightarrow> 'w \<Rightarrow> ('a res + 's) \<times> 'w) \<Rightarrow> 's \<Rightarrow> Action list \<Rightarrow> 'w
    \<Rightarrow> 'a res \<times> Action list \<times> 'w" where
  "loopOn env turn s [] w = (Blocks, [], w)"
| "loopOn env turn s (Env a # as) w = loopOn env turn s as (env a w)"
| "loopOn env turn s (Go c # as) w =
     (case turn s c w of (Inl r, w') \<Rightarrow> (r, as, w') | (Inr s', w') \<Rightarrow> loopOn env turn s' as w')"

definition await :: "'x System \<Rightarrow> ('s \<Rightarrow> SelectCase \<Rightarrow> 'x JWorld \<Rightarrow> ('a res + 's) \<times> 'x JWorld) \<Rightarrow> 's \<Rightarrow> ('x JWorld, 'a) go" where
  "await S turn s = (\<lambda>w. case loopOn (envStep S) turn s (sched w) w of (r, as, w') \<Rightarrow> (r, w'\<lparr>sched := as\<rparr>))"

lemma loopOn_suffix: "loopOn env turn s as w = (r, as', w') \<Longrightarrow> set as' \<subseteq> set as"
  by (induction env turn s as w rule: loopOn.induct) (auto split: prod.splits sum.splits)

text \<open>Other goroutines may run before a step of the journey that does not block.\<close>

fun preemptOn :: "(EnvAction \<Rightarrow> 'w \<Rightarrow> 'w) \<Rightarrow> Action list \<Rightarrow> 'w \<Rightarrow> Action list \<times> 'w" where
  "preemptOn env [] w = ([], w)"
| "preemptOn env (Env a # as) w = preemptOn env as (env a w)"
| "preemptOn env (Go c # as) w = (as, w)"

definition preempt :: "'x System \<Rightarrow> ('x JWorld, unit) go" where
  "preempt S = (\<lambda>w. case preemptOn (envStep S) (sched w) w of (as, w') \<Rightarrow> (Ret (), w'\<lparr>sched := as\<rparr>))"

definition afterOthers :: "'x System \<Rightarrow> ('x JWorld, 'a) go \<Rightarrow> ('x JWorld, 'a) go" where
  "afterOthers S m = thenE (preempt S) m"

lemma preemptOn_inv:
  assumes "\<And>w a. I w \<Longrightarrow> a \<in> A \<Longrightarrow> I (env a w)"
  shows "preemptOn env as w = (as', w') \<Longrightarrow> I w \<Longrightarrow> {a. Env a \<in> set as} \<subseteq> A \<Longrightarrow> I w' \<and> set as' \<subseteq> set as"
proof (induction as arbitrary: w)
  case (Cons act as)
  then show ?case using assms by (cases act) (auto simp: subset_iff)
qed simp

text \<open>The contract of a blocking loop: what holds while it waits, and what holds when it leaves.\<close>

locale select_loop =
  fixes env :: "EnvAction \<Rightarrow> 'w \<Rightarrow> 'w" and turn :: "'s \<Rightarrow> SelectCase \<Rightarrow> 'w \<Rightarrow> ('a res + 's) \<times> 'w"
    and acts :: "EnvAction set" and I :: "'s \<Rightarrow> 'w \<Rightarrow> bool" and Q :: "'a res \<Rightarrow> 'w \<Rightarrow> bool"
  assumes env_keeps: "I s w \<Longrightarrow> a \<in> acts \<Longrightarrow> I s (env a w)"
    and again: "I s w \<Longrightarrow> turn s c w = (Inr s', w') \<Longrightarrow> I s' w'"
    and finish: "I s w \<Longrightarrow> turn s c w = (Inl r, w') \<Longrightarrow> Q r w'"
begin

lemma outcome:
  assumes "I s w" and "{a. Env a \<in> set as} \<subseteq> acts" and "loopOn env turn s as w = (r, as', w')"
  shows "Q r w' \<or> (r = Blocks \<and> as' = [] \<and> (\<exists>s'. I s' w'))"
  using assms
proof (induction as arbitrary: s w)
  case Nil
  then show ?case by auto
next
  case (Cons act as)
  show ?case
  proof (cases act)
    case (Env a)
    have "I s (env a w)" using Cons.prems(1,2) Env by (auto intro: env_keeps)
    with Cons Env show ?thesis by auto
  next
    case (Go c)
    obtain res w1 where t: "turn s c w = (res, w1)" by fastforce
    then show ?thesis
      using Cons Go finish [of s w c _ w1] again [of s w c _ w1] by (cases res) auto
  qed
qed

end

subsection \<open>What the steps of the other goroutines leave alone\<close>

text \<open>The network does not write the Redis store.\<close>

definition netLaws :: "'x Net \<Rightarrow> ('x \<Rightarrow> string \<Rightarrow> json option) \<Rightarrow> bool" where
  "netLaws N content \<longleftrightarrow>
     (\<forall>u x. content (snd (wsDial N u x)) = content x) \<and> (\<forall>x. content (snd (wsSetWriteDeadline N x)) = content x)
   \<and> (\<forall>p x. content (snd (wsWriteMessage N p x)) = content x) \<and> (\<forall>x. content (snd (wsClose N x)) = content x)
   \<and> (\<forall>x. content (snd (uuidNewString N x)) = content x) \<and> (\<forall>x. content (snd (traceInject N x)) = content x)"

definition storeIs :: "('x \<Rightarrow> string \<Rightarrow> json option) \<Rightarrow> State option \<times> (string \<Rightarrow> json option) \<Rightarrow> ('x, 'z) World_scheme \<Rightarrow> bool" where
  "storeIs content p w \<longleftrightarrow> w_state w = fst p \<and> content (w_ext w) = snd p"

lemma keeps_store:
  "(\<And>x. content (snd (f x)) = content x) \<Longrightarrow> keeps (storeIs content p) (ext f)"
  "(\<And>x. content (snd (g x)) = content x) \<Longrightarrow> keeps (storeIs content p) (extV g)"
  by (auto intro!: keepsI simp: storeIs_def ext_Ret_iff extV_Ret_iff) (metis snd_conv)+

lemma chatWrite_store: "netLaws N content \<Longrightarrow> keeps (storeIs content p) (chatWrite N msg)"
  by (auto simp: chatWrite_def netLaws_def intro!: go_keeps keeps_store)

lemma sendAck_store: "netLaws N content \<Longrightarrow> keeps (storeIs content p) (sendAck N msg)"
  by (auto simp: sendAck_def intro!: go_keeps keeps_store chatWrite_store) (simp add: netLaws_def)

definition onlyExt :: "'x JWorld \<Rightarrow> 'x JWorld \<Rightarrow> bool" where
  "onlyExt w0 w \<longleftrightarrow> w\<lparr>w_ext := w_ext w0\<rparr> = w0"

lemma keeps_onlyExt: "keeps (onlyExt w0) (ext f)" "keeps (onlyExt w0) (extV g)"
  by (auto intro!: keepsI simp: onlyExt_def ext_Ret_iff extV_Ret_iff)

lemma chatWrite_onlyExt: "keeps (onlyExt w0) (chatWrite N msg)"
  by (auto simp: chatWrite_def intro!: go_keeps keeps_onlyExt)

lemma sendAck_onlyExt: "keeps (onlyExt w0) (sendAck N msg)"
  by (auto simp: sendAck_def intro!: go_keeps keeps_onlyExt chatWrite_onlyExt)

lemma sendAck_frame:
  fixes w :: "'x JWorld"
  shows "bus (snd (sendAck N msg w)) = bus w" and "hub (snd (sendAck N msg w)) = hub w"
    and "chat (snd (sendAck N msg w)) = chat w" and "sched (snd (sendAck N msg w)) = sched w"
proof -
  have "onlyExt w w" by (simp add: onlyExt_def)
  then have "onlyExt w (snd (sendAck N msg w))" using sendAck_onlyExt [of w N msg] unfolding keeps_def by blast
  then have "w = (snd (sendAck N msg w))\<lparr>w_ext := w_ext w\<rparr>" by (simp add: onlyExt_def)
  then show "bus (snd (sendAck N msg w)) = bus w" "hub (snd (sendAck N msg w)) = hub w"
    "chat (snd (sendAck N msg w)) = chat w" "sched (snd (sendAck N msg w)) = sched w"
    by (metis JWorld.select_convs JWorld.surjective World.update_convs(2))+
qed

lemma whenCancelled_frame:
  assumes "redisLaws E content" and "\<And>e w. content (w_ext (f e w)) = content (w_ext w) \<and> w_state (f e w) = w_state w"
  shows "storeIs content p w \<Longrightarrow> storeIs content p (whenCancelled E f w)"
  using redisLawsD(7) [OF assms(1)] assms(2)
  by (auto simp: whenCancelled_def storeIs_def split: prod.splits option.splits)

lemma storeIs_hub [simp]: "storeIs content p (w\<lparr>hub := h\<rparr>) = storeIs content p w"
  by (simp add: storeIs_def)

lemma envStep_store:
  assumes laws: "redisLaws (sysE S) content" "netLaws (sysN S) content" and "storeIs content p w"
  shows "storeIs content p (envStep S a w)"
proof (cases a)
  case (ReadFrame f)
  obtain c m where f: "readFrame (sysN S) f (chat w) = (c, m)" by fastforce
  have "storeIs content p (w\<lparr>chat := c\<rparr>)" using assms(3) by (simp add: storeIs_def)
  then have "storeIs content p (snd (sendAck (sysN S) msg (w\<lparr>chat := c\<rparr>)))" for msg
    using keepsD [OF sendAck_store [OF laws(2)]] by (metis prod.collapse)
  then show ?thesis using ReadFrame f \<open>storeIs content p (w\<lparr>chat := c\<rparr>)\<close> by (simp add: Let_def split: option.splits)
next
  case (BusCancelled k)
  then show ?thesis using assms(3) by (auto intro!: whenCancelled_frame [OF laws(1)])
next
  case HubCancelled
  then show ?thesis using assms(3) by (auto intro!: whenCancelled_frame [OF laws(1)])
next
  case (HourCancelled i)
  then show ?thesis using assms(3) by (auto intro!: whenCancelled_frame [OF laws(1)])
qed (use assms(3) in \<open>auto simp: storeIs_def\<close>)

lemma whenCancelled_bus: "bus (whenCancelled E f w) = bus w \<or> (\<exists>e x. whenCancelled E f w = f e (w\<lparr>w_ext := x\<rparr>))"
  by (auto simp: whenCancelled_def split: prod.splits option.splits)

lemma sched_env [simp]: "sched (envStep S a w) = sched w"
proof (cases a)
  case (ReadFrame f)
  then show ?thesis
    by (cases "readFrame (sysN S) f (chat w)") (simp add: Let_def sendAck_frame split: option.splits)
qed (auto simp: whenCancelled_def split: prod.splits option.splits)

text \<open>How a step of another goroutine changes the bus: a delivery or the end of a pump.\<close>

lemma envStep_bus:
  "bus (envStep S a w) = bus w \<or> (\<exists>d. a = BusDeliver d \<and> bus (envStep S a w) = pumpDeliver (sysR S) d (bus w))
     \<or> (\<exists>e k. bus (envStep S a w) = pumpStop e k (bus w))"
proof (cases a)
  case (ReadFrame f)
  then show ?thesis
    by (cases "readFrame (sysN S) f (chat w)") (simp add: Let_def sendAck_frame split: option.splits)
next
  case (BusCancelled k)
  then show ?thesis
    by (auto simp: whenCancelled_def split: prod.splits option.splits)
next
  case HubCancelled
  then show ?thesis by (auto simp: whenCancelled_def split: prod.splits option.splits)
next
  case (HourCancelled i)
  then show ?thesis by (auto simp: whenCancelled_def split: prod.splits option.splits)
qed auto

end
