(* ===== verification/Waits.thy ===== *)
theory Waits
  imports Schedule
begin

text \<open>
  Waiting for a message of the guest queue
  (internal/app/journey/journey\_services/wait\_payment\_request.go,
  wait\_booking\_confirmation.go, wait\_checkin\_today.go). The three loops have the same
  text; \<open>waitMessage\<close> is that text with the topic and the matching function as
  arguments. For every schedule, a wait that ends without error has accepted a message
  that was queued or delivered on its topic and that matches the cached journey.
\<close>

subsection \<open>The loop\<close>

datatype WaitPc = AtTake | AtSelect

text \<open>What the loop does with a message: leave on a match, else go on at \<open>pc\<close>.\<close>

definition tryMatch :: "('m \<Rightarrow> ('w, unit) go) \<Rightarrow> 'm \<Rightarrow> WaitPc \<Rightarrow> 'w \<Rightarrow> (unit res + WaitPc) \<times> 'w" where
  "tryMatch match m pc w =
     (case match m w of
        (Ret _, w') \<Rightarrow> (Inl (Ret ()), w')
      | (Err _, w') \<Rightarrow> (Inr pc, w')
      | (Panics s, w') \<Rightarrow> (Inl (Panics s), w')
      | (Blocks, w') \<Rightarrow> (Inl Blocks, w'))"

fun waitTurn :: "'x System \<Rightarrow> (GuestCommunicationBus \<Rightarrow> 'm Topic)
    \<Rightarrow> (('m Topic \<Rightarrow> 'm Topic) \<Rightarrow> GuestCommunicationBus \<Rightarrow> GuestCommunicationBus)
    \<Rightarrow> ('m \<Rightarrow> ('x JWorld, unit) go) \<Rightarrow> nat \<Rightarrow> WaitPc \<Rightarrow> SelectCase \<Rightarrow> 'x JWorld
    \<Rightarrow> (unit res + WaitPc) \<times> 'x JWorld" where
  "waitTurn S get upd match ch AtTake c w =
     (case takePending (get (bus w)) of
        None \<Rightarrow> (Inr AtSelect, w)
      | Some (m, t) \<Rightarrow> tryMatch match m AtSelect (w\<lparr>bus := upd (\<lambda>_. t) (bus w)\<rparr>))"
| "waitTurn S get upd match ch AtSelect CtxDone w =
     (case ctxErr (sysE S) (w_ext w) of
        (None, x) \<Rightarrow> (Inr AtSelect, w\<lparr>w_ext := x\<rparr>)
      | (Some e, x) \<Rightarrow> (Inl (Err e), w\<lparr>w_ext := x\<rparr>))"
| "waitTurn S get upd match ch AtSelect BusDone w =
     (if \<not> DoneClosed (bus w) then (Inr AtSelect, w)
      else (case busErr (bus w) of
              Some e \<Rightarrow> if isCanceled e then (Inl (Err channelClosed), w) else (Inl (Err e), w)
            | None \<Rightarrow> (Inl (Err channelClosed), w)))"
| "waitTurn S get upd match ch AtSelect FromChan w =
     (case receive ch (get (bus w)) of
        None \<Rightarrow> (Inr AtSelect, w)
      | Some (m, t) \<Rightarrow> tryMatch match m AtTake (w\<lparr>bus := upd (\<lambda>_. t) (bus w)\<rparr>))"
| "waitTurn S get upd match ch AtSelect _ w = (Inr AtSelect, w)"

definition waitMessage :: "'x System \<Rightarrow> (GuestCommunicationBus \<Rightarrow> 'm Topic)
    \<Rightarrow> (('m Topic \<Rightarrow> 'm Topic) \<Rightarrow> GuestCommunicationBus \<Rightarrow> GuestCommunicationBus)
    \<Rightarrow> ('m \<Rightarrow> ('x JWorld, unit) go) \<Rightarrow> ('x JWorld, unit) go" where
  "waitMessage S get upd match = (\<lambda>w.
     let (ch, t) = makeChan (get (bus w));
         w1 = w\<lparr>bus := upd (\<lambda>_. subscribe ch t) (bus w)\<rparr>;
         (r, w2) = await S (waitTurn S get upd match ch) AtTake w1
     in (r, w2\<lparr>bus := upd (unsubscribe ch) (bus w2)\<rparr>))"

subsection \<open>The matching functions\<close>

text \<open>A message pointer; \<open>None\<close> is nil.\<close>

definition matchPaymentRequest :: "'x External \<Rightarrow> Cache option \<Rightarrow> PaymentRequest option \<Rightarrow> (('x, 'z) World_scheme, unit) go" where
  "matchPaymentRequest E C message =
     (case message of None \<Rightarrow> throw (Errorf ''payment request is nil'')
      | Some msg \<Rightarrow>
      bindE (onCache C (Load E)) (\<lambda>cacheValue.
        if TrimSpace (pr_InvoiceNumber msg) = [] then throw (Errorf ''payment request missing invoiceNumber'')
        else if (case pr_Total msg of None \<Rightarrow> True | Some t \<Rightarrow> mn_Amount t \<le> 0 \<or> TrimSpace (mn_Currency t) = [])
        then throw (Errorf ''payment request has invalid total'')
        else case pr_Booking msg of None \<Rightarrow> throw (Errorf ''payment request missing booking summary'')
        | Some summary \<Rightarrow>
        if TrimSpace (bs_CottageName summary) = [] then throw (Errorf ''payment request missing booking summary'')
        else case PersonalInfo cacheValue of None \<Rightarrow> throw (Errorf ''cached guest context is empty'')
        | Some guest \<Rightarrow>
        (case Booking cacheValue of None \<Rightarrow> throw (Errorf ''cached booking context is empty'')
        | Some b \<Rightarrow>
        if SelectedCottage b = [] then throw (Errorf ''cached booking context is empty'')
        else if (case pr_Payer msg of None \<Rightarrow> True
                 | Some p \<Rightarrow> \<not> EqualFold (uniFold E) (TrimSpace (ps_Email p)) (TrimSpace (Email guest)))
        then throw (Errorf ''payment request payer does not match guest email'')
        else if bs_CottageName summary \<noteq> SelectedCottage b
        then throw (Errorf (''payment request cottage '' @ Quote (bs_CottageName summary) @ '' does not match selected cottage ''
               @ Quote (SelectedCottage b)))
        else let invoice = (case Invoice cacheValue of None \<Rightarrow> zeroInvoice | Some i \<Rightarrow> i)
             in onCache C (\<lambda>c. Save E c (cacheValue\<lparr>Invoice :=
                  Some (invoice\<lparr>InvoiceNumber := TrimSpace (pr_InvoiceNumber msg)\<rparr>)\<rparr>)))))"

definition matchBookingConfirmation :: "'x External \<Rightarrow> Cache option \<Rightarrow> BookingConfirmedNotificationEvent option
    \<Rightarrow> (('x, 'z) World_scheme, unit) go" where
  "matchBookingConfirmation E C message =
     (case message of None \<Rightarrow> throw (Errorf ''booking confirmation is nil'')
      | Some msg \<Rightarrow>
      bindE (onCache C (Load E)) (\<lambda>cacheValue.
        case Booking cacheValue of None \<Rightarrow> throw (Errorf ''cached booking context is empty'')
        | Some b \<Rightarrow>
        if be_BookingId msg \<noteq> BookingID b
        then throw (Errorf (''booking confirmation bookingId '' @ Quote (be_BookingId msg) @ '' does not match cache '' @ Quote (BookingID b)))
        else if be_BookingStatus msg \<noteq> BOOKING_STATUS_CONFIRMED
        then throw (Errorf (''booking confirmation status '' @ Quote (BookingStatus_String (be_BookingStatus msg)) @ '' is not confirmed''))
        else bindE deref (\<lambda>state.
          if (case be_Guest msg of None \<Rightarrow> True | Some g \<Rightarrow> gs_GuestId g \<noteq> GuestId state)
          then throw (Errorf ''booking confirmation guestId does not match guest'')
          else ret ())))"

definition matchCheckinToday :: "'x External \<Rightarrow> Cache option \<Rightarrow> CheckInTodayNotification option
    \<Rightarrow> (('x, 'z) World_scheme, unit) go" where
  "matchCheckinToday E C message =
     (case message of None \<Rightarrow> throw (Errorf ''checkin today notification is nil'')
      | Some msg \<Rightarrow>
      bindE (onCache C (Load E)) (\<lambda>cacheValue.
        case Booking cacheValue of None \<Rightarrow> throw (Errorf ''cached booking context is empty'')
        | Some b \<Rightarrow>
        (case SelectedPeriod b of None \<Rightarrow> throw (Errorf ''cached booking context is empty'')
        | Some p \<Rightarrow>
        if ci_BookingId msg \<noteq> BookingID b
        then throw (Errorf (''checkin today bookingId '' @ Quote (ci_BookingId msg) @ '' does not match cache '' @ Quote (BookingID b)))
        else bindE deref (\<lambda>state.
          if ci_GuestId msg \<noteq> GuestId state
          then throw (Errorf (''checkin today guestId '' @ Quote (ci_GuestId msg) @ '' does not match state '' @ Quote (GuestId state)))
          else if ci_CottageName msg \<noteq> SelectedCottage b
          then throw (Errorf (''checkin today cottage '' @ Quote (ci_CottageName msg) @ '' does not match selected cottage ''
                 @ Quote (SelectedCottage b)))
          else if (case ci_CheckIn msg of None \<Rightarrow> True | Some t \<Rightarrow> \<not> TimeEqual (UTC (AsTime t)) (UTC (Start p)))
          then throw (Errorf (''checkin today checkIn does not match selected period start '' @ TimeString (UTC (Start p))))
          else ret ()))))"

definition WaitPaymentRequestMessage :: "'x System \<Rightarrow> Cache option \<Rightarrow> ('x JWorld, unit) go" where
  "WaitPaymentRequestMessage S C =
     waitMessage S paymentRequests paymentRequests_update (\<lambda>m. matchPaymentRequest (sysE S) C (Some m))"

definition WaitBookingConfirmationMessage :: "'x System \<Rightarrow> Cache option \<Rightarrow> ('x JWorld, unit) go" where
  "WaitBookingConfirmationMessage S C =
     waitMessage S bookingConfirmations bookingConfirmations_update (\<lambda>m. matchBookingConfirmation (sysE S) C (Some m))"

definition WaitCheckinTodayMessage :: "'x System \<Rightarrow> Cache option \<Rightarrow> ('x JWorld, unit) go" where
  "WaitCheckinTodayMessage S C =
     waitMessage S checkinToday checkinToday_update (\<lambda>m. matchCheckinToday (sysE S) C (Some m))"

subsection \<open>What holds while a journey waits\<close>

text \<open>
  \<open>journeyIs\<close>: the guest, and the cached journey up to its invoice, which a request with a
  failed write may have changed already.
\<close>

definition journeyIs :: "('x \<Rightarrow> string \<Rightarrow> json option) \<Rightarrow> string \<Rightarrow> string \<times> Guest option \<times> GuestJourneyBooking option
    \<Rightarrow> ('x, 'z) World_scheme \<Rightarrow> bool" where
  "journeyIs content gid k w \<longleftrightarrow> (\<exists>st v. w_state w = Some st \<and> GuestId st = gid \<and> cached content w = Some v
     \<and> cacheable v \<and> (GuestID v, PersonalInfo v, Booking v) = k)"

lemma cached_cong:
  "w_state w' = w_state w \<Longrightarrow> content (w_ext w') = content (w_ext w) \<Longrightarrow> cached content w' = cached content w"
  by (simp add: cached_def split: option.splits)

lemma journeyIs_store:
  assumes "w_state w' = w_state w" and "content (w_ext w') = content (w_ext w)"
  shows "journeyIs content gid k w' = journeyIs content gid k w"
  using cached_cong [OF assms] assms(1) by (simp add: journeyIs_def)

lemma journeyIs_env:
  assumes "redisLaws (sysE S) content" "netLaws (sysN S) content" and "journeyIs content gid k w"
  shows "journeyIs content gid k (envStep S a w)"
proof -
  have "storeIs content (w_state w, content (w_ext w)) (envStep S a w)"
    by (rule envStep_store [OF assms(1,2)]) (simp add: storeIs_def)
  then show ?thesis using assms(3) journeyIs_store [of "envStep S a w" w content] by (simp add: storeIs_def)
qed

lemma journeyIs_ctx:
  assumes "redisLaws E content" and "journeyIs content gid k w" and "ctxErr E (w_ext w) = (ce, x)"
  shows "journeyIs content gid k (w\<lparr>w_ext := x\<rparr>)"
  using assms redisLawsD(7) [OF assms(1,3)] journeyIs_store [of "w\<lparr>w_ext := x\<rparr>" w content] by simp

lemma Load_journeyIs:
  assumes "redisLaws E content" and "journeyIs content gid k w" and "Load E c w = (r, w')"
  shows "journeyIs content gid k w'"
  using assms(2) Load_any [OF assms(1,3)] by (fastforce simp: journeyIs_def)

text \<open>The world beside the journey state and the services is left alone by the cache.\<close>

definition sameRest :: "('x, 'z) World_scheme \<Rightarrow> ('x, 'z) World_scheme \<Rightarrow> bool" where
  "sameRest w0 w \<longleftrightarrow> w\<lparr>w_state := w_state w0, w_ext := w_ext w0\<rparr> = w0"

lemma sameRest_outside [go_keeps]:
  "keeps (sameRest w0) (ext f)" "keeps (sameRest w0) (extV g)" "keeps (sameRest w0) (setState h)"
  by (auto intro!: keepsI simp: sameRest_def ext_Ret_iff extV_Ret_iff setState_def split: option.splits)

lemma sameRest_EnsureKey [go_keeps]: "keeps (sameRest w0) EnsureKey"
  by (auto intro!: keepsI dest!: EnsureKey_world simp: sameRest_def)

lemma sameRest_cache [go_keeps]: "keeps (sameRest w0) (Load E c)" "keeps (sameRest w0) (Save E c v)"
  by (auto simp: Load_def Save_def Get_def CacheSet_def intro!: go_keeps)

lemma sameRest_onCache [go_keeps]: "(\<And>c. keeps P (f c)) \<Longrightarrow> keeps P (onCache C f)"
  by (simp add: onCache_def go_keeps)

lemma sameRest_matches [go_keeps]:
  "keeps (sameRest w0) (matchPaymentRequest E C pm)" "keeps (sameRest w0) (matchBookingConfirmation E C bm)"
  "keeps (sameRest w0) (matchCheckinToday E C cm)"
  by (auto simp: matchPaymentRequest_def matchBookingConfirmation_def matchCheckinToday_def Let_def intro!: go_keeps)

lemma sameRest_bus:
  fixes w w' :: "'x JWorld"
  assumes "keeps (sameRest w) m" and "m w = (r, w')"
  shows "bus w' = bus w" "hub w' = hub w" "chat w' = chat w" "sched w' = sched w"
proof -
  have "sameRest w w" by (simp add: sameRest_def)
  then have "w = w'\<lparr>w_state := w_state w, w_ext := w_ext w\<rparr>" using keepsD [OF assms(1) _ assms(2)] by (simp add: sameRest_def)
  then show "bus w' = bus w" "hub w' = hub w" "chat w' = chat w" "sched w' = sched w"
    by (metis JWorld.select_convs JWorld.surjective World.update_convs)+
qed

subsection \<open>A wait that ends well has accepted a message\<close>

text \<open>What reaches a topic: the queued messages and those the schedule delivers.\<close>

definition offered :: "(GuestCommunicationBus \<Rightarrow> 'm Topic) \<Rightarrow> (Runtime \<Rightarrow> Delivery \<Rightarrow> 'm option) \<Rightarrow> 'x System
    \<Rightarrow> 'x JWorld \<Rightarrow> 'm set" where
  "offered get decode S w = set (pendingMsgs (get (bus w)))
     \<union> {m. \<exists>d. Env (BusDeliver d) \<in> set (sched w) \<and> decode (sysR S) d = Some m}"

text \<open>
  The contract between a wait and its matching function: \<open>J\<close> holds while the journey
  waits, \<open>Acc m\<close> when the message \<open>m\<close> has been accepted.
\<close>

locale waiting = bus_topic get upd decode
  for get :: "GuestCommunicationBus \<Rightarrow> 'm Topic" and upd decode +
  fixes S :: "'x System" and match :: "'m \<Rightarrow> ('x JWorld, unit) go" and J :: "'x JWorld \<Rightarrow> bool"
    and Acc :: "'m \<Rightarrow> 'x JWorld \<Rightarrow> bool"
  assumes order: "iterationOrder (mapOrder (sysR S))"
    and J_env: "J w \<Longrightarrow> J (envStep S a w)"
    and J_bus: "J (w\<lparr>bus := b\<rparr>) = J w"
    and J_ctx: "J w \<Longrightarrow> ctxErr (sysE S) (w_ext w) = (ce, x) \<Longrightarrow> J (w\<lparr>w_ext := x\<rparr>)"
    and match_bus: "match m w = (r, w') \<Longrightarrow> bus w' = bus w"
    and match_yes: "J w \<Longrightarrow> match m w = (Ret u, w') \<Longrightarrow> Acc m w'"
    and match_no: "J w \<Longrightarrow> match m w = (Err e, w') \<Longrightarrow> J w'"
    and Acc_bus: "Acc m (w\<lparr>bus := b\<rparr>) = Acc m w"
    and Acc_sched: "Acc m (w\<lparr>sched := as\<rparr>) = Acc m w"
begin

text \<open>All messages the waiter can see are in \<open>M\<close>.\<close>

definition waitInv :: "'m set \<Rightarrow> nat \<Rightarrow> 'x JWorld \<Rightarrow> bool" where
  "waitInv M ch w \<longleftrightarrow> J w \<and> topicInv (get (bus w)) \<and> set (pendingMsgs (get (bus w))) \<subseteq> M
     \<and> set (buffers (get (bus w)) ch) \<subseteq> M"

definition bring :: "'m set \<Rightarrow> EnvAction set" where
  "bring M = {a. \<forall>d m. a = BusDeliver d \<longrightarrow> decode (sysR S) d = Some m \<longrightarrow> m \<in> M}"

lemma publish_seen:
  assumes "topicInv t" and "m \<in> M" and "set (pendingMsgs t) \<subseteq> M" and "set (buffers t ch) \<subseteq> M"
  shows "set (pendingMsgs (publish (mapOrder (sysR S)) m t)) \<subseteq> M \<and> set (buffers (publish (mapOrder (sysR S)) m t) ch) \<subseteq> M"
  using assms publish_effect [of t "mapOrder (sysR S)" m] order by (auto simp: topicInv_def)

lemma waitInv_env: "waitInv M ch w \<Longrightarrow> a \<in> bring M \<Longrightarrow> waitInv M ch (envStep S a w)"
proof -
  assume inv: "waitInv M ch w" and a: "a \<in> bring M"
  have J: "J (envStep S a w)" using inv J_env by (simp add: waitInv_def)
  consider (same) "get (bus (envStep S a w)) = get (bus w)"
    | (deliver) d m where "a = BusDeliver d" "decode (sysR S) d = Some m"
      "get (bus (envStep S a w)) = publish (mapOrder (sysR S)) m (get (bus w))"
    using envStep_bus [of S a w] get_deliver get_stop by (cases "decode (sysR S) (case a of BusDeliver d \<Rightarrow> d)") auto
  then show "waitInv M ch (envStep S a w)"
  proof cases
    case same
    then show ?thesis using inv J by (simp add: waitInv_def)
  next
    case deliver
    then have "m \<in> M" using a by (auto simp: bring_def)
    with inv J deliver(3) publish_seen [of "get (bus w)" m M ch] topicInv_topic(1) [of "get (bus w)" "mapOrder (sysR S)" m] order show ?thesis
      by (simp add: waitInv_def)
  qed
qed

lemma tryMatch_result:
  assumes "tryMatch match m pc w = (res, w')" and "J w"
  shows "bus w' = bus w" and "res = Inl (Ret ()) \<Longrightarrow> Acc m w'" and "res = Inr pc' \<Longrightarrow> J w'"
  using assms match_bus match_yes match_no
  by (auto simp: tryMatch_def split: prod.splits res.splits)

lemma waitTurn_message:
  assumes inv: "waitInv M ch w" and m: "m \<in> M" "topicInv t" "set (pendingMsgs t) \<subseteq> M" "set (buffers t ch) \<subseteq> M"
    and run: "tryMatch match m pc (w\<lparr>bus := upd (\<lambda>_. t) (bus w)\<rparr>) = (res, w')"
  shows "case res of Inl r \<Rightarrow> r = Ret () \<longrightarrow> (\<exists>m \<in> M. Acc m w') | Inr pc' \<Rightarrow> waitInv M ch w'"
proof -
  have J: "J (w\<lparr>bus := upd (\<lambda>_. t) (bus w)\<rparr>)" using inv by (simp add: waitInv_def J_bus)
  show ?thesis
    using tryMatch_result [OF run J] m by (auto simp: waitInv_def get_upd split: sum.splits)
qed

lemma waitTurn_result:
  assumes inv: "waitInv M ch w" and run: "waitTurn S get upd match ch pc c w = (res, w')"
  shows "case res of Inl r \<Rightarrow> r = Ret () \<longrightarrow> (\<exists>m \<in> M. Acc m w') | Inr pc' \<Rightarrow> waitInv M ch w'"
proof -
  have i: "topicInv (get (bus w))" "set (pendingMsgs (get (bus w))) \<subseteq> M" "set (buffers (get (bus w)) ch) \<subseteq> M"
    using inv by (auto simp: waitInv_def)
  show ?thesis
  proof (cases pc)
    case AtTake
    show ?thesis
    proof (cases "takePending (get (bus w))")
      case None
      with run AtTake inv show ?thesis by auto
    next
      case (Some p)
      then obtain m t where p: "takePending (get (bus w)) = Some (m, t)" by (cases p) auto
      have "m \<in> M" "set (pendingMsgs t) \<subseteq> M" "set (buffers t ch) \<subseteq> M"
        using p i by (auto simp: takePending_def split: list.splits)
      with waitTurn_message [OF inv _ topicInv_topic(3) [OF i(1) p]] run AtTake p show ?thesis by auto
    qed
  next
    case AtSelect
    show ?thesis
    proof (cases c)
      case FromChan
      show ?thesis
      proof (cases "receive ch (get (bus w))")
        case None
        with run AtSelect FromChan inv show ?thesis by auto
      next
        case (Some p)
        then obtain m t where p: "receive ch (get (bus w)) = Some (m, t)" by (cases p) auto
        have "m \<in> M" "set (pendingMsgs t) \<subseteq> M" "set (buffers t ch) \<subseteq> M"
          using p i by (auto simp: receive_def split: list.splits)
        with waitTurn_message [OF inv _ topicInv_ops(2) [OF i(1) p]] run AtSelect FromChan p show ?thesis by auto
      qed
    next
      case CtxDone
      obtain ce x where ce: "ctxErr (sysE S) (w_ext w) = (ce, x)" by fastforce
      have "waitInv M ch (w\<lparr>w_ext := x\<rparr>)" using inv J_ctx [OF _ ce] by (simp add: waitInv_def)
      with run AtSelect CtxDone ce show ?thesis by (cases ce) auto
    qed (use run AtSelect inv in \<open>auto split: if_splits option.splits\<close>)
  qed
qed

end

sublocale waiting \<subseteq> loop: select_loop "envStep S" "waitTurn S get upd match ch" "bring M"
    "\<lambda>_. waitInv M ch" "\<lambda>r w. r = Ret () \<longrightarrow> (\<exists>m \<in> M. Acc m w)" for ch M
proof
  show "waitInv M ch w \<Longrightarrow> a \<in> bring M \<Longrightarrow> waitInv M ch (envStep S a w)" for w a by (rule waitInv_env)
  show "waitInv M ch w \<Longrightarrow> waitTurn S get upd match ch s c w = (Inr s', w') \<Longrightarrow> waitInv M ch w'" for s w c s' w'
    using waitTurn_result [of M ch w s c "Inr s'" w'] by simp
  show "waitInv M ch w \<Longrightarrow> waitTurn S get upd match ch s c w = (Inl r, w') \<Longrightarrow> r = Ret () \<longrightarrow> (\<exists>m \<in> M. Acc m w')"
    for s w c r w'
    using waitTurn_result [of M ch w s c "Inl r" w'] by simp
qed

context waiting
begin

lemma accepted:
  assumes inv: "topicInv (get (bus w))" and J: "J w" and run: "waitMessage S get upd match w = (Ret (), w')"
  shows "\<exists>m \<in> offered get decode S w. Acc m w'"
proof -
  obtain ch t where mk: "makeChan (get (bus w)) = (ch, t)" by fastforce
  let ?w1 = "w\<lparr>bus := upd (\<lambda>_. subscribe ch t) (bus w)\<rparr>"
  obtain as w2 where lp: "loopOn (envStep S) (waitTurn S get upd match ch) AtTake (sched w) ?w1 = (Ret (), as, w2)"
    and w': "w' = w2\<lparr>sched := as, bus := upd (unsubscribe ch) (bus w2)\<rparr>"
    using run by (auto simp: waitMessage_def await_def mk Let_def split: prod.splits)
  have t: "topicInv (subscribe ch t)" "buffers t ch = []" "pendingMsgs t = pendingMsgs (get (bus w))"
    using topicInv_ops(3) [OF inv mk] mk by (auto simp: makeChan_def)
  have "waitInv (offered get decode S w) ch ?w1"
    using J t by (auto simp: waitInv_def J_bus get_upd offered_def subscribe_def)
  moreover have "{a. Env a \<in> set (sched w)} \<subseteq> bring (offered get decode S w)"
    by (auto simp: bring_def offered_def)
  ultimately have "\<exists>m \<in> offered get decode S w. Acc m w2" using loop.outcome [OF _ _ lp] by auto
  then show ?thesis unfolding w' by (simp add: Acc_bus Acc_sched)
qed

end

subsection \<open>The three waits\<close>

definition requestFor :: "'x External \<Rightarrow> GuestJourneyCacheValue \<Rightarrow> PaymentRequest \<Rightarrow> bool" where
  "requestFor E v m \<longleftrightarrow> TrimSpace (pr_InvoiceNumber m) \<noteq> []
     \<and> (\<exists>t. pr_Total m = Some t \<and> 0 < mn_Amount t \<and> TrimSpace (mn_Currency t) \<noteq> [])
     \<and> (\<exists>s b. pr_Booking m = Some s \<and> Booking v = Some b \<and> bs_CottageName s = SelectedCottage b \<and> SelectedCottage b \<noteq> [])
     \<and> (\<exists>p g. pr_Payer m = Some p \<and> PersonalInfo v = Some g
          \<and> EqualFold (uniFold E) (TrimSpace (ps_Email p)) (TrimSpace (Email g)))"

definition confirms :: "string \<Rightarrow> GuestJourneyCacheValue \<Rightarrow> BookingConfirmedNotificationEvent \<Rightarrow> bool" where
  "confirms gid v m \<longleftrightarrow> (\<exists>b g. Booking v = Some b \<and> be_BookingId m = BookingID b
     \<and> be_BookingStatus m = BOOKING_STATUS_CONFIRMED \<and> be_Guest m = Some g \<and> gs_GuestId g = gid)"

definition checkinFor :: "string \<Rightarrow> GuestJourneyCacheValue \<Rightarrow> CheckInTodayNotification \<Rightarrow> bool" where
  "checkinFor gid v m \<longleftrightarrow> (\<exists>b p t. Booking v = Some b \<and> SelectedPeriod b = Some p \<and> ci_BookingId m = BookingID b
     \<and> ci_GuestId m = gid \<and> ci_CottageName m = SelectedCottage b \<and> ci_CheckIn m = Some t \<and> ns (AsTime t) = ns (Start p))"

definition journeyAnd :: "('x \<Rightarrow> string \<Rightarrow> json option) \<Rightarrow> string \<Rightarrow> string \<times> Guest option \<times> GuestJourneyBooking option
    \<Rightarrow> (GuestJourneyCacheValue \<Rightarrow> bool) \<Rightarrow> ('x, 'z) World_scheme \<Rightarrow> bool" where
  "journeyAnd content gid k P w \<longleftrightarrow> journeyIs content gid k w \<and> (\<forall>v. cached content w = Some v \<longrightarrow> P v)"

definition invoiced :: "'x External \<Rightarrow> PaymentRequest \<Rightarrow> GuestJourneyCacheValue \<Rightarrow> bool" where
  "invoiced E m v \<longleftrightarrow> requestFor E v m \<and> (\<exists>i. Invoice v = Some i \<and> InvoiceNumber i = TrimSpace (pr_InvoiceNumber m))"

lemma journeyAnd_cong:
  "w_state w' = w_state w \<Longrightarrow> content (w_ext w') = content (w_ext w) \<Longrightarrow> journeyAnd content gid k P w' = journeyAnd content gid k P w"
  using journeyIs_store [of w' w content gid k] cached_cong [of w' w content] by (simp add: journeyAnd_def)

lemma journey_frame [simp]:
  fixes w :: "'x JWorld"
  shows "journeyIs content gid k (w\<lparr>bus := b\<rparr>) = journeyIs content gid k w"
    and "journeyAnd content gid k P (w\<lparr>bus := b\<rparr>) = journeyAnd content gid k P w"
    and "journeyAnd content gid k P (w\<lparr>sched := as\<rparr>) = journeyAnd content gid k P w"
  by (rule journeyIs_store; simp) (rule journeyAnd_cong; simp)+

lemma journeyIs_Save:
  assumes "redisLaws E content" and "journeyIs content gid k w" and "cached content w = Some v0" and "Save E c (v0\<lparr>Invoice := i\<rparr>) w = (r, w')"
  shows "journeyIs content gid k w'"
proof -
  obtain st where st: "w_state w = Some st" "GuestId st = gid" "cacheable v0" "(GuestID v0, PersonalInfo v0, Booking v0) = k"
    using assms(2,3) by (auto simp: journeyIs_def)
  have c: "cacheable (v0\<lparr>Invoice := i\<rparr>)" using st by simp
  show ?thesis
    using Save_any [OF assms(1) c assms(4)] st assms(3) by (fastforce simp: journeyIs_def)
qed

lemma matchPaymentRequest_run:
  assumes laws: "redisLaws E content" and J: "journeyIs content gid k w"
    and run: "matchPaymentRequest E (Some c) (Some m) w = (r, w')"
  shows "journeyIs content gid k w'" and "r = Ret u \<Longrightarrow> journeyAnd content gid k (invoiced E m) w'"
proof -
  obtain r1 w1 where ld: "Load E c w = (r1, w1)" by fastforce
  have J1: "journeyIs content gid k w1" by (rule Load_journeyIs [OF laws J ld])
  let ?new = "\<lambda>v. v\<lparr>Invoice := Some ((case Invoice v of None \<Rightarrow> zeroInvoice | Some i \<Rightarrow> i)
    \<lparr>InvoiceNumber := TrimSpace (pr_InvoiceNumber m)\<rparr>)\<rparr>"
  have cases: "(\<not> (\<exists>a. r = Ret a) \<and> w' = w1) \<or> (\<exists>v. r1 = Ret v \<and> requestFor E v m \<and> Save E c (?new v) w1 = (r, w'))"
    using run
    by (auto simp: matchPaymentRequest_def onCache_def bindE_def ld requestFor_def Let_def
        split: if_splits option.splits res.splits)
  have v1: "cached content w1 = Some v" if "r1 = Ret v" for v
    using Load_cached(2) [OF laws] ld that by blast
  show "journeyIs content gid k w'"
    using cases J1 journeyIs_Save [OF laws J1 v1] by blast
  then show "r = Ret u \<Longrightarrow> journeyAnd content gid k (invoiced E m) w'"
  proof -
    assume "r = Ret u" and J': "journeyIs content gid k w'"
    then obtain v where v: "r1 = Ret v" "requestFor E v m" and sv: "Save E c (?new v) w1 = (Ret u, w')"
      using cases by auto
    have "cacheable v" using J1 v1 [OF v(1)] by (auto simp: journeyIs_def)
    then have "cached content w' = Some (?new v)" using Save_cached(1) [OF laws _ sv] by simp
    moreover have "invoiced E m (?new v)" using v(2) by (auto simp: invoiced_def requestFor_def)
    ultimately show ?thesis using J' by (simp add: journeyAnd_def)
  qed
qed

lemma matchBookingConfirmation_run:
  assumes laws: "redisLaws E content" and J: "journeyIs content gid k w"
    and run: "matchBookingConfirmation E (Some c) (Some m) w = (r, w')"
  shows "journeyIs content gid k w'" and "r = Ret u \<Longrightarrow> journeyAnd content gid k (\<lambda>v. confirms gid v m) w'"
proof -
  obtain r1 w1 where ld: "Load E c w = (r1, w1)" by fastforce
  have J1: "journeyIs content gid k w1" by (rule Load_journeyIs [OF laws J ld])
  then obtain st where st: "w_state w1 = Some st" "GuestId st = gid" by (auto simp: journeyIs_def)
  have cases: "w' = w1 \<and> ((\<exists>a. r = Ret a) \<longrightarrow> (\<exists>v. r1 = Ret v \<and> confirms gid v m))"
    using run
    by (auto simp: matchBookingConfirmation_def onCache_def bindE_def ld deref_def st confirms_def
        split: if_splits option.splits res.splits)
  then show "journeyIs content gid k w'" using J1 by simp
  show "r = Ret u \<Longrightarrow> journeyAnd content gid k (\<lambda>v. confirms gid v m) w'"
    using cases J1 Load_cached(2) [OF laws, of c w _ w1] ld by (auto simp: journeyAnd_def)
qed

lemma matchCheckinToday_run:
  assumes laws: "redisLaws E content" and J: "journeyIs content gid k w"
    and run: "matchCheckinToday E (Some c) (Some m) w = (r, w')"
  shows "journeyIs content gid k w'" and "r = Ret u \<Longrightarrow> journeyAnd content gid k (\<lambda>v. checkinFor gid v m) w'"
proof -
  obtain r1 w1 where ld: "Load E c w = (r1, w1)" by fastforce
  have J1: "journeyIs content gid k w1" by (rule Load_journeyIs [OF laws J ld])
  then obtain st where st: "w_state w1 = Some st" "GuestId st = gid" by (auto simp: journeyIs_def)
  have cases: "w' = w1 \<and> ((\<exists>a. r = Ret a) \<longrightarrow> (\<exists>v. r1 = Ret v \<and> checkinFor gid v m))"
    using run
    by (auto simp: matchCheckinToday_def onCache_def bindE_def ld deref_def st checkinFor_def TimeEqual_def
        split: if_splits option.splits res.splits)
  then show "journeyIs content gid k w'" using J1 by simp
  show "r = Ret u \<Longrightarrow> journeyAnd content gid k (\<lambda>v. checkinFor gid v m) w'"
    using cases J1 Load_cached(2) [OF laws, of c w _ w1] ld by (auto simp: journeyAnd_def)
qed

text \<open>A system whose store, network and runtime keep their contracts.\<close>

definition systemLaws :: "'x System \<Rightarrow> ('x \<Rightarrow> string \<Rightarrow> json option) \<Rightarrow> bool" where
  "systemLaws S content \<longleftrightarrow> redisLaws (sysE S) content \<and> netLaws (sysN S) content \<and> iterationOrder (mapOrder (sysR S))"

locale journey_system =
  fixes S :: "'x System" and content :: "'x \<Rightarrow> string \<Rightarrow> json option" and c :: Cache
  assumes sys: "systemLaws S content"
begin

lemmas sysD = sys [unfolded systemLaws_def, THEN conjunct1] sys [unfolded systemLaws_def, THEN conjunct2, THEN conjunct1]
  sys [unfolded systemLaws_def, THEN conjunct2, THEN conjunct2]

end

lemma waiting_journey:
  fixes S :: "'x System" and match :: "'m \<Rightarrow> ('x JWorld, unit) go"
  assumes sys: "systemLaws S content" and topic: "bus_topic get upd decode"
    and rest: "\<And>m w0. keeps (sameRest w0) (match m)"
    and run: "\<And>m w r w'. journeyIs content gid k w \<Longrightarrow> match m w = (r, w') \<Longrightarrow> journeyIs content gid k w'"
    and acc: "\<And>m w u w'. journeyIs content gid k w \<Longrightarrow> match m w = (Ret u, w') \<Longrightarrow> journeyAnd content gid k (P m) w'"
  shows "waiting get upd decode S match (journeyIs content gid k) (\<lambda>m. journeyAnd content gid k (P m))"
proof (intro waiting.intro waiting_axioms.intro)
  show "bus_topic get upd decode" by (rule topic)
  show "iterationOrder (mapOrder (sysR S))" using sys by (simp add: systemLaws_def)
  show "journeyIs content gid k w \<Longrightarrow> journeyIs content gid k (envStep S a w)" for w a
    using sys journeyIs_env unfolding systemLaws_def by blast
  show "journeyIs content gid k w \<Longrightarrow> ctxErr (sysE S) (w_ext w) = (ce, x) \<Longrightarrow> journeyIs content gid k (w\<lparr>w_ext := x\<rparr>)"
    for w :: "'x JWorld" and ce x
    using sys by (intro journeyIs_ctx [where E = "sysE S"]) (simp_all add: systemLaws_def)
  show "match m w = (r, w') \<Longrightarrow> bus w' = bus w" for m w r w' by (rule sameRest_bus(1) [OF rest])
  show "journeyIs content gid k w \<Longrightarrow> match m w = (Ret u, w') \<Longrightarrow> journeyAnd content gid k (P m) w'" for m w u w'
    by (rule acc)
  show "journeyIs content gid k w \<Longrightarrow> match m w = (Err e, w') \<Longrightarrow> journeyIs content gid k w'" for m w e w'
    by (rule run)
qed simp_all

sublocale journey_system \<subseteq> payw: waiting paymentRequests paymentRequests_update decodePayment S
    "\<lambda>m. matchPaymentRequest (sysE S) (Some c) (Some m)" "journeyIs content gid k"
    "\<lambda>m. journeyAnd content gid k (invoiced (sysE S) m)" for gid k
  by (rule waiting_journey [OF sys payments.bus_topic_axioms sameRest_matches(1)])
    (erule (1) matchPaymentRequest_run [OF sysD(1)], erule (1) matchPaymentRequest_run(2) [OF sysD(1)], rule refl)

sublocale journey_system \<subseteq> confw: waiting bookingConfirmations bookingConfirmations_update decodeConfirmation S
    "\<lambda>m. matchBookingConfirmation (sysE S) (Some c) (Some m)" "journeyIs content gid k"
    "\<lambda>m. journeyAnd content gid k (\<lambda>v. confirms gid v m)" for gid k
  by (rule waiting_journey [OF sys confirmations.bus_topic_axioms sameRest_matches(2)])
    (erule (1) matchBookingConfirmation_run [OF sysD(1)], erule (1) matchBookingConfirmation_run(2) [OF sysD(1)], rule refl)

sublocale journey_system \<subseteq> ciw: waiting checkinToday checkinToday_update decodeCheckin S
    "\<lambda>m. matchCheckinToday (sysE S) (Some c) (Some m)" "journeyIs content gid k"
    "\<lambda>m. journeyAnd content gid k (\<lambda>v. checkinFor gid v m)" for gid k
  by (rule waiting_journey [OF sys checkins.bus_topic_axioms sameRest_matches(3)])
    (erule (1) matchCheckinToday_run [OF sysD(1)], erule (1) matchCheckinToday_run(2) [OF sysD(1)], rule refl)

context journey_system
begin

lemma payment_wait:
  assumes "topicInv (paymentRequests (bus w))" and "journeyIs content gid k w"
    and "WaitPaymentRequestMessage S (Some c) w = (Ret (), w')"
  shows "\<exists>m \<in> offered paymentRequests decodePayment S w. journeyAnd content gid k (invoiced (sysE S) m) w'"
  using payw.accepted [OF assms(1,2)] assms(3) by (simp add: WaitPaymentRequestMessage_def)

lemma confirmation_wait:
  assumes "topicInv (bookingConfirmations (bus w))" and "journeyIs content gid k w"
    and "WaitBookingConfirmationMessage S (Some c) w = (Ret (), w')"
  shows "\<exists>m \<in> offered bookingConfirmations decodeConfirmation S w. journeyAnd content gid k (\<lambda>v. confirms gid v m) w'"
  using confw.accepted [OF assms(1,2)] assms(3) by (simp add: WaitBookingConfirmationMessage_def)

lemma checkin_wait:
  assumes "topicInv (checkinToday (bus w))" and "journeyIs content gid k w"
    and "WaitCheckinTodayMessage S (Some c) w = (Ret (), w')"
  shows "\<exists>m \<in> offered checkinToday decodeCheckin S w. journeyAnd content gid k (\<lambda>v. checkinFor gid v m) w'"
  using ciw.accepted [OF assms(1,2)] assms(3) by (simp add: WaitCheckinTodayMessage_def)

end

end
