(* ===== verification/Communication.thy ===== *)
theory Communication
  imports Waits
begin

text \<open>
  Setting up and closing the communication of a guest:
  \<open>SetupCommunication\<close> (guest\_communication.go), \<open>CloseCommunication\<close> and
  \<open>CleanupState\<close> (cleanup\_service.go) in internal/app/journey/journey\_services. A
  successful set-up leaves a bus with no old message, no old subscriber and a running pump
  whose done channel is open; the queue and the routing key carry the guest id.
\<close>

subsection \<open>Setup\<close>

text \<open>\<open>if err := m; err != nil { _ = consumer.CloseChannel(); return err }\<close>\<close>

definition orClose :: "'x Amqp \<Rightarrow> (('x, 'z) MqWorld_scheme, 'a) go \<Rightarrow> (('x, 'z) MqWorld_scheme, 'a) go" where
  "orClose A m = bindE (tryE m) (\<lambda>r. case r of
      Inl e \<Rightarrow> thenE (ignoreErr (CloseChannel A)) (throw e)
    | Inr a \<Rightarrow> ret a)"

definition guestQueue :: "RabbitMqConsumerConfig \<Rightarrow> State \<Rightarrow> QueueConfig" where
  "guestQueue cfg state = (cfg_Queue cfg)\<lparr>q_Name := QueueName state, q_Durable := False, q_AutoDelete := True\<rparr>"

definition guestBinding :: "RabbitMqConsumerConfig \<Rightarrow> State \<Rightarrow> BindingConfig" where
  "guestBinding cfg state =
     (let b = cfg_Binding cfg;
          b' = (if b_ExchangeName b = [] then b\<lparr>b_ExchangeName := guestCommunicationExchange\<rparr> else b)
      in b'\<lparr>b_RoutingKey := RoutingKey state\<rparr>)"

text \<open>\<open>consumer\<close> and \<open>hasBus\<close>: the pointers are not nil.\<close>

definition SetupCommunication :: "'x System \<Rightarrow> RabbitMqConsumerConfig \<Rightarrow> bool \<Rightarrow> bool \<Rightarrow> ('x JWorld, unit) go" where
  "SetupCommunication S cfg consumer hasBus = bindE (getW w_state) (\<lambda>st. case st of
      None \<Rightarrow> throw (Errorf ''invalid state, state is nil'')
    | Some s \<Rightarrow>
        if GuestId s = [] then throw (Errorf ''invalid state, guestId is empty'')
        else if \<not> consumer then throw (Errorf ''invalid rabbitmq consumer'')
        else if \<not> hasBus then throw (Errorf ''invalid guest communication runtime'')
        else
          thenE (setState (\<lambda>s. s\<lparr>QueueName := guestQueuePrefix @ GuestId s, RoutingKey := guestRoutingKeyPrefix @ GuestId s\<rparr>))
         (bindE deref (\<lambda>state.
          thenE (orClose (sysA S) (DeclareQueue (sysA S) (guestQueue cfg state)))
         (thenE (orClose (sysA S) (BindQueue (sysA S) (guestBinding cfg state)))
         (thenE (orClose (sysA S) (Consume (sysA S)))
           (modW (\<lambda>w. w\<lparr>bus := StartBus ((Reset (bus w))\<lparr>Consumer := True\<rparr>)\<rparr>)))))))"

subsection \<open>Cleanup\<close>

definition CloseCommunication :: "'x System \<Rightarrow> bool \<Rightarrow> ('x JWorld, unit) go" where
  "CloseCommunication S hasBus = bindE (getW w_state) (\<lambda>st.
     if st = None then throw (Errorf ''invalid state, state is nil'')
     else bindE (getW bus) (\<lambda>b.
       if \<not> hasBus \<or> \<not> Consumer b then ret ()
       else thenE (CloseChannel (sysA S)) (modW (\<lambda>w. w\<lparr>bus := Reset ((bus w)\<lparr>Consumer := False\<rparr>)\<rparr>))))"

definition CleanupState :: "'x System \<Rightarrow> JourneyCacheService \<Rightarrow> bool \<Rightarrow> ('x JWorld, unit) go" where
  "CleanupState S cacheService hasBus =
     thenE (DeleteStateCache (sysE S) cacheService) (CloseCommunication S hasBus)"

subsection \<open>The invariant of the bus\<close>

definition busInv :: "GuestCommunicationBus \<Rightarrow> bool" where
  "busInv b \<longleftrightarrow> topicInv (paymentRequests b) \<and> topicInv (bookingConfirmations b) \<and> topicInv (checkinToday b)
     \<and> doneChan b < nextDone b \<and> (\<forall>k \<in> set (closedDone b). k < nextDone b) \<and> (\<forall>k \<in> set (pumps b). k < nextDone b)
     \<and> (\<forall>k \<in> set (pumps b). k \<notin> set (closedDone b)) \<and> (DoneClosed b \<longrightarrow> busErr b \<noteq> None)"

lemma busInv_new: "busInv NewGuestCommunicationBus"
  by (simp add: busInv_def NewGuestCommunicationBus_def topicInv_new DoneClosed_def)

lemma busInv_makeDone: "busInv b \<Longrightarrow> busInv (makeDone b)" "busInv b \<Longrightarrow> \<not> DoneClosed (makeDone b)"
  by (auto simp: busInv_def makeDone_def DoneClosed_def less_Suc_eq)

lemma busInv_StartBus: "busInv b \<Longrightarrow> busInv (StartBus b)"
  by (auto simp: busInv_def StartBus_def makeDone_def DoneClosed_def Let_def less_Suc_eq)

lemma busInv_Reset: "busInv b \<Longrightarrow> busInv (Reset b)"
  unfolding Reset_def
  by (rule busInv_makeDone) (auto simp: busInv_def topicInv_topic(2) DoneClosed_def)

lemma busInv_deliver:
  assumes "busInv b" and "iterationOrder (mapOrder R)"
  shows "busInv (pumpDeliver R d b)"
proof -
  have "topicInv (paymentRequests (pumpDeliver R d b))" "topicInv (bookingConfirmations (pumpDeliver R d b))"
    "topicInv (checkinToday (pumpDeliver R d b))"
    using assms payments.deliver_inv confirmations.deliver_inv checkins.deliver_inv by (simp_all add: busInv_def)
  moreover have "doneChan (pumpDeliver R d b) = doneChan b" "nextDone (pumpDeliver R d b) = nextDone b"
    "closedDone (pumpDeliver R d b) = closedDone b" "pumps (pumpDeliver R d b) = pumps b" "busErr (pumpDeliver R d b) = busErr b"
    by (auto simp: bus_step_defs split: option.splits)
  ultimately show ?thesis using assms(1) by (simp add: busInv_def DoneClosed_def)
qed

lemma busInv_stop: "busInv b \<Longrightarrow> k \<in> set (pumps b) \<Longrightarrow> busInv (pumpStop e k b)"
  by (auto simp: busInv_def pumpStop_def DoneClosed_def)

lemma busInv_env:
  assumes "busInv (bus w)" and "iterationOrder (mapOrder (sysR S))"
  shows "busInv (bus (envStep S a w))"
proof (cases a)
  case (ReadFrame f)
  then show ?thesis using assms(1)
    by (cases "readFrame (sysN S) f (chat w)") (simp add: Let_def sendAck_frame split: option.splits)
next
  case (BusCancelled k)
  then show ?thesis using assms(1) by (auto simp: whenCancelled_def busInv_stop split: prod.splits option.splits)
next
  case HubCancelled
  then show ?thesis using assms(1) by (auto simp: whenCancelled_def split: prod.splits option.splits)
next
  case (HourCancelled i)
  then show ?thesis using assms(1) by (auto simp: whenCancelled_def split: prod.splits option.splits)
qed (use assms in \<open>auto simp: busInv_deliver busInv_stop\<close>)

subsection \<open>How the bus moves\<close>

text \<open>
  What the goroutine of the journey does to a topic and to its bus. A bus is reached from the new one
  by these moves, by deliveries that a running pump takes and by the end of a pump.
\<close>

inductive topicMove :: "'m Topic \<Rightarrow> 'm Topic \<Rightarrow> bool" where
  subscribed: "makeChan t = (ch, t') \<Longrightarrow> topicMove t (subscribe ch t')"
| taken: "takePending t = Some (m, t') \<Longrightarrow> topicMove t t'"
| received: "receive ch t = Some (m, t') \<Longrightarrow> topicMove t t'"
| unsubscribed: "topicMove t (unsubscribe ch t)"

inductive busMove :: "GuestCommunicationBus \<Rightarrow> GuestCommunicationBus \<Rightarrow> bool" where
  set_up: "busMove b (StartBus ((Reset b)\<lparr>Consumer := True\<rparr>))"
| close: "busMove b (Reset (b\<lparr>Consumer := False\<rparr>))"
| payment: "topicMove (paymentRequests b) t \<Longrightarrow> busMove b (paymentRequests_update (\<lambda>_. t) b)"
| confirmation: "topicMove (bookingConfirmations b) t \<Longrightarrow> busMove b (bookingConfirmations_update (\<lambda>_. t) b)"
| checkin: "topicMove (checkinToday b) t \<Longrightarrow> busMove b (checkinToday_update (\<lambda>_. t) b)"

inductive busReach :: "Runtime \<Rightarrow> GuestCommunicationBus \<Rightarrow> bool" for R where
  new: "busReach R NewGuestCommunicationBus"
| own: "busReach R b \<Longrightarrow> busMove b b' \<Longrightarrow> busReach R b'"
| deliver: "busReach R b \<Longrightarrow> pumps b \<noteq> [] \<Longrightarrow> busReach R (pumpDeliver R d b)"
| stop: "busReach R b \<Longrightarrow> k \<in> set (pumps b) \<Longrightarrow> busReach R (pumpStop e k b)"

lemma topicMove_inv: "topicMove t t' \<Longrightarrow> topicInv t \<Longrightarrow> topicInv t'"
  by (induction rule: topicMove.induct) (auto dest: topicInv_ops topicInv_topic)

lemma busMove_inv: "busMove b b' \<Longrightarrow> busInv b \<Longrightarrow> busInv b'"
proof (induction rule: busMove.induct)
  case (set_up b)
  from busInv_Reset [OF set_up] show ?case by (intro busInv_StartBus) (simp add: busInv_def DoneClosed_def)
next
  case (close b)
  then show ?case by (intro busInv_Reset) (simp add: busInv_def DoneClosed_def)
qed (auto simp: busInv_def DoneClosed_def dest: topicMove_inv)

text \<open>A done channel is closed by its own pump, once.\<close>

definition onceClosed :: "GuestCommunicationBus \<Rightarrow> bool" where
  "onceClosed b \<longleftrightarrow> distinct (pumps b @ closedDone b)"

lemma busReach_inv: "busReach R b \<Longrightarrow> iterationOrder (mapOrder R) \<Longrightarrow> busInv b \<and> onceClosed b"
proof (induction rule: busReach.induct)
  case new
  then show ?case by (simp add: busInv_new) (simp add: onceClosed_def NewGuestCommunicationBus_def)
next
  case (own b b')
  from own.hyps(2) own.IH [OF own.prems] have "onceClosed b'"
    by (cases rule: busMove.cases) (auto simp: onceClosed_def StartBus_def Reset_def makeDone_def Let_def busInv_def)
  then show ?case using own busMove_inv by blast
next
  case (deliver b d)
  have "onceClosed (pumpDeliver R d b) = onceClosed b"
    by (auto simp: onceClosed_def bus_step_defs split: option.splits)
  then show ?case using deliver busInv_deliver by blast
next
  case (stop b k e)
  then show ?case using busInv_stop by (auto simp: onceClosed_def pumpStop_def distinct_removeAll)
qed

lemma envStep_busReach: "busReach (sysR S) (bus w) \<Longrightarrow> busReach (sysR S) (bus (envStep S a w))"
proof (cases a)
  case (ReadFrame f)
  then show "busReach (sysR S) (bus w) \<Longrightarrow> ?thesis"
    by (cases "readFrame (sysN S) f (chat w)") (simp add: Let_def sendAck_frame split: option.splits)
qed (auto simp: whenCancelled_def split: prod.splits option.splits intro: busReach.deliver busReach.stop)

subsection \<open>What a set-up leaves behind\<close>

lemma Reset_empty:
  "pendingMsgs (paymentRequests (Reset b)) = []" "pendingMsgs (bookingConfirmations (Reset b)) = []"
  "pendingMsgs (checkinToday (Reset b)) = []" "items (chans (paymentRequests (Reset b))) = []"
  "items (chans (bookingConfirmations (Reset b))) = []" "items (chans (checkinToday (Reset b))) = []"
  by (simp_all add: Reset_def makeDone_def resetTopic_def NewSet_def)

definition freshBus :: "GuestCommunicationBus \<Rightarrow> bool" where
  "freshBus b \<longleftrightarrow> Consumer b \<and> busErr b = None \<and> \<not> DoneClosed b \<and> doneChan b \<in> set (pumps b)
     \<and> pendingMsgs (paymentRequests b) = [] \<and> pendingMsgs (bookingConfirmations b) = [] \<and> pendingMsgs (checkinToday b) = []
     \<and> items (chans (paymentRequests b)) = [] \<and> items (chans (bookingConfirmations b)) = []
     \<and> items (chans (checkinToday b)) = []"

lemma freshBus_setup: "busInv b \<Longrightarrow> freshBus (StartBus ((Reset b)\<lparr>Consumer := True\<rparr>)) \<and> busInv (StartBus ((Reset b)\<lparr>Consumer := True\<rparr>))"
proof -
  assume b: "busInv b"
  have r: "busInv ((Reset b)\<lparr>Consumer := True\<rparr>)" using busInv_Reset [OF b] by (simp add: busInv_def DoneClosed_def)
  have "\<not> DoneClosed (StartBus ((Reset b)\<lparr>Consumer := True\<rparr>))"
    using busInv_makeDone(2) [OF r] by (simp add: StartBus_def Let_def DoneClosed_def)
  then show ?thesis
    using busInv_StartBus [OF r] Reset_empty [of b]
    by (simp add: freshBus_def StartBus_def makeDone_def Let_def)
qed

text \<open>The AMQP operations leave everything but the consumer and the services alone.\<close>

definition rabbitOnly :: "'x JWorld \<Rightarrow> 'x JWorld \<Rightarrow> bool" where
  "rabbitOnly w0 w \<longleftrightarrow> w\<lparr>w_ext := w_ext w0, rabbit := rabbit w0\<rparr> = w0"

lemma rabbitOnly_basic [go_keeps]:
  "keeps (rabbitOnly w0) (ext f)" "keeps (rabbitOnly w0) (extV g)" "keeps (rabbitOnly w0) (setRabbit h)"
  by (auto intro!: keepsI simp: rabbitOnly_def ext_Ret_iff extV_Ret_iff setRabbit_def)

lemma keeps_case_sum [go_keeps]:
  "(\<And>x. keeps P (f x)) \<Longrightarrow> (\<And>y. keeps P (g y)) \<Longrightarrow> keeps P (case z of Inl x \<Rightarrow> f x | Inr y \<Rightarrow> g y)"
  by (cases z) simp_all

lemma rabbitOnly_dialLoop [go_keeps]: "keeps (rabbitOnly w0) (dialLoop A n e)"
  by (induction n arbitrary: e) (auto intro!: go_keeps)

lemma rabbitOnly_open [go_keeps]: "keeps (rabbitOnly w0) (openConnection A)" "keeps (rabbitOnly w0) (openChannel A)"
  by (auto simp: openConnection_def openChannel_def reconnectLocked_def currentConn_def intro!: go_keeps)

lemma rabbitOnly_consumer [go_keeps]:
  "keeps (rabbitOnly w0) (ensureChannel A)" "keeps (rabbitOnly w0) (CloseChannel A)"
  by (auto simp: ensureChannel_def channelGone_def reopenChannel_def CloseChannel_def intro!: go_keeps)

lemma rabbitOnly_ops [go_keeps]:
  "keeps (rabbitOnly w0) (DeclareQueue A q)" "keeps (rabbitOnly w0) (BindQueue A b)" "keeps (rabbitOnly w0) (Consume A)"
  by (auto simp: DeclareQueue_def BindQueue_def Consume_def wrapErr_def intro!: go_keeps)

lemma rabbitOnly_orClose [go_keeps]: "keeps (rabbitOnly w0) m \<Longrightarrow> keeps (rabbitOnly w0) (orClose A m)"
  by (auto simp: orClose_def intro!: go_keeps)

lemma rabbitOnlyD:
  assumes "keeps (rabbitOnly w) m" and "m w = (r, w')"
  shows "w_state w' = w_state w" "bus w' = bus w" "hub w' = hub w" "chat w' = chat w" "sched w' = sched w"
proof -
  have "rabbitOnly w w" by (simp add: rabbitOnly_def)
  then have "w = w'\<lparr>w_ext := w_ext w, rabbit := rabbit w\<rparr>" using keepsD [OF assms(1) _ assms(2)] by (simp add: rabbitOnly_def)
  then show "w_state w' = w_state w" "bus w' = bus w" "hub w' = hub w" "chat w' = chat w" "sched w' = sched w"
    by (metis JWorld.select_convs JWorld.surjective MqWorld.update_convs World.update_convs World.select_convs(1))+
qed

lemma SetupCommunication_Ret:
  assumes run: "SetupCommunication S cfg consumer hasBus w = (Ret u, w')" and inv: "busInv (bus w)"
  shows "\<exists>s. w_state w = Some s \<and> GuestId s \<noteq> [] \<and> consumer \<and> hasBus
    \<and> w_state w' = Some (s\<lparr>QueueName := ''q.guest.'' @ GuestId s, RoutingKey := ''guest.'' @ GuestId s\<rparr>)
    \<and> bus w' = StartBus ((Reset (bus w))\<lparr>Consumer := True\<rparr>)
    \<and> freshBus (bus w') \<and> busInv (bus w') \<and> sched w' = sched w"
proof -
  from run obtain s where s: "w_state w = Some s" "GuestId s \<noteq> []" and args: "consumer" "hasBus"
    by (auto simp: SetupCommunication_def split: option.splits if_splits)
  let ?s = "s\<lparr>QueueName := ''q.guest.'' @ GuestId s, RoutingKey := ''guest.'' @ GuestId s\<rparr>"
  let ?w1 = "w\<lparr>w_state := Some ?s\<rparr>"
  let ?prep = "thenE (orClose (sysA S) (DeclareQueue (sysA S) (guestQueue cfg ?s)))
    (thenE (orClose (sysA S) (BindQueue (sysA S) (guestBinding cfg ?s))) (orClose (sysA S) (Consume (sysA S))))"
  from run s args obtain w2 where st: "?prep ?w1 = (Ret (), w2)"
    and w': "w' = w2\<lparr>bus := StartBus ((Reset (bus w2))\<lparr>Consumer := True\<rparr>)\<rparr>"
    by (auto simp: SetupCommunication_def thenE_Ret_iff setState_Ret_iff deref_Ret_iff bindE_Ret_iff
        guestQueuePrefix_def guestRoutingKeyPrefix_def)
  have "keeps (rabbitOnly ?w1) ?prep" by (intro go_keeps)
  from rabbitOnlyD [OF this st] have "w_state w2 = Some ?s" "bus w2 = bus w" "sched w2 = sched w" by simp_all
  with w' s args freshBus_setup [OF inv] show ?thesis by simp
qed

text \<open>The AMQP library does not write the Redis store.\<close>

definition amqpLaws :: "'x Amqp \<Rightarrow> ('x \<Rightarrow> 'c) \<Rightarrow> bool" where
  "amqpLaws A content \<longleftrightarrow>
     (\<forall>x. content (snd (amqpDial A x)) = content x) \<and> (\<forall>k x. content (snd (connIsClosed A k x)) = content x)
   \<and> (\<forall>k x. content (snd (connClose A k x)) = content x) \<and> (\<forall>k x. content (snd (connChannel A k x)) = content x)
   \<and> (\<forall>k x. content (snd (chanIsClosed A k x)) = content x) \<and> (\<forall>k x. content (snd (chanClose A k x)) = content x)
   \<and> (\<forall>k q x. content (snd (queueDeclare A k q x)) = content x)
   \<and> (\<forall>k n b x. content (snd (queueBind A k n b x)) = content x)
   \<and> (\<forall>k n f x. content (snd (consumeWithContext A k n f x)) = content x)"

definition contentIs :: "('x \<Rightarrow> 'c) \<Rightarrow> 'c \<Rightarrow> ('x, 'z) World_scheme \<Rightarrow> bool" where
  "contentIs content m w \<longleftrightarrow> content (w_ext w) = m"

lemma keeps_content:
  "(\<And>x. content (snd (f x)) = content x) \<Longrightarrow> keeps (contentIs content m) (ext f)"
  "(\<And>x. content (snd (g x)) = content x) \<Longrightarrow> keeps (contentIs content m) (extV g)"
  by (auto intro!: keepsI simp: contentIs_def ext_Ret_iff extV_Ret_iff) (metis snd_conv)+

text \<open>A condition on the content is kept where the content is.\<close>

lemma keeps_on_content:
  assumes "\<And>m. keeps (contentIs content m) f"
  shows "keeps (\<lambda>w. Q (content (w_ext w))) f"
  using assms by (auto simp: keeps_def contentIs_def)

locale amqp_store =
  fixes A :: "'x Amqp" and content :: "'x \<Rightarrow> 'c"
  assumes amqp: "amqpLaws A content"
begin

lemma lib:
  "keeps (contentIs content m) (ext (amqpDial A))" "keeps (contentIs content m) (extV (connIsClosed A k))"
  "keeps (contentIs content m) (ext (connClose A k))" "keeps (contentIs content m) (ext (connChannel A k))"
  "keeps (contentIs content m) (extV (chanIsClosed A k))" "keeps (contentIs content m) (ext (chanClose A k))"
  "keeps (contentIs content m) (ext (queueDeclare A k q))" "keeps (contentIs content m) (ext (queueBind A k n b))"
  "keeps (contentIs content m) (ext (consumeWithContext A k n f))" "keeps (contentIs content m) (setRabbit h)"
  using amqp unfolding amqpLaws_def
  by (auto intro!: keeps_content) (auto intro!: keepsI simp: contentIs_def setRabbit_def)

lemma dial: "keeps (contentIs content m) (dialLoop A n e)"
  by (induction n arbitrary: e) (auto intro!: go_keeps lib)

lemma channel:
  "keeps (contentIs content m) (ensureChannel A)" "keeps (contentIs content m) (CloseChannel A)" "keeps (contentIs content m) (openChannel A)"
  by (auto simp: ensureChannel_def channelGone_def reopenChannel_def openChannel_def openConnection_def reconnectLocked_def
      currentConn_def CloseChannel_def intro!: go_keeps lib dial)

lemma consumer:
  "keeps (contentIs content m) (DeclareQueue A q)" "keeps (contentIs content m) (BindQueue A b)"
  "keeps (contentIs content m) (Consume A)"
  by (auto simp: DeclareQueue_def BindQueue_def Consume_def wrapErr_def intro!: go_keeps lib channel)

lemma close_after: "keeps (contentIs content m) k \<Longrightarrow> keeps (contentIs content m) (orClose A k)"
  by (auto simp: orClose_def intro!: go_keeps channel)

end

lemma SetupCommunication_content:
  assumes laws: "amqpLaws (sysA S) content"
  shows "keeps (contentIs content m) (SetupCommunication S cfg consumer hasBus)"
proof -
  note a = amqp_store.consumer [OF amqp_store.intro [OF laws]] amqp_store.close_after [OF amqp_store.intro [OF laws]]
  have "keeps (contentIs content m) (setState f)" for f
    by (auto intro!: keepsI simp: contentIs_def setState_def split: option.splits)
  then show ?thesis
    unfolding SetupCommunication_def by (intro go_keeps a) (simp_all add: contentIs_def)
qed

end
