(* ===== verification/Origins.thy ===== *)
theory Origins
  imports Communication
begin

text \<open>
  What the phases of a journey leave alone. The flows do not touch the bus, the hub, the
  chat or the schedule; none of the phases after registration changes the guest of the
  journey; and every message on the bus was decoded from a delivery of the schedule, also
  after a wait has run.
\<close>

subsection \<open>The guest of a journey\<close>

definition guestIs :: "string \<times> Guest option \<Rightarrow> ('x, 'z) World_scheme \<Rightarrow> bool" where
  "guestIs k w \<longleftrightarrow> (\<exists>st. w_state w = Some st \<and> (GuestId st, StGuest st) = k)"

lemma guestIs_outside [go_keeps]:
  "keeps (guestIs k) (ext f)" "keeps (guestIs k) (extV g)"
  by (auto intro!: keepsI simp: guestIs_def ext_Ret_iff extV_Ret_iff)

lemma guestIs_setState [go_keeps]:
  "(\<And>s. (GuestId (h s), StGuest (h s)) = (GuestId s, StGuest s)) \<Longrightarrow> keeps (guestIs k) (setState h)"
  by (auto intro!: keepsI simp: guestIs_def setState_def split: option.splits)

lemma guestIs_EnsureKey [go_keeps]: "keeps (guestIs k) EnsureKey"
  by (auto intro!: keepsI dest!: EnsureKey_world simp: guestIs_def)

lemma guestIs_cong: "w_state w' = w_state w \<Longrightarrow> guestIs k w' = guestIs k w"
  by (simp add: guestIs_def)

subsection \<open>Frames of the flows\<close>

lemma keeps_httpCall [go_keeps]: "keeps P (ext (httpDo E q)) \<Longrightarrow> keeps P (httpCall E client q)"
  by (simp add: httpCall_def go_keeps)

lemma keeps_case_res_pair [go_keeps]:
  "(\<And>x. keeps P (f x)) \<Longrightarrow> (\<And>y z. keeps P (g y z)) \<Longrightarrow> keeps P (case s of Inl x \<Rightarrow> f x | Inr (y, z) \<Rightarrow> g y z)"
  by (cases s) auto

lemma keeps_if_known: "(c \<Longrightarrow> keeps P m) \<Longrightarrow> (\<not> c \<Longrightarrow> keeps P k) \<Longrightarrow> keeps P (if c then m else k)"
  by simp

lemma keeps_case_known:
  "(z = None \<Longrightarrow> keeps P m) \<Longrightarrow> (\<And>x. z = Some x \<Longrightarrow> keeps P (k x)) \<Longrightarrow> keeps P (case z of None \<Rightarrow> m | Some x \<Rightarrow> k x)"
  by (cases z) simp_all

lemma keeps_bind_known:
  assumes "keeps P m" and "\<And>a w w'. m w = (Ret a, w') \<Longrightarrow> keeps P (k a)"
  shows "keeps P (bindE m k)"
proof (rule keepsI)
  fix w r w'
  assume w: "P w" and run: "bindE m k w = (r, w')"
  obtain r1 w1 where m: "m w = (r1, w1)" by fastforce
  have w1: "P w1" by (rule keepsD [OF assms(1) w m])
  show "P w'"
  proof (cases r1)
    case (Ret a)
    then show ?thesis using assms(2) [of w a w1] m run w1 by (auto simp: bindE_run(1) dest: keepsD)
  qed (use run m w1 in \<open>auto simp: bindE_def\<close>)
qed

lemma candidates_good:
  assumes "collectStayCandidates E client now (sort numberOfNights) w = (Ret cs, w')" and "c \<in> set cs"
  shows "goodStay now (period c)"
proof -
  obtain st where "w_state w = Some st" using assms(1) by (auto simp: collectStayCandidates_def bindE_Ret_iff deref_Ret_iff)
  with collectStayCandidates_spec(2) [OF assms(1)] assms(2) show ?thesis using offeredBy_goodStay by blast
qed

lemma keeps_cache:
  "keeps P EnsureKey \<Longrightarrow> (\<And>k. keeps P (ext (redisGet E k))) \<Longrightarrow> keeps P (Load E c)"
  "keeps P EnsureKey \<Longrightarrow> (\<And>k j. keeps P (ext (redisSet E k j))) \<Longrightarrow> keeps P (Save E c v)"
  by (auto simp: Load_def Save_def Get_def CacheSet_def intro!: go_keeps)

text \<open>
  A frame condition that calls into the outside, the key of the journey and harmless updates keep. \<open>ok\<close> is what
  it asks of an entry that is written to the cache: nothing, or that its times have a JSON form; it then
  vouches for the entries that are read.
\<close>

locale step_frame =
  fixes E :: "'x External" and P :: "('x, 'z) World_scheme \<Rightarrow> bool" and ok :: "GuestJourneyCacheValue \<Rightarrow> bool"
  assumes out: "keeps P (ext (redisGet E k))" "keeps P (ext (redisDel E k))"
      "keeps P (ext (httpDo E q))" "keeps P (ext (clockNow E))" "keeps P (extV (ctxErr E))" "keeps P (extV (randFloat64 E))"
      "keeps P (extV (randIntn E n))"
    and key: "keeps P EnsureKey"
    and names: "keeps P (setState (\<lambda>s. s\<lparr>CottageNames := Some cs\<rparr>))"
    and save: "ok v \<Longrightarrow> keeps P (Save E c v)"
    and load_ok: "P w \<Longrightarrow> Load E c w = (Ret v, w') \<Longrightarrow> ok v"
    and demand: "ok = (\<lambda>_. True) \<or> ok = cacheable"
begin

lemma cache: "keeps P (Load E c)" "keeps P (Get E c k)" "keeps P (Del E c k)"
  by (auto simp: Load_def Get_def Del_def intro!: go_keeps out key)

lemma with_entry:
  assumes "\<And>v. ok v \<Longrightarrow> keeps P (f v)"
  shows "keeps P (bindE (Load E c) f)" "keeps P (bindE (onCache C (Load E)) f)"
proof -
  show load: "keeps P (bindE (Load E c) f)" for c
  proof (rule keepsI)
    fix w r w'
    assume w: "P w" and run: "bindE (Load E c) f w = (r, w')"
    obtain r1 w1 where ld: "Load E c w = (r1, w1)" by fastforce
    have w1: "P w1" by (rule keepsD [OF cache(1) w ld])
    show "P w'"
    proof (cases r1)
      case (Ret v)
      then have "keeps P (f v)" "f v w1 = (r, w')" using assms load_ok [OF w] ld run by (simp_all add: bindE_run(1))
      then show ?thesis using w1 by (blast dest: keepsD)
    qed (use run ld w1 in \<open>auto simp: bindE_def\<close>)
  qed
  show "keeps P (bindE (onCache C (Load E)) f)"
  proof (cases C)
    case None
    then show ?thesis by (auto simp: keeps_def onCache_def bindE_def panic_def)
  qed (simp add: onCache_def load)
qed

lemma ok_entry:
  "ok (zeroCacheValue\<lparr>PersonalInfo := g\<rparr>)" "ok v \<Longrightarrow> ok (v\<lparr>GuestID := i\<rparr>)" "ok v \<Longrightarrow> ok (v\<lparr>PersonalInfo := g\<rparr>)"
  "ok v \<Longrightarrow> ok (v\<lparr>Invoice := n\<rparr>)" "ok v \<Longrightarrow> Booking v = Some b \<Longrightarrow> ok (v\<lparr>Booking := Some (b\<lparr>BookingID := i\<rparr>)\<rparr>)"
  "ok v \<Longrightarrow> ok (v\<lparr>Booking := Some ((case Booking v of None \<Rightarrow> zeroBooking | Some b \<Rightarrow> b)\<lparr>SelectedCottage := ct\<rparr>)\<rparr>)"
  using demand by (auto simp: cacheable_def zeroCacheValue_def zeroBooking_def split: option.splits)

text \<open>A stay at UTC midnights is written with its times in JSON form or not at all.\<close>

lemma save_stay:
  assumes "goodStay now p"
  shows "keeps P (Save E c (v\<lparr>Booking := Some (b\<lparr>SelectedCottage := ct, SelectedPeriod := Some p\<rparr>)\<rparr>))"
proof (cases "marshalCache (v\<lparr>Booking := Some (b\<lparr>SelectedCottage := ct, SelectedPeriod := Some p\<rparr>)\<rparr>)")
  case None
  then show ?thesis by (auto simp: Save_def intro!: go_keeps key)
next
  case (Some j)
  have "cacheable (v\<lparr>Booking := Some (b\<lparr>SelectedCottage := ct, SelectedPeriod := Some p\<rparr>)\<rparr>)"
    by (rule marshalCache_cacheable) (use Some goodStay_UTC [OF assms] in auto)
  then show ?thesis using save demand by blast
qed

lemma collectWindows: "keeps P (collectWindows E client now opts cottage ws cs)"
proof (induction ws arbitrary: cs)
  case Nil
  show ?case unfolding collectWindows.simps by (rule keeps_basic)
next
  case (Cons d ws)
  then show ?case unfolding collectWindows.simps loadAvailablePeriods_def by (intro go_keeps out)
qed

lemma collectCottages: "keeps P (collectCottages E client now opts cts cs)"
proof (induction cts arbitrary: cs)
  case Nil
  show ?case unfolding collectCottages.simps by (rule keeps_basic)
next
  case (Cons ct cts)
  then show ?case unfolding collectCottages.simps by (intro keeps_bindE collectWindows)
qed

lemma booking_validate: "keeps P (booking_Validate C s)"
  by (cases s) (auto simp: ListCottagesStep_Validate_def SelectCottageStep_Validate_def SelectPeriodStep_Validate_def
      BookCottageStep_Validate_def EndStep_Validate_def intro!: go_keeps)

lemma select_cottage: "keeps P (SelectCottageStep_Execute E C)"
  unfolding SelectCottageStep_Execute_def Intn_def Let_def by (intro with_entry go_keeps out save ok_entry)

lemma book_cottage: "keeps P (BookCottageStep_Execute E client C)"
  unfolding BookCottageStep_Execute_def by (intro with_entry keeps_case_known go_keeps out save ok_entry)

lemma select_period: "keeps P (SelectPeriodStep_Execute E client C)"
proof -
  have search: "keeps P (collectStayCandidates E client now opts)" for now opts
    unfolding collectStayCandidates_def by (intro go_keeps collectCottages)
  have "keeps P (Save E c (v\<lparr>Booking := Some (b\<lparr>SelectedCottage := cottageName (cs ! 0), SelectedPeriod := Some (period (cs ! 0))\<rparr>)\<rparr>))"
    if "collectStayCandidates E client now (sort numberOfNights) w = (Ret cs, w')" "cs \<noteq> []" for now v b cs w w' c
    using candidates_good [OF that(1), of "cs ! 0"] that(2) by (simp add: save_stay)
  then show ?thesis
    unfolding SelectPeriodStep_Execute_def Let_def
    by (intro with_entry keeps_bind_known [OF search] keeps_if_known go_keeps out) (auto simp: maxPeriodAttempts_def)
qed

lemma booking_execute: "keeps P (booking_Execute E C s)"
  by (cases s) (auto simp: ListCottagesStep_Execute_def EndStep_Execute_def
      intro!: go_keeps out names select_cottage select_period book_cottage)

lemma payment_steps: "keeps P (payment_Validate C s)" "keeps P (payment_Execute E C s)"
proof -
  have pay: "keeps P (PayInvoiceStep_Execute E client C)" for client
    unfolding PayInvoiceStep_Execute_def PayInvoiceStep_Validate_def by (intro with_entry go_keeps out save ok_entry)
  show "keeps P (payment_Validate C s)"
    by (cases s) (auto simp: PayInvoiceStep_Validate_def EndStep_Validate_def intro!: go_keeps)
  show "keeps P (payment_Execute E C s)" using pay by (cases s) (auto simp: EndStep_Execute_def intro!: go_keeps)
qed

lemma stepLoop:
  assumes "\<And>s. keeps P (validate s)" and "\<And>s. keeps P (execute s)"
  shows "keeps P (stepLoop E validate execute stateMap n s)"
  using assms
  by (induction n arbitrary: s) (auto simp: PickRandomWeighted_def intro!: go_keeps out)

lemma booking_flow: "keeps P (BookingFlow_Start E C n)"
  by (simp add: BookingFlow_Start_def Let_def runStepGraph_def noopStep_Execute_def stepLoop booking_validate booking_execute)

lemma payment_flow: "keeps P (PaymentFlow_Start E C n)"
  by (simp add: PaymentFlow_Start_def Let_def runStepGraph_def noopStep_Execute_def stepLoop payment_steps)

lemma cache_service: "keeps P (SyncStateCache E s)" "keeps P (InitializeStateCache E s)" "keeps P (LogStateCache E s)"
  "keeps P (DeleteStateCache E s)"
  unfolding SyncStateCache_def InitializeStateCache_def LogStateCache_def DeleteStateCache_def Let_def
  by (intro with_entry go_keeps cache save; simp add: ok_entry)+

lemma matches: "keeps P (matchPaymentRequest E C pm)" "keeps P (matchBookingConfirmation E C bm)" "keeps P (matchCheckinToday E C cm)"
  unfolding matchPaymentRequest_def matchBookingConfirmation_def matchCheckinToday_def Let_def
  by (intro with_entry go_keeps save ok_entry; assumption)+

end

text \<open>One that also does not look at the state of the journey.\<close>

locale flow_frame = step_frame +
  assumes state: "keeps P (setState h)"
    and fakes: "keeps P (extV (fakeName E))" "keeps P (extV (fakeSSN E))" "keeps P (extV (fakeAddress E))"
begin

lemma register_flow: "keeps P (GuestRegisterFlow_Start E C n)"
proof -
  have "keeps P (RegisterGuestStep_Execute E client C)" for client
    unfolding RegisterGuestStep_Execute_def by (intro with_entry go_keeps out state save ok_entry)
  then have "keeps P (register_Validate True C s)" "keeps P (register_Execute E True C s)" for s
    by (cases s; auto simp: register_defs(1,3-) intro!: go_keeps out)+
  then show ?thesis
    by (simp add: GuestRegisterFlow_Start_def Let_def runStepGraph_def noopStep_Execute_def stepLoop)
qed

end

interpretation guestFrame: step_frame E "guestIs k" "\<lambda>_. True" for E k
  by unfold_locales (auto intro!: go_keeps keeps_cache)

interpretation restFrame: flow_frame E "sameRest w0" "\<lambda>_. True" for E w0
  by unfold_locales (auto intro!: go_keeps)

subsection \<open>Where the messages of the bus come from\<close>

text \<open>The messages a topic holds, queued or in the buffer of a channel.\<close>

definition held :: "'m Topic \<Rightarrow> 'm set" where
  "held t = set (pendingMsgs t) \<union> (\<Union>ch. set (buffers t ch))"

definition decoded :: "(Runtime \<Rightarrow> Delivery \<Rightarrow> 'm option) \<Rightarrow> Runtime \<Rightarrow> Delivery set \<Rightarrow> 'm set" where
  "decoded decode R D = {m. \<exists>d \<in> D. decode R d = Some m}"

definition fromDeliveries :: "Runtime \<Rightarrow> Delivery set \<Rightarrow> GuestCommunicationBus \<Rightarrow> bool" where
  "fromDeliveries R D b \<longleftrightarrow> held (paymentRequests b) \<subseteq> decoded decodePayment R D
     \<and> held (bookingConfirmations b) \<subseteq> decoded decodeConfirmation R D \<and> held (checkinToday b) \<subseteq> decoded decodeCheckin R D"

definition deliveries :: "Action list \<Rightarrow> Delivery set" where
  "deliveries as = {d. Env (BusDeliver d) \<in> set as}"

lemma held_publish:
  assumes "topicInv t" and "iterationOrder ord"
  shows "held (publish ord m t) \<subseteq> insert m (held t)"
proof -
  have "setInv (chans t)" using assms(1) by (simp add: topicInv_def)
  then show ?thesis using publish_effect [OF _ assms(2), of t m] by (auto simp: held_def split: if_splits)
qed

context bus_topic
begin

lemma held_deliver:
  assumes "topicInv (get b)" and "iterationOrder (mapOrder R)" and "d \<in> D" and "held (get b) \<subseteq> decoded decode R D"
  shows "held (get (pumpDeliver R d b)) \<subseteq> decoded decode R D"
proof (cases "decode R d")
  case None
  then show ?thesis using assms(4) by (simp add: get_deliver)
next
  case (Some m)
  then have "m \<in> decoded decode R D" using assms(3) by (auto simp: decoded_def)
  with Some assms(4) held_publish [OF assms(1,2), of m] show ?thesis by (auto simp: get_deliver)
qed

end

lemma fromDeliveries_deliver:
  assumes "busInv b" and "iterationOrder (mapOrder R)" and "d \<in> D" and "fromDeliveries R D b"
  shows "fromDeliveries R D (pumpDeliver R d b)"
  using assms payments.held_deliver [of b R d D] confirmations.held_deliver [of b R d D] checkins.held_deliver [of b R d D]
  by (simp add: fromDeliveries_def busInv_def)

lemma fromDeliveries_stop: "fromDeliveries R D (pumpStop e k b) = fromDeliveries R D b"
  by (simp add: fromDeliveries_def pumpStop_def)

lemma fromDeliveries_env:
  assumes "busInv (bus w)" and "iterationOrder (mapOrder (sysR S))" and "fromDeliveries (sysR S) D (bus w)"
    and "\<And>d. a = BusDeliver d \<Longrightarrow> d \<in> D"
  shows "fromDeliveries (sysR S) D (bus (envStep S a w))"
  using envStep_bus [of S a w] assms fromDeliveries_deliver [OF assms(1,2) _ assms(3)]
  by (auto simp: fromDeliveries_stop)

subsection \<open>A wait keeps the bus in order\<close>

definition busOk :: "Runtime \<Rightarrow> Delivery set \<Rightarrow> string \<times> Guest option \<Rightarrow> 'x JWorld \<Rightarrow> bool" where
  "busOk R D k w \<longleftrightarrow> busInv (bus w) \<and> fromDeliveries R D (bus w) \<and> guestIs k w"

lemma busOk_cong: "bus w' = bus w \<Longrightarrow> w_state w' = w_state w \<Longrightarrow> busOk R D k w' = busOk R D k w"
  by (simp add: busOk_def guestIs_def)

text \<open>What a wait may do to its topic.\<close>

locale kept_topic = bus_topic get upd decode for get :: "GuestCommunicationBus \<Rightarrow> 'm Topic" and upd decode +
  assumes keep_inv: "busInv b \<Longrightarrow> topicInv t \<Longrightarrow> busInv (upd (\<lambda>_. t) b)"
    and keep_from: "fromDeliveries R D b \<Longrightarrow> held t \<subseteq> held (get b) \<Longrightarrow> fromDeliveries R D (upd (\<lambda>_. t) b)"
    and topic_inv: "busInv b \<Longrightarrow> topicInv (get b)"
    and held_from: "fromDeliveries R D b \<Longrightarrow> held (get b) \<subseteq> decoded decode R D"
    and upd_const: "upd f b = upd (\<lambda>_. f (get b)) b"
begin

lemma busOk_upd:
  "busOk R D k w \<Longrightarrow> topicInv t \<Longrightarrow> held t \<subseteq> held (get (bus w)) \<Longrightarrow> busOk R D k (w\<lparr>bus := upd (\<lambda>_. t) (bus w)\<rparr>)"
  by (simp add: busOk_def keep_inv keep_from guestIs_def)

lemma busOk_tryMatch:
  assumes rest: "\<And>m w0. keeps (sameRest w0) (match m)" and guest: "\<And>m. keeps (guestIs k) (match m)"
    and "busOk R D k w" and run: "tryMatch match m pc w = (res, w')"
  shows "busOk R D k w'"
proof -
  obtain r where m: "match m w = (r, w')"
    using run by (auto simp: tryMatch_def split: prod.splits res.splits)
  have "guestIs k w'" using keepsD [OF guest _ m] assms(3) by (simp add: busOk_def)
  then show ?thesis using assms(3) sameRest_bus(1) [OF rest m] by (simp add: busOk_def)
qed

lemma busOk_waitTurn:
  assumes rest: "\<And>m w0. keeps (sameRest w0) (match m)" and guest: "\<And>m. keeps (guestIs k) (match m)"
    and ok: "busOk R D k w" and run: "waitTurn S get upd match ch pc c w = (res, w')"
  shows "busOk R D k w'"
proof -
  have inv: "topicInv (get (bus w))" using ok topic_inv by (simp add: busOk_def)
  have msg: "busOk R D k w'" if "tryMatch match m pc' (w\<lparr>bus := upd (\<lambda>_. t) (bus w)\<rparr>) = (res, w')"
    "topicInv t" "held t \<subseteq> held (get (bus w))" for m t pc'
    by (rule busOk_tryMatch [OF rest guest busOk_upd [OF ok that(2,3)] that(1)])
  show ?thesis
  proof (cases pc)
    case AtTake
    show ?thesis
    proof (cases "takePending (get (bus w))")
      case (Some p)
      then obtain m t where p: "takePending (get (bus w)) = Some (m, t)" by (cases p) auto
      then have "held t \<subseteq> held (get (bus w))" by (auto simp: takePending_def held_def split: list.splits)
      with msg [of m AtSelect t] run AtTake p topicInv_topic(3) [OF inv p] show ?thesis by simp
    qed (use run AtTake ok in simp)
  next
    case AtSelect
    show ?thesis
    proof (cases c)
      case FromChan
      show ?thesis
      proof (cases "receive ch (get (bus w))")
        case (Some p)
        then obtain m t where p: "receive ch (get (bus w)) = Some (m, t)" by (cases p) auto
        then have "held t \<subseteq> held (get (bus w))"
          by (auto simp: receive_def held_def split: list.splits if_splits)
        with msg [of m AtTake t] run AtSelect FromChan p topicInv_ops(2) [OF inv p] show ?thesis by simp
      qed (use run AtSelect FromChan ok in simp)
    next
      case CtxDone
      then obtain x where "w' = w\<lparr>w_ext := x\<rparr>" using run AtSelect by (auto split: prod.splits option.splits)
      then show ?thesis using ok busOk_cong [of w' w] by simp
    qed (use run AtSelect ok in \<open>auto split: if_splits option.splits\<close>)
  qed
qed

end

lemma busOk_env:
  fixes w :: "'x JWorld"
  assumes sys: "systemLaws S content" and ok: "busOk (sysR S) D k w" and a: "a \<in> {a. \<forall>d. a = BusDeliver d \<longrightarrow> d \<in> D}"
  shows "busOk (sysR S) D k (envStep S a w)"
proof -
  have ord: "iterationOrder (mapOrder (sysR S))" using sys by (simp add: systemLaws_def)
  have "storeIs content (w_state w, content (w_ext w)) (envStep S a w)"
    using sys by (intro envStep_store) (simp_all add: systemLaws_def storeIs_def)
  then show ?thesis
    using ok a busInv_env [OF _ ord, of w a] fromDeliveries_env [of w S D a, OF _ ord]
    by (simp add: busOk_def guestIs_def storeIs_def)
qed

context kept_topic
begin

lemma wait_loop:
  fixes S :: "'x System"
  assumes sys: "systemLaws S content"
    and rest: "\<And>m w0. keeps (sameRest w0) (match m)" and guest: "\<And>m. keeps (guestIs k) (match m)"
  shows "select_loop (envStep S) (waitTurn S get upd match ch) {a. \<forall>d. a = BusDeliver d \<longrightarrow> d \<in> D}
    (\<lambda>_. busOk (sysR S) D k) (\<lambda>r. busOk (sysR S) D k)"
  by unfold_locales (auto intro: busOk_waitTurn [OF rest guest] busOk_env [OF sys])

lemma waitMessage_ok:
  assumes sys: "systemLaws S content"
    and rest: "\<And>m w0. keeps (sameRest w0) (match m)" and guest: "\<And>m. keeps (guestIs k) (match m)"
    and ok: "busOk (sysR S) D k w" and src: "deliveries (sched w) \<subseteq> D"
    and run: "waitMessage S get upd match w = (r, w')"
  shows "busOk (sysR S) D k w' \<and> deliveries (sched w') \<subseteq> D"
proof -
  obtain ch t where mk: "makeChan (get (bus w)) = (ch, t)" by fastforce
  let ?w1 = "w\<lparr>bus := upd (\<lambda>_. subscribe ch t) (bus w)\<rparr>"
  obtain as w2 where lp: "loopOn (envStep S) (waitTurn S get upd match ch) AtTake (sched w) ?w1 = (r, as, w2)"
    and w': "w' = w2\<lparr>sched := as, bus := upd (unsubscribe ch) (bus w2)\<rparr>"
    using run by (auto simp: waitMessage_def await_def mk Let_def split: prod.splits)
  have inv: "topicInv (get (bus w))" using ok topic_inv by (simp add: busOk_def)
  have "held (subscribe ch t) \<subseteq> held (get (bus w))" using mk by (auto simp: makeChan_def subscribe_def held_def)
  then have "busOk (sysR S) D k ?w1" using busOk_upd [OF ok] topicInv_ops(3) [OF inv mk] by blast
  moreover have "{a. Env a \<in> set (sched w)} \<subseteq> {a. \<forall>d. a = BusDeliver d \<longrightarrow> d \<in> D}"
    using src by (auto simp: deliveries_def)
  ultimately have ok2: "busOk (sysR S) D k w2"
    using select_loop.outcome [OF wait_loop [OF sys rest guest] _ _ lp] by auto
  have "busOk (sysR S) D k (w2\<lparr>bus := upd (\<lambda>_. unsubscribe ch (get (bus w2))) (bus w2)\<rparr>)"
    using ok2 topicInv_ops(1) [OF topic_inv] by (intro busOk_upd) (auto simp: busOk_def held_def unsubscribe_def)
  then have "busOk (sysR S) D k w'"
    unfolding w' using upd_const [of "unsubscribe ch" "bus w2"] by (subst busOk_cong) simp_all
  then show ?thesis using loopOn_suffix [OF lp] src w' by (auto simp: deliveries_def)
qed

end

interpretation payments: kept_topic paymentRequests paymentRequests_update decodePayment
  by unfold_locales (auto simp: fromDeliveries_def busInv_def DoneClosed_def)

interpretation confirmations: kept_topic bookingConfirmations bookingConfirmations_update decodeConfirmation
  by unfold_locales (auto simp: fromDeliveries_def busInv_def DoneClosed_def)

interpretation checkins: kept_topic checkinToday checkinToday_update decodeCheckin
  by unfold_locales (auto simp: fromDeliveries_def busInv_def DoneClosed_def)

lemmas wait_keeps_bus =
  payments.waitMessage_ok [where match = "\<lambda>m. matchPaymentRequest (sysE S) C (Some m)" and S = S for S C,
    OF _ sameRest_matches(1) guestFrame.matches(1), folded WaitPaymentRequestMessage_def]
  confirmations.waitMessage_ok [where match = "\<lambda>m. matchBookingConfirmation (sysE S) C (Some m)" and S = S for S C,
    OF _ sameRest_matches(2) guestFrame.matches(2), folded WaitBookingConfirmationMessage_def]
  checkins.waitMessage_ok [where match = "\<lambda>m. matchCheckinToday (sysE S) C (Some m)" and S = S for S C,
    OF _ sameRest_matches(3) guestFrame.matches(3), folded WaitCheckinTodayMessage_def]

text \<open>After a set-up on a bus that never held a message, the bus holds none.\<close>

lemma held_new: "fromDeliveries R D NewGuestCommunicationBus"
  by (simp add: fromDeliveries_def NewGuestCommunicationBus_def newTopic_def held_def)

lemma held_setup: "fromDeliveries R D b \<Longrightarrow> fromDeliveries R D (StartBus ((Reset b)\<lparr>Consumer := True\<rparr>))"
  by (auto simp: fromDeliveries_def StartBus_def Reset_def makeDone_def resetTopic_def held_def Let_def)

end
