(* ===== verification/Chatops.thy ===== *)
theory Chatops
  imports Schedule
begin

text \<open>
  The blocking operations of the chat client (internal/infra/websocket/lodging\_chat.go):
  \<open>NewClient\<close>, \<open>Close\<close>, \<open>SendAction\<close>, \<open>Reply\<close>, \<open>sendAndWaitAck\<close>,
  \<open>nextMessage\<close> and \<open>WaitForNextSystemMessage\<close>. For every schedule, messages are
  handed out in the order of their arrival and none is lost while an acknowledgement is
  awaited.
\<close>

subsection \<open>Operations\<close>

text \<open>The case \<open><-ctx.Done()\<close> of a select.\<close>

definition ctxTurn :: "'x External \<Rightarrow> 's \<Rightarrow> 'x JWorld \<Rightarrow> ('a res + 's) \<times> 'x JWorld" where
  "ctxTurn E s w =
     (case ctxErr E (w_ext w) of
        (None, x) \<Rightarrow> (Inr s, w\<lparr>w_ext := x\<rparr>)
      | (Some e, x) \<Rightarrow> (Inl (Err e), w\<lparr>w_ext := x\<rparr>))"

text \<open>The case \<open>err := <-c.errCh\<close>.\<close>

definition errTurn :: "'s \<Rightarrow> 'x JWorld \<Rightarrow> ('a res + 's) \<times> 'x JWorld" where
  "errTurn s w =
     (case errCh (chat w) of
        [] \<Rightarrow> (Inr s, w)
      | e # es \<Rightarrow> (Inl (Err e), w\<lparr>chat := (chat w)\<lparr>errCh := es\<rparr>\<rparr>))"

definition NewClient :: "'x System \<Rightarrow> string \<Rightarrow> ('x JWorld, unit) go" where
  "NewClient S url = thenE (ext (wsDial (sysN S) url)) (modW (\<lambda>w. w\<lparr>chat := newClient\<rparr>))"

definition CloseClient :: "'x System \<Rightarrow> ('x JWorld, unit) go" where
  "CloseClient S = ext (wsClose (sysN S))"

definition ackTurn :: "'x System \<Rightarrow> string \<Rightarrow> unit \<Rightarrow> SelectCase \<Rightarrow> 'x JWorld \<Rightarrow> (unit res + unit) \<times> 'x JWorld" where
  "ackTurn S mid s c w =
     (case c of
        CtxDone \<Rightarrow> ctxTurn (sysE S) s w
      | FromErr \<Rightarrow> errTurn s w
      | FromAck \<Rightarrow>
          (case ackCh (chat w) of
             [] \<Rightarrow> (Inr s, w)
           | a # as \<Rightarrow>
               let w' = w\<lparr>chat := (chat w)\<lparr>ackCh := as\<rparr>\<rparr>
               in if (case GetAck a of None \<Rightarrow> False | Some k \<Rightarrow> ak_AcknowledgedMessageId k = mid)
                  then (Inl (Ret ()), w') else (Inr s, w'))
      | FromChan \<Rightarrow>
          (case inboundCh (chat w) of
             [] \<Rightarrow> (Inr s, w)
           | m # ms \<Rightarrow> (Inr s, w\<lparr>chat := (chat w)\<lparr>inboundCh := ms, chatPending := chatPending (chat w) @ [m]\<rparr>\<rparr>))
      | BusDone \<Rightarrow> (Inr s, w))"

definition sendAndWaitAck :: "'x System \<Rightarrow> ChatMessage \<Rightarrow> ('x JWorld, unit) go" where
  "sendAndWaitAck S msg = thenE (chatWrite (sysN S) msg) (await S (ackTurn S (cm_MessageId msg)) ())"

definition SendAction :: "'x System \<Rightarrow> GuestAction \<Rightarrow> ('x JWorld, unit) go" where
  "SendAction S action =
     bindE (extV (uuidNewString (sysN S))) (\<lambda>mid.
     bindE (extV (uuidNewString (sysN S))) (\<lambda>cid.
       sendAndWaitAck S (guestMessage mid cid (P_GuestAction action))))"

definition Reply :: "'x System \<Rightarrow> ChatMessage option \<Rightarrow> GuestResponse \<Rightarrow> ('x JWorld, unit) go" where
  "Reply S request response =
     (case request of
        None \<Rightarrow> throw (Errorf ''request is nil'')
      | Some req \<Rightarrow> bindE (extV (uuidNewString (sysN S))) (\<lambda>mid.
          sendAndWaitAck S (guestMessage mid (cm_CorrelationId req) (P_GuestResponse response))))"

definition isSystem :: "ChatMessage \<Rightarrow> bool" where
  "isSystem m \<longleftrightarrow> GetSystemNotification m \<noteq> SYSTEM_NOTIFICATION_UNSPECIFIED \<or> GetSystemRequest m \<noteq> SYSTEM_REQUEST_UNSPECIFIED"

text \<open>The loop of \<open>WaitForNextSystemMessage\<close> with \<open>nextMessage\<close> inlined: the stored messages come first.\<close>

definition handOut :: "ChatMessage \<Rightarrow> 'x JWorld \<Rightarrow> (ChatMessage res + unit) \<times> 'x JWorld" where
  "handOut m w = (if isSystem m then (Inl (Ret m), w) else (Inr (), w))"

definition nextTurn :: "'x System \<Rightarrow> unit \<Rightarrow> SelectCase \<Rightarrow> 'x JWorld \<Rightarrow> (ChatMessage res + unit) \<times> 'x JWorld" where
  "nextTurn S s c w =
     (case chatPending (chat w) of
        m # ms \<Rightarrow> handOut m (w\<lparr>chat := (chat w)\<lparr>chatPending := ms\<rparr>\<rparr>)
      | [] \<Rightarrow>
          (case c of
             CtxDone \<Rightarrow> ctxTurn (sysE S) s w
           | FromErr \<Rightarrow> errTurn s w
           | FromChan \<Rightarrow>
               (case inboundCh (chat w) of
                  [] \<Rightarrow> (Inr s, w)
                | m # ms \<Rightarrow> handOut m (w\<lparr>chat := (chat w)\<lparr>inboundCh := ms\<rparr>\<rparr>))
           | _ \<Rightarrow> (Inr s, w)))"

definition WaitForNextSystemMessage :: "'x System \<Rightarrow> ('x JWorld, ChatMessage) go" where
  "WaitForNextSystemMessage S = await S (nextTurn S) ()"

subsection \<open>Order of the messages\<close>

text \<open>What a step of another goroutine does to the messages in transit.\<close>

lemma envStep_chat:
  assumes "clientInv (chat w)"
  shows "clientInv (chat (envStep S a w)) \<and> (\<exists>new. inTransit (chat (envStep S a w)) = inTransit (chat w) @ new)"
proof (cases a)
  case (ReadFrame f)
  obtain c m where f: "readFrame (sysN S) f (chat w) = (c, m)" by fastforce
  have "clientInv c" "\<exists>new. inTransit c = inTransit (chat w) @ new"
    using readFrame_inv [OF assms, of "sysN S" f] readFrame_transit [of "sysN S" f "chat w"] f by auto
  then show ?thesis using ReadFrame f by (auto simp: Let_def sendAck_frame split: option.splits)
next
  case ReadPut
  then show ?thesis using readPut_inv [OF assms] readPut_transit [of "chat w"] by auto
next
  case (BusCancelled k)
  then show ?thesis using assms by (auto simp: whenCancelled_def split: prod.splits option.splits)
next
  case HubCancelled
  then show ?thesis using assms by (auto simp: whenCancelled_def split: prod.splits option.splits)
next
  case (HourCancelled i)
  then show ?thesis using assms by (auto simp: whenCancelled_def split: prod.splits option.splits)
qed (use assms in auto)

definition transitFrom :: "ChatMessage list \<Rightarrow> ChatMessage list \<Rightarrow> 'x JWorld \<Rightarrow> bool" where
  "transitFrom old taken w \<longleftrightarrow> clientInv (chat w) \<and> (\<exists>new. old @ new = taken @ inTransit (chat w))"

lemma transitFrom_env:
  assumes "transitFrom old taken w"
  shows "transitFrom old taken (envStep S a w)"
proof -
  from assms obtain new where "clientInv (chat w)" and o: "old @ new = taken @ inTransit (chat w)"
    by (auto simp: transitFrom_def)
  with envStep_chat [of w S a] obtain more where "clientInv (chat (envStep S a w))"
    "inTransit (chat (envStep S a w)) = inTransit (chat w) @ more" by auto
  with o have "old @ (new @ more) = taken @ inTransit (chat (envStep S a w))" by simp
  then show ?thesis using \<open>clientInv (chat (envStep S a w))\<close> unfolding transitFrom_def by blast
qed

lemma transitFrom_ext [simp]: "transitFrom old taken (w\<lparr>w_ext := x\<rparr>) = transitFrom old taken w"
  by (simp add: transitFrom_def)

lemma ctxTurn_result: "ctxTurn E s w = (res, w') \<Longrightarrow> (\<exists>x. w' = w\<lparr>w_ext := x\<rparr>) \<and> (\<forall>r. res = Inl r \<longrightarrow> (\<exists>e. r = Err e))"
  by (auto simp: ctxTurn_def split: prod.splits option.splits)

lemma errTurn_result:
  "errTurn s w = (res, w') \<Longrightarrow> (\<exists>es. w' = w\<lparr>chat := (chat w)\<lparr>errCh := es\<rparr>\<rparr> \<and> length es \<le> length (errCh (chat w)))
     \<and> (\<forall>r. res = Inl r \<longrightarrow> (\<exists>e. r = Err e))"
  by (auto simp: errTurn_def split: list.splits)

lemma transitFrom_err:
  "transitFrom old taken w \<Longrightarrow> length es \<le> length (errCh (chat w)) \<Longrightarrow>
     transitFrom old taken (w\<lparr>chat := (chat w)\<lparr>errCh := es\<rparr>\<rparr>)"
  by (simp add: transitFrom_def clientInv_def inTransit_def)

text \<open>Waiting for an acknowledgement takes nothing out of transit.\<close>

lemma ackTurn_transit:
  assumes inv: "transitFrom old [] w" and run: "ackTurn S mid s c w = (res, w')"
  shows "transitFrom old [] w'"
proof (cases c)
  case CtxDone
  then show ?thesis using run inv ctxTurn_result [of "sysE S" s w res w'] by (auto simp: ackTurn_def)
next
  case FromErr
  then show ?thesis using run errTurn_result [of s w res w'] transitFrom_err [OF inv] by (auto simp: ackTurn_def)
next
  case FromAck
  then show ?thesis using run inv
    by (auto simp: ackTurn_def Let_def transitFrom_def clientInv_def inTransit_def split: list.splits if_splits)
next
  case FromChan
  then show ?thesis using run inv
    by (auto simp: ackTurn_def transitFrom_def clientInv_def inTransit_def split: list.splits)
qed (use run inv in \<open>auto simp: ackTurn_def\<close>)

interpretation ackLoop: select_loop "envStep S" "ackTurn S mid" UNIV "\<lambda>_. transitFrom old []" "\<lambda>r. transitFrom old []"
  for S :: "'x System" and mid old
  by unfold_locales (auto intro: transitFrom_env ackTurn_transit)

text \<open>The next system message is the first one in transit; those before it are dropped.\<close>

definition skipped :: "ChatMessage list \<Rightarrow> 'x JWorld \<Rightarrow> bool" where
  "skipped old w \<longleftrightarrow> (\<exists>pre. (\<forall>m \<in> set pre. \<not> isSystem m) \<and> transitFrom old pre w)"

definition firstSystem :: "ChatMessage list \<Rightarrow> ChatMessage \<Rightarrow> 'x JWorld \<Rightarrow> bool" where
  "firstSystem old m w \<longleftrightarrow> isSystem m \<and> (\<exists>pre. (\<forall>m \<in> set pre. \<not> isSystem m) \<and> transitFrom old (pre @ [m]) w)"

lemma handOut_result:
  assumes "\<forall>m \<in> set pre. \<not> isSystem m" and "transitFrom old (pre @ [m]) w"
  shows "case handOut m w of (Inl r, w') \<Rightarrow> r = Ret m \<and> firstSystem old m w' | (Inr _, w') \<Rightarrow> skipped old w'"
proof (cases "isSystem m")
  case True
  then show ?thesis using assms by (auto simp: handOut_def firstSystem_def)
next
  case False
  then have "\<forall>m' \<in> set (pre @ [m]). \<not> isSystem m'" using assms(1) by auto
  then have "skipped old w" using assms(2) unfolding skipped_def by blast
  then show ?thesis using False by (simp add: handOut_def)
qed

lemma nextTurn_result:
  assumes inv: "skipped old w" and run: "nextTurn S s c w = (res, w')"
  shows "case res of Inl r \<Rightarrow> (\<forall>m. r = Ret m \<longrightarrow> firstSystem old m w') | Inr s' \<Rightarrow> skipped old w'"
proof -
  note run = run [unfolded nextTurn_def]
  obtain pre where pre: "\<forall>m \<in> set pre. \<not> isSystem m" and tr: "transitFrom old pre w"
    using inv by (auto simp: skipped_def)
  show ?thesis
  proof (cases "chatPending (chat w)")
    case (Cons m ms)
    have "transitFrom old (pre @ [m]) (w\<lparr>chat := (chat w)\<lparr>chatPending := ms\<rparr>\<rparr>)"
      using tr Cons by (auto simp: transitFrom_def clientInv_def inTransit_def)
    from handOut_result [OF pre this] run Cons show ?thesis by (auto split: sum.splits)
  next
    case Nil
    show ?thesis
    proof (cases c)
      case CtxDone
      then show ?thesis using run Nil ctxTurn_result [of "sysE S" s w res w'] pre tr
        by (auto simp: skipped_def split: sum.splits)
    next
      case FromErr
      then show ?thesis using run Nil errTurn_result [of s w res w'] pre transitFrom_err [OF tr]
        by (auto simp: skipped_def split: sum.splits)
    next
      case FromChan
      show ?thesis
      proof (cases "inboundCh (chat w)")
        case (Cons m ms)
        have "transitFrom old (pre @ [m]) (w\<lparr>chat := (chat w)\<lparr>inboundCh := ms\<rparr>\<rparr>)"
          using tr Nil Cons by (auto simp: transitFrom_def clientInv_def inTransit_def)
        from handOut_result [OF pre this] run Nil FromChan Cons show ?thesis by (auto split: sum.splits)
      qed (use run Nil FromChan inv in auto)
    qed (use run Nil inv in auto)
  qed
qed

lemma skipped_env: "skipped old w \<Longrightarrow> skipped old (envStep S a w)"
  by (auto simp: skipped_def intro: transitFrom_env)

interpretation nextLoop: select_loop "envStep S" "nextTurn S" UNIV "\<lambda>_. skipped old"
    "\<lambda>r w. \<forall>m. r = Ret m \<longrightarrow> firstSystem old m w" for S :: "'x System" and old
proof
  show "skipped old w \<Longrightarrow> nextTurn S s c w = (Inr s', w') \<Longrightarrow> skipped old w'" for s w c s' and w' :: "'x JWorld"
    using nextTurn_result [of old w S s c "Inr s'" w'] by simp
  show "skipped old w \<Longrightarrow> nextTurn S s c w = (Inl r, w') \<Longrightarrow> \<forall>m. r = Ret m \<longrightarrow> firstSystem old m w'"
    for s w c r and w' :: "'x JWorld"
    using nextTurn_result [of old w S s c "Inl r" w'] by simp
qed (rule skipped_env)

text \<open>
  The acknowledgements a wait can see: those received, and those of the frames of the
  schedule. A wait that returns has seen one of the message it sent.
\<close>

definition ackSources :: "'x System \<Rightarrow> 'x JWorld \<Rightarrow> ChatMessage set" where
  "ackSources S w = set (ackCh (chat w)) \<union> (case readPc (chat w) of PutAck m \<Rightarrow> {m} | _ \<Rightarrow> {})
     \<union> {m. \<exists>f. Env (ReadFrame (Inr f)) \<in> set (sched w) \<and> protojsonUnmarshal (sysN S) f = Some m}"

definition acksIn :: "ChatMessage set \<Rightarrow> 'x JWorld \<Rightarrow> bool" where
  "acksIn A w \<longleftrightarrow> set (ackCh (chat w)) \<subseteq> A \<and> (\<forall>m. readPc (chat w) = PutAck m \<longrightarrow> m \<in> A)"

definition ackFrames :: "'x System \<Rightarrow> ChatMessage set \<Rightarrow> EnvAction set" where
  "ackFrames S A = {a. \<forall>f m. a = ReadFrame (Inr f) \<longrightarrow> protojsonUnmarshal (sysN S) f = Some m \<longrightarrow> m \<in> A}"

lemma acksIn_env:
  assumes "acksIn A w" and "a \<in> ackFrames S A"
  shows "acksIn A (envStep S a w)"
proof (cases a)
  case (ReadFrame f)
  obtain c m where f: "readFrame (sysN S) f (chat w) = (c, m)" by fastforce
  have "set (ackCh c) \<subseteq> A \<and> (\<forall>m. readPc c = PutAck m \<longrightarrow> m \<in> A)"
    using f assms ReadFrame by (auto simp: readFrame_def acksIn_def ackFrames_def offerErr_def split: if_splits sum.splits option.splits)
  then show ?thesis using ReadFrame f by (auto simp: acksIn_def Let_def sendAck_frame split: option.splits)
next
  case ReadPut
  then show ?thesis using assms by (auto simp: acksIn_def readPut_def split: ReadPc.splits)
qed (use assms in \<open>auto simp: acksIn_def whenCancelled_def split: prod.splits option.splits\<close>)

lemma ackTurn_ours:
  assumes "acksIn A w" and "ackTurn S mid s c w = (res, w')"
  shows "acksIn A w' \<and> (res = Inl (Ret ()) \<longrightarrow> (\<exists>m \<in> A. \<exists>k. GetAck m = Some k \<and> ak_AcknowledgedMessageId k = mid))"
proof (cases c)
  case CtxDone
  then show ?thesis using assms ctxTurn_result [of "sysE S" s w res w'] by (auto simp: ackTurn_def acksIn_def)
next
  case FromErr
  then show ?thesis using assms errTurn_result [of s w res w'] by (auto simp: ackTurn_def acksIn_def)
qed (use assms in \<open>auto simp: ackTurn_def acksIn_def Let_def split: list.splits if_splits option.splits\<close>)

interpretation oursLoop: select_loop "envStep S" "ackTurn S mid" "ackFrames S A" "\<lambda>_. acksIn A"
    "\<lambda>r w. r = Ret () \<longrightarrow> (\<exists>m \<in> A. \<exists>k. GetAck m = Some k \<and> ak_AcknowledgedMessageId k = mid)" for S :: "'x System" and mid A
proof
  show "acksIn A w \<Longrightarrow> ackTurn S mid s c w = (Inr s', w') \<Longrightarrow> acksIn A w'" for s w c s' and w' :: "'x JWorld"
    using ackTurn_ours by blast
  show "acksIn A w \<Longrightarrow> ackTurn S mid s c w = (Inl r, w') \<Longrightarrow>
      r = Ret () \<longrightarrow> (\<exists>m \<in> A. \<exists>k. GetAck m = Some k \<and> ak_AcknowledgedMessageId k = mid)" for s w c r and w' :: "'x JWorld"
    using ackTurn_ours by blast
qed (rule acksIn_env)

end
