(* ===== verification/Lodging.thy ===== *)
theory Lodging
  imports Chatops
begin

text \<open>
  The stay: \<open>DefaultLodgingFlow\<close> (internal/config/lodging\_flow.go),
  \<open>RunLodgingStep\<close> (internal/app/steps/lodging\_step/run\_lodging.go) and
  \<open>RunLodgingStayFlow\<close> (internal/app/flows/lodging\_flow.go). The plan of a stay is
  shown to be ordered in time and to end on the day of check-out, a wait for an hour
  never to end early, and the loops over chat messages to need no more rounds than the
  schedule has actions.
\<close>

subsection \<open>The lodging flow\<close>

record LodgingActionGate =
  HasNotBeforeHour :: bool
  NotBeforeHour :: int
  gate_SystemNotification :: SystemNotification
  gate_SystemRequest :: SystemRequest
  WaitForNotification :: SystemNotification

record LodgingPlannedAction =
  pa_Action :: GuestAction
  pa_Gate :: LodgingActionGate

text \<open>\<open>LodgingResponseStep\<close> has one field, the request it answers.\<close>

record LodgingCheckinFlow =
  ShowUp :: "LodgingPlannedAction list"
  ShowDocumentRequest :: SystemRequest
  ShowBookingNumberRequest :: SystemRequest

record LodgingFlow =
  Checkin :: LodgingCheckinFlow
  FirstDayStay :: "LodgingPlannedAction list"
  RecurringStay :: "LodgingPlannedAction list"
  Checkout :: "LodgingPlannedAction list"

definition noGate :: LodgingActionGate where
  "noGate = \<lparr>HasNotBeforeHour = False, NotBeforeHour = 0, gate_SystemNotification = SYSTEM_NOTIFICATION_UNSPECIFIED,
     gate_SystemRequest = SYSTEM_REQUEST_UNSPECIFIED, WaitForNotification = SYSTEM_NOTIFICATION_UNSPECIFIED\<rparr>"

abbreviation notBefore :: "int \<Rightarrow> LodgingActionGate" where
  "notBefore h \<equiv> noGate\<lparr>HasNotBeforeHour := True, NotBeforeHour := h\<rparr>"

abbreviation act :: "GuestAction \<Rightarrow> LodgingActionGate \<Rightarrow> LodgingPlannedAction" where
  "act a g \<equiv> \<lparr>pa_Action = a, pa_Gate = g\<rparr>"

definition DefaultLodgingFlow :: LodgingFlow where
  "DefaultLodgingFlow =
     \<lparr>Checkin = \<lparr>ShowUp = [act SHOW_FOR_CHECKIN (notBefore 15)], ShowDocumentRequest = REQUEST_DOCUMENT,
        ShowBookingNumberRequest = REQUEST_BOOKING_NUMBER\<rparr>,
      FirstDayStay =
        [act ENTER_COTTAGE noGate,
         act GO_FOR_A_BATH (notBefore 16),
         act GO_FOR_DINNER ((notBefore 18)\<lparr>gate_SystemNotification := DINNER_READY\<rparr>),
         act GO_TO_SLEEP (notBefore 22)],
      RecurringStay =
        [act WAKEUP (notBefore 7),
         act GO_FOR_BREAKFAST ((notBefore 8)\<lparr>gate_SystemNotification := BREAKFAST_READY\<rparr>),
         act LEAVE_CLEANUP_NOTIFICATION (notBefore 10),
         act ENJOY_RESORT (notBefore 11),
         act GO_FOR_A_BATH (notBefore 16),
         act GO_FOR_DINNER ((notBefore 18)\<lparr>gate_SystemNotification := DINNER_READY\<rparr>),
         act GO_TO_SLEEP (notBefore 22)],
      Checkout =
        [act WAKEUP (notBefore 7),
         act LEAVE_COTTAGE (notBefore 9),
         act PROCEED_TO_CHECKOUT noGate,
         act RETURN_COTTAGE_KEY (noGate\<lparr>gate_SystemRequest := REQUEST_COTTAGE_KEY,
           WaitForNotification := CHECK_OUT_COMPLETE\<rparr>)]\<rparr>"

subsection \<open>Plans\<close>

record actionPlanStep =
  dayOffset :: int
  planAction :: GuestAction
  gate :: LodgingActionGate

definition expandPlan :: "int \<Rightarrow> LodgingPlannedAction list \<Rightarrow> actionPlanStep list" where
  "expandPlan d actions = map (\<lambda>a. \<lparr>dayOffset = d, planAction = pa_Action a, gate = pa_Gate a\<rparr>) actions"

text \<open>\<open>int(checkOut.Sub(checkIn) / (24 * time.Hour))\<close>\<close>

definition stayNights :: "Period \<Rightarrow> int" where
  "stayNights p = truncDiv (Sub (startOfUTCDay (End p)) (startOfUTCDay (Start p))) DayNs"

definition fullStayDays :: "Period \<Rightarrow> int" where
  "fullStayDays p = (if stayNights p \<le> 1 then 0 else stayNights p - 1)"

definition checkoutDayOffset :: "Period \<Rightarrow> int" where
  "checkoutDayOffset p = (if stayNights p < 0 then 0 else stayNights p)"

text \<open>\<open>for offset := 2; offset <= fullStayDays; offset++\<close>\<close>

definition buildStayActionPlan :: "LodgingFlow \<Rightarrow> Period \<Rightarrow> actionPlanStep list" where
  "buildStayActionPlan fl p =
     expandPlan 0 (FirstDayStay fl) @ concat (map (\<lambda>d. expandPlan d (RecurringStay fl)) [2..fullStayDays p])"

definition buildCheckoutActionPlan :: "LodgingFlow \<Rightarrow> Period \<Rightarrow> actionPlanStep list" where
  "buildCheckoutActionPlan fl p = expandPlan (checkoutDayOffset p) (Checkout fl)"

subsection \<open>Waiting for an hour\<close>

definition sameUTCDay :: "Time \<Rightarrow> Time \<Rightarrow> bool" where
  "sameUTCDay l r \<longleftrightarrow> Year (UTC l) = Year (UTC r) \<and> Month (UTC l) = Month (UTC r) \<and> Day (UTC l) = Day (UTC r)"

definition untilTurn :: "'x System \<Rightarrow> nat \<Rightarrow> Time \<Rightarrow> unit \<Rightarrow> SelectCase \<Rightarrow> 'x JWorld \<Rightarrow> (unit res + unit) \<times> 'x JWorld" where
  "untilTurn S i target s c w =
     (case c of
        CtxDone \<Rightarrow> ctxTurn (sysE S) s w
      | FromChan \<Rightarrow>
          (case takeNotification i (hub w) of
             None \<Rightarrow> (Inr s, w)
           | Some (t, h) \<Rightarrow>
               if sameUTCDay t target \<and> \<not> Before (UTC t) target then (Inl (Ret ()), w\<lparr>hub := h\<rparr>)
               else (Inr s, w\<lparr>hub := h\<rparr>))
      | _ \<Rightarrow> (Inr s, w))"

definition waitUntil :: "'x System \<Rightarrow> Time \<Rightarrow> ('x JWorld, unit) go" where
  "waitUntil S target =
     bindE (\<lambda>w. let (i, h) = spawnHourNotification (HourOf target) (hub w) in (Ret i, w\<lparr>hub := h\<rparr>)) (\<lambda>i.
     thenE (preempt S)
    (bindE (getW (\<lambda>w. CurrentTime (hub w))) (\<lambda>(now, ok).
       if ok \<and> \<not> Before (UTC now) target then ret ()
       else await S (untilTurn S i target) ())))"

subsection \<open>Loops over chat messages\<close>

text \<open>
  \<open>for { msg, err := client.WaitForNextSystemMessage(ctx); ... }\<close>: \<open>handle\<close> is the
  body, \<open>Some\<close> leaves the loop. Each round that goes on has used up an action of the
  schedule, so a fuel above the length of the schedule is never used up.
\<close>

fun repeatMsg :: "'x System \<Rightarrow> nat \<Rightarrow> (ChatMessage \<Rightarrow> ('x JWorld, 'a option) go) \<Rightarrow> ('x JWorld, 'a) go" where
  "repeatMsg S 0 handle = block"
| "repeatMsg S (Suc n) handle =
     bindE (WaitForNextSystemMessage S) (\<lambda>msg.
     bindE (handle msg) (\<lambda>r. case r of Some a \<Rightarrow> ret a | None \<Rightarrow> repeatMsg S n handle))"

definition forMessages :: "'x System \<Rightarrow> (ChatMessage \<Rightarrow> ('x JWorld, 'a option) go) \<Rightarrow> ('x JWorld, 'a) go" where
  "forMessages S handle = (\<lambda>w. repeatMsg S (Suc (length (sched w))) handle w)"

definition expectNotification :: "'x System \<Rightarrow> SystemNotification \<Rightarrow> ('x JWorld, unit) go" where
  "expectNotification S n = forMessages S (\<lambda>msg. ret (if GetSystemNotification msg = n then Some () else None))"

definition expectRequest :: "'x System \<Rightarrow> SystemRequest \<Rightarrow> ('x JWorld, ChatMessage) go" where
  "expectRequest S q = forMessages S (\<lambda>msg. ret (if GetSystemRequest msg = q then Some msg else None))"

text \<open>The body of the loop of \<open>finishCheckin\<close>.\<close>

definition guestResponseShowDocument :: "string \<Rightarrow> GuestResponse" where
  [simp]: "guestResponseShowDocument documentID = ShowDocument documentID"

definition guestResponseShowBookingNumber :: "string \<Rightarrow> GuestResponse" where
  [simp]: "guestResponseShowBookingNumber bookingID = ShowBookingNumber bookingID"

definition guestResponseReceiveCottageKey :: "string \<Rightarrow> GuestResponse" where
  [simp]: "guestResponseReceiveCottageKey keyID = ReceiveCottageKey keyID"

definition guestResponseReturnCottageKey :: "string \<Rightarrow> GuestResponse" where
  [simp]: "guestResponseReturnCottageKey keyID = ReturnCottageKey keyID"

definition checkinTurn :: "'x System \<Rightarrow> LodgingFlow \<Rightarrow> Guest \<Rightarrow> GuestJourneyBooking \<Rightarrow> ChatMessage \<Rightarrow> ('x JWorld, unit option) go" where
  "checkinTurn S fl guest b msg =
    (if GetSystemNotification msg = BOOKING_CHECKING then ret None
     else if GetSystemNotification msg = CHECK_IN_COMPLETE then ret (Some ())
     else if ShowDocumentRequest (Checkin fl) \<noteq> SYSTEM_REQUEST_UNSPECIFIED
             \<and> GetSystemRequest msg = ShowDocumentRequest (Checkin fl)
     then thenE (Reply S (Some msg) (guestResponseShowDocument (DocumentId guest))) (ret None)
     else if ShowBookingNumberRequest (Checkin fl) \<noteq> SYSTEM_REQUEST_UNSPECIFIED
             \<and> GetSystemRequest msg = ShowBookingNumberRequest (Checkin fl)
     then thenE (Reply S (Some msg) (guestResponseShowBookingNumber (BookingID b))) (ret None)
     else ret None)"

definition finishCheckin :: "'x System \<Rightarrow> LodgingFlow \<Rightarrow> Guest \<Rightarrow> GuestJourneyBooking \<Rightarrow> ('x JWorld, unit) go" where
  "finishCheckin S fl guest b = forMessages S (checkinTurn S fl guest b)"

subsection \<open>Executing a plan\<close>

definition gateDay :: "Period \<Rightarrow> actionPlanStep \<Rightarrow> Time" where
  "gateDay p st = AddDate (startOfUTCDay (Start p)) 0 0 (dayOffset st)"

definition gateTarget :: "Period \<Rightarrow> actionPlanStep \<Rightarrow> Time" where
  "gateTarget p st =
     (let day = gateDay p st
      in Date (Year (UTC day)) (Month (UTC day)) (Day (UTC day)) (NotBeforeHour (gate st)) 0 0 0 0)"

definition waitForActionGate :: "'x System \<Rightarrow> Period \<Rightarrow> actionPlanStep \<Rightarrow> ('x JWorld, ChatMessage option) go" where
  "waitForActionGate S p st =
     thenE (if HasNotBeforeHour (gate st) then waitUntil S (gateTarget p st) else ret ())
    (thenE (if gate_SystemNotification (gate st) \<noteq> SYSTEM_NOTIFICATION_UNSPECIFIED
            then expectNotification S (gate_SystemNotification (gate st)) else ret ())
    (if gate_SystemRequest (gate st) \<noteq> SYSTEM_REQUEST_UNSPECIFIED
     then bindE (expectRequest S (gate_SystemRequest (gate st))) (\<lambda>msg. ret (Some msg))
     else ret None))"

definition awaitNotification :: "'x System \<Rightarrow> LodgingActionGate \<Rightarrow> ('x JWorld, unit) go" where
  "awaitNotification S g =
     (if WaitForNotification g \<noteq> SYSTEM_NOTIFICATION_UNSPECIFIED then expectNotification S (WaitForNotification g) else ret ())"

fun executeActionPlan :: "'x System \<Rightarrow> Period \<Rightarrow> actionPlanStep list \<Rightarrow> ('x JWorld, unit) go" where
  "executeActionPlan S p [] = ret ()"
| "executeActionPlan S p (st # plan) =
     thenE (waitForActionGate S p st)
    (thenE (SendAction S (planAction st))
    (thenE (awaitNotification S (gate st)) (executeActionPlan S p plan)))"

fun executeCheckoutSteps :: "'x System \<Rightarrow> string \<Rightarrow> Period \<Rightarrow> actionPlanStep list \<Rightarrow> ('x JWorld, unit) go" where
  "executeCheckoutSteps S keyID p [] = ret ()"
| "executeCheckoutSteps S keyID p (st # plan) =
     bindE (waitForActionGate S p st) (\<lambda>msg.
     thenE (if gate_SystemRequest (gate st) = REQUEST_COTTAGE_KEY then Reply S msg (guestResponseReturnCottageKey keyID) else ret ())
    (thenE (SendAction S (planAction st))
    (thenE (awaitNotification S (gate st)) (executeCheckoutSteps S keyID p plan))))"

definition executeCheckoutPlan :: "'x System \<Rightarrow> LodgingFlow \<Rightarrow> string \<Rightarrow> Period \<Rightarrow> ('x JWorld, unit) go" where
  "executeCheckoutPlan S fl keyID p = executeCheckoutSteps S keyID p (buildCheckoutActionPlan fl p)"

subsection \<open>The step\<close>

text \<open>\<open>factory\<close>, \<open>notifier\<close>: the client factory and the notification service are set.\<close>

definition RunLodgingStep_Validate :: "bool \<Rightarrow> bool \<Rightarrow> string \<Rightarrow> LodgingFlow \<Rightarrow> Cache option \<Rightarrow> ('x JWorld, unit) go" where
  "RunLodgingStep_Validate factory notifier chatURL fl C = bindE (getW w_state) (\<lambda>state.
     if state = None then throw (Errorf ''invalid state, state is nil'')
     else if C = None then throw (Errorf ''invalid guest journey cache'')
     else if \<not> factory then throw (Errorf ''invalid lodging chat client factory'')
     else if \<not> notifier then throw (Errorf ''invalid hour notification service'')
     else if chatURL = [] then throw (Errorf ''invalid lodging chat url'')
     else if ShowUp (Checkin fl) = [] then throw (Errorf ''invalid lodging flow, checkin show up plan is empty'')
     else ret ())"

definition lodgingContext :: "'x System \<Rightarrow> Cache option \<Rightarrow> ('x JWorld, Guest \<times> GuestJourneyBooking \<times> Period) go" where
  "lodgingContext S C =
     bindE (onCache C (Load (sysE S))) (\<lambda>v.
       case PersonalInfo v of
         None \<Rightarrow> throw (Errorf ''invalid cached guest context'')
       | Some g \<Rightarrow>
      (case Booking v of
         None \<Rightarrow> throw (Errorf ''invalid cached booking context'')
       | Some b \<Rightarrow>
           if BookingID b = [] then throw (Errorf ''invalid cached booking context'')
           else case SelectedPeriod b of
             None \<Rightarrow> throw (Errorf ''invalid cached booking context'')
           | Some p \<Rightarrow> ret (g, b, p)))"

text \<open>\<open>defer client.Close()\<close>: whatever the outcome, with its own error only logged.\<close>

definition closing :: "'x System \<Rightarrow> ('x JWorld, 'a) go \<Rightarrow> ('x JWorld, 'a) go" where
  "closing S m = (\<lambda>w. case m w of
      (Blocks, w') \<Rightarrow> (Blocks, w')
    | (r, w') \<Rightarrow> (r, snd (CloseClient S w')))"

definition RunLodgingStep_Execute :: "'x System \<Rightarrow> string \<Rightarrow> LodgingFlow \<Rightarrow> Cache option \<Rightarrow> ('x JWorld, unit) go" where
  "RunLodgingStep_Execute S chatURL fl C =
     bindE (lodgingContext S C) (\<lambda>(g, b, p).
     thenE (NewClient S chatURL)
    (closing S
      (bindE (extV (uuidNewString (sysN S))) (\<lambda>keyID.
       thenE (executeActionPlan S p (expandPlan 0 (ShowUp (Checkin fl))))
      (thenE (finishCheckin S fl g b)
      (bindE (expectRequest S GIVE_COTTAGE_KEY) (\<lambda>msg.
       thenE (Reply S (Some msg) (guestResponseReceiveCottageKey keyID))
      (thenE (SendAction S TAKE_COTTAGE_KEY)
      (thenE (executeActionPlan S p (buildStayActionPlan fl p))
        (executeCheckoutPlan S fl keyID p))))))))))"

text \<open>
  \<open>RunLodgingStayFlow\<close>: one step, with no successor in the table. \<open>step\<close>: the flow and
  its step are set. The flow runs with a context of its own, cancelled when it returns or
  panics; the notifiers started by the stay listen to that context.
\<close>

definition cancelling :: "('x JWorld, 'a) go \<Rightarrow> ('x JWorld, 'a) go" where
  "cancelling m = (\<lambda>w. case m w of
      (Blocks, w') \<Rightarrow> (Blocks, w')
    | (r, w') \<Rightarrow> (r, w'\<lparr>hub := cancelNotifiers (hub w')\<rparr>))"

definition RunLodgingStayFlow :: "'x System \<Rightarrow> bool \<Rightarrow> string \<Rightarrow> Cache option \<Rightarrow> ('x JWorld, unit) go" where
  "RunLodgingStayFlow S step chatURL C =
     (if \<not> step then throw (Errorf ''failed to find RunLodgingStep in lodging flow'')
      else cancelling (runStepGraph (sysE S) noopStep_Execute
       (\<lambda>_. RunLodgingStep_Validate True True chatURL DefaultLodgingFlow C)
       (\<lambda>_. RunLodgingStep_Execute S chatURL DefaultLodgingFlow C) (\<lambda>_. None) 1 ()))"

lemma cancelling_Ret_iff:
  "cancelling m w = (Ret u, w') \<longleftrightarrow> (\<exists>v. m w = (Ret u, v) \<and> w' = v\<lparr>hub := cancelNotifiers (hub v)\<rparr>)"
  by (auto simp: cancelling_def split: prod.splits res.splits)

subsection \<open>The plan of a stay\<close>

lemma truncDiv_exact: "0 < b \<Longrightarrow> truncDiv (n * b) b = n"
  by (simp add: truncDiv_def sgn_mult abs_mult mult_sgn_abs)

text \<open>The nights of a stay as the search makes it; 106751 days are the range of a duration.\<close>

lemma stayNights_exact:
  assumes "midnight (Start p)" and "End p = AddDate (Start p) 0 0 n" and "\<bar>n\<bar> \<le> 106751"
  shows "stayNights p = n"
proof -
  have m: "ns (Start p) div DayNs * DayNs = ns (Start p)" using assms(1) by (simp add: midnight_def mod_eq_0_iff_dvd)
  have "(ns (Start p) + n * DayNs) div DayNs = ns (Start p) div DayNs + n"
    by (simp add: div_add1_eq [of "ns (Start p)" "n * DayNs"])
  then have "Sub (startOfUTCDay (End p)) (startOfUTCDay (Start p)) = max minDuration (min maxDuration (n * DayNs))"
    using m by (simp add: Sub_def startOfUTCDay_ns assms(2) AddDate_days distrib_right)
  also have "\<dots> = n * DayNs"
    using assms(3) by (simp add: maxDuration_def minDuration_def)
  finally show ?thesis by (simp add: stayNights_def truncDiv_exact)
qed

lemma stayNights_goodStay: "goodStay now p \<Longrightarrow> stayNights p = 3"
  by (rule stayNights_exact) (simp_all add: goodStay_def)

lemma expandPlan_day: "st \<in> set (expandPlan d acts) \<Longrightarrow> dayOffset st = d"
  by (auto simp: expandPlan_def)

lemma stay_days:
  "dayOffset ` set (buildStayActionPlan DefaultLodgingFlow p) = insert 0 {2..fullStayDays p}"
  by (force simp: buildStayActionPlan_def DefaultLodgingFlow_def expandPlan_def)

text \<open>The instant of a gate: midnight of its day and the hour.\<close>

lemma gateTarget_ns:
  "gateTarget p st = \<lparr>ns = (ns (Start p) div DayNs + dayOffset st) * DayNs + NotBeforeHour (gate st) * Hour, off = 0\<rparr>"
proof -
  let ?day = "gateDay p st"
  have day: "ns ?day = (ns (Start p) div DayNs + dayOffset st) * DayNs"
    by (simp add: gateDay_def startOfUTCDay_ns AddDate_days distrib_right)
  have "dayOf (UTC ?day) = ns (Start p) div DayNs + dayOffset st"
    by (simp add: dayOf_def localNs_def day)
  then show ?thesis
    by (simp add: gateTarget_def Let_def Date_def daysOf_fields_0)
qed

text \<open>The hours of a plan, counted from the midnight before check-in.\<close>

definition planHours :: "actionPlanStep list \<Rightarrow> int list" where
  "planHours plan = map (\<lambda>st. 24 * dayOffset st + NotBeforeHour (gate st)) (filter (\<lambda>st. HasNotBeforeHour (gate st)) plan)"

lemma planHours_append [simp]: "planHours (xs @ ys) = planHours xs @ planHours ys"
  by (simp add: planHours_def)

lemma planHours_recurring:
  "planHours (expandPlan d (RecurringStay DefaultLodgingFlow)) = map (\<lambda>h. 24 * d + h) [7, 8, 10, 11, 16, 18, 22]"
  by (simp add: planHours_def expandPlan_def DefaultLodgingFlow_def noGate_def)

lemma planHours_days:
  "sorted (planHours (concat (map (\<lambda>d. expandPlan d (RecurringStay DefaultLodgingFlow)) [a..b])))
   \<and> set (planHours (concat (map (\<lambda>d. expandPlan d (RecurringStay DefaultLodgingFlow)) [a..b]))) \<subseteq> {24 * a + 7..24 * b + 22}"
proof (induction a b rule: upto.induct)
  case (1 i j)
  show ?case
  proof (cases "i \<le> j")
    case True
    have "[i..j] = i # [i+1..j]" using True by (rule upto_rec1)
    with 1 [OF True] show ?thesis
      using True by (fastforce simp: planHours_recurring sorted_append subset_iff)
  qed (simp add: planHours_def)
qed

definition fullPlan :: "Period \<Rightarrow> actionPlanStep list" where
  "fullPlan p = expandPlan 0 (ShowUp (Checkin DefaultLodgingFlow)) @ buildStayActionPlan DefaultLodgingFlow p
     @ buildCheckoutActionPlan DefaultLodgingFlow p"

lemma fullPlan_sorted:
  assumes "1 \<le> stayNights p"
  shows "sorted (planHours (fullPlan p))"
proof -
  let ?mid = "planHours (concat (map (\<lambda>d. expandPlan d (RecurringStay DefaultLodgingFlow)) [2..fullStayDays p]))"
  have first: "planHours (expandPlan 0 (ShowUp (Checkin DefaultLodgingFlow)) @ expandPlan 0 (FirstDayStay DefaultLodgingFlow))
      = [15, 16, 18, 22]"
    by (simp add: planHours_def expandPlan_def DefaultLodgingFlow_def noGate_def)
  have last: "planHours (buildCheckoutActionPlan DefaultLodgingFlow p) = [24 * stayNights p + 7, 24 * stayNights p + 9]"
    using assms by (simp add: planHours_def buildCheckoutActionPlan_def checkoutDayOffset_def expandPlan_def
        DefaultLodgingFlow_def noGate_def)
  have split: "planHours (fullPlan p) = [15, 16, 18, 22] @ ?mid @ [24 * stayNights p + 7, 24 * stayNights p + 9]"
    using first last by (simp add: fullPlan_def buildStayActionPlan_def)
  have mid: "sorted ?mid" "set ?mid \<subseteq> {24 * 2 + 7..24 * fullStayDays p + 22}"
    using planHours_days [of 2 "fullStayDays p"] by auto
  moreover have "fullStayDays p \<le> stayNights p - 1" using assms by (simp add: fullStayDays_def)
  ultimately show ?thesis
    unfolding split using assms by (fastforce simp: sorted_append subset_iff)
qed

lemma gateTarget_planHours:
  "ns (gateTarget p st) \<le> ns (gateTarget p st') \<longleftrightarrow>
     24 * dayOffset st + NotBeforeHour (gate st) \<le> 24 * dayOffset st' + NotBeforeHour (gate st')"
  by (simp add: gateTarget_ns distrib_right) linarith

subsection \<open>The fuel of the message loops\<close>

lemma loopOn_shorter: "loopOn env turn s as w = (r, as', w') \<Longrightarrow> (r = Blocks \<and> as' = []) \<or> length as' < length as"
  by (induction env turn s as w rule: loopOn.induct)
    (auto split: prod.splits sum.splits simp: less_Suc_eq)

lemma await_shorter: "await S turn s w = (Ret a, w') \<Longrightarrow> length (sched w') < length (sched w)"
  by (auto simp: await_def split: prod.splits dest!: loopOn_shorter)

lemma repeatMsg_fuel:
  assumes handle: "\<And>msg w r w'. handle msg w = (Ret r, w') \<Longrightarrow> length (sched w') \<le> length (sched w)"
  shows "length (sched w) < n \<Longrightarrow> length (sched w) < m \<Longrightarrow> repeatMsg S n handle w = repeatMsg S m handle w"
proof (induction n arbitrary: m w)
  case (Suc n)
  then obtain k where k: "m = Suc k" by (cases m) auto
  show ?case
    unfolding k repeatMsg.simps
  proof (rule bindE_cong_Ret)
    fix msg w1
    assume "WaitForNextSystemMessage S w = (Ret msg, w1)"
    then have l1: "length (sched w1) < length (sched w)"
      by (auto simp: WaitForNextSystemMessage_def dest: await_shorter)
    show "bindE (handle msg) (\<lambda>r. case r of Some a \<Rightarrow> ret a | None \<Rightarrow> repeatMsg S n handle) w1
        = bindE (handle msg) (\<lambda>r. case r of Some a \<Rightarrow> ret a | None \<Rightarrow> repeatMsg S k handle) w1"
    proof (rule bindE_cong_Ret)
      fix r w2
      assume "handle msg w1 = (Ret r, w2)"
      then have "length (sched w2) < n" "length (sched w2) < k"
        using handle l1 Suc.prems k by fastforce+
      then show "(case r of Some a \<Rightarrow> ret a | None \<Rightarrow> repeatMsg S n handle) w2
          = (case r of Some a \<Rightarrow> ret a | None \<Rightarrow> repeatMsg S k handle) w2"
        using Suc.IH [of w2 k] by (simp split: option.splits)
    qed
  qed
qed simp

text \<open>No operation of the chat makes the schedule longer.\<close>

lemma shorter_chat:
  "keeps (\<lambda>w. length (sched w) \<le> k) (ext f)" "keeps (\<lambda>w. length (sched w) \<le> k) (extV g)"
  "keeps (\<lambda>w. length (sched w) \<le> k) (await S turn s)"
  by (auto simp: keeps_def ext_def extV_def await_def split: prod.splits dest!: loopOn_shorter)

lemma checkinTurn_sched:
  assumes "checkinTurn S fl guest b msg w = (r, w')"
  shows "length (sched w') \<le> length (sched w)"
proof -
  have "keeps (\<lambda>v. length (sched v) \<le> length (sched w)) (checkinTurn S fl guest b msg)"
    unfolding checkinTurn_def Reply_def sendAndWaitAck_def chatWrite_def by (intro go_keeps shorter_chat)
  from keepsD [OF this _ assms] show ?thesis by simp
qed

subsection \<open>A wait for an hour does not end early\<close>

text \<open>The times the hub knows: the current time and every event on its way to a waiter.\<close>

definition notifierTimes :: "HourNotifier \<Rightarrow> Time set" where
  "notifierTimes n = set (hn_timerCh n) \<union> (case hn_pc n of Publishing t \<Rightarrow> {t} | _ \<Rightarrow> {})"

definition hubTimes :: "TimeHub \<Rightarrow> Time set" where
  "hubTimes h = (if hasCurrentTime h then {currentTime h} else {}) \<union> set_option (notifying h)
     \<union> (\<Union>ch. set (buffers (hourChangeChannels h) ch)) \<union> (\<Union>n \<in> set (notifiers h). notifierTimes n)"

definition eventTimes :: "'x System \<Rightarrow> Action list \<Rightarrow> Time set" where
  "eventTimes S as = {t. \<exists>body. Env (HubReceive body) \<in> set as \<and> unmarshalTimeEvent (sysTime S) body = Inr t}"

definition timesIn :: "Time set \<Rightarrow> TimeHub \<Rightarrow> bool" where
  "timesIn T h \<longleftrightarrow> (hasCurrentTime h \<longrightarrow> currentTime h \<in> T) \<and> (\<forall>t. notifying h = Some t \<longrightarrow> t \<in> T)
     \<and> (\<forall>ch. set (buffers (hourChangeChannels h) ch) \<subseteq> T) \<and> (\<forall>n \<in> set (notifiers h). notifierTimes n \<subseteq> T)"

lemma timesIn_hubTimes: "hubTimes h \<subseteq> T \<Longrightarrow> timesIn T h"
  by (auto simp: timesIn_def hubTimes_def UN_subset_iff)

lemma notify_buffers:
  "set (buffers (snd (notifySubscribers chs t cs)) ch) \<subseteq> insert t (set (buffers cs ch))"
proof (induction chs arbitrary: cs)
  case (Cons c chs)
  then show ?case
    using Cons.IH [of "cs\<lparr>buffers := (buffers cs)(c := buffers cs c @ [t])\<rparr>"] Cons.IH [of cs] by (auto split: if_splits)
qed auto

lemma timesIn_setNotifier:
  assumes T: "timesIn T h" and "\<And>ch. set (buffers cs ch) \<subseteq> T" and "notifierTimes n \<subseteq> T"
  shows "timesIn T (setNotifier i n (h\<lparr>hourChangeChannels := cs\<rparr>))"
proof -
  have "\<forall>m \<in> set ((notifiers h)[i := n]). notifierTimes m \<subseteq> T"
    using T assms(3) set_update_subset_insert [of "notifiers h" i n] unfolding timesIn_def by blast
  then show ?thesis using assms by (simp add: timesIn_def setNotifier_def)
qed

lemma timesIn_parts:
  assumes "timesIn T h"
  shows "i < length (notifiers h) \<Longrightarrow> notifierTimes (notifiers h ! i) \<subseteq> T"
    and "set (buffers (hourChangeChannels h) ch) \<subseteq> T"
  using assms nth_mem unfolding timesIn_def by blast+

lemma timesIn_hourStep:
  assumes T: "timesIn T h"
  shows "timesIn T (hourStep i h)"
proof (cases "i < length (notifiers h)")
  case i: True
  let ?n = "notifiers h ! i" and ?cs = "hourChangeChannels h"
  note n = timesIn_parts(1) [OF T i] and b = timesIn_parts(2) [OF T]
  show ?thesis
  proof (cases "hn_pc ?n")
    case NotRegistered
    have "timesIn T (setNotifier i (?n\<lparr>hn_events := nextChan ?cs, hn_pc := Listening\<rparr>)
        (h\<lparr>hourChangeChannels := subscribe (nextChan ?cs) (snd (makeChan ?cs))\<rparr>))"
      using n b by (intro timesIn_setNotifier [OF T]) (simp_all add: notifierTimes_def subscribe_def makeChan_def)
    then show ?thesis using i NotRegistered by (simp add: hourStep_def Let_def makeChan_def Register_def)
  next
    case Listening
    show ?thesis
    proof (cases "buffers ?cs (hn_events ?n)")
      case Nil
      then show ?thesis using i Listening T by (simp add: hourStep_def Let_def receive_def)
    next
      case (Cons t ts)
      have t: "t \<in> T" "set ts \<subseteq> T" using b [of "hn_events ?n"] Cons by auto
      then have "timesIn T (setNotifier i (?n\<lparr>hn_pc := (if HourOf t = hn_hour ?n then Publishing t else Listening)\<rparr>)
          (h\<lparr>hourChangeChannels := ?cs\<lparr>buffers := (buffers ?cs)(hn_events ?n := ts)\<rparr>\<rparr>))"
        using n b by (intro timesIn_setNotifier [OF T]) (auto simp: notifierTimes_def)
      then show ?thesis using i Listening Cons by (simp add: hourStep_def Let_def receive_def)
    qed
  next
    case (Publishing t)
    show ?thesis
    proof (cases "hn_timerCh ?n")
      case Nil
      have "timesIn T (setNotifier i (?n\<lparr>hn_timerCh := [t], hn_pc := Listening\<rparr>) (h\<lparr>hourChangeChannels := ?cs\<rparr>))"
        using n b Publishing by (intro timesIn_setNotifier [OF T]) (simp_all add: notifierTimes_def)
      then show ?thesis using i Publishing Nil by (simp add: hourStep_def Let_def)
    qed (use i T Publishing in \<open>simp add: hourStep_def Let_def\<close>)
  qed (use i T in \<open>simp add: hourStep_def Let_def\<close>)
qed (use T in \<open>simp add: hourStep_def\<close>)

lemma timesIn_hourCancel:
  assumes T: "timesIn T h"
  shows "timesIn T (hourCancel i h)"
proof (cases "length (notifiers h) \<le> i \<or> hn_pc (notifiers h ! i) = NotRegistered \<or> hn_pc (notifiers h ! i) = Finished")
  case False
  let ?n = "notifiers h ! i"
  have "timesIn T (setNotifier i (?n\<lparr>hn_pc := Finished\<rparr>)
      (h\<lparr>hourChangeChannels := unsubscribe (hn_events ?n) (hourChangeChannels h)\<rparr>))"
    using timesIn_parts [OF T] False
    by (intro timesIn_setNotifier [OF T]) (simp_all add: notifierTimes_def unsubscribe_def)
  then show ?thesis using False by (simp add: hourCancel_def Let_def Unregister_def)
qed (use T in \<open>auto simp: hourCancel_def Let_def\<close>)

lemma timesIn_notify:
  assumes T: "timesIn T h"
  shows "timesIn T (hubNotify ord h)" and "timesIn T (hubSend ord h)"
proof -
  have send: "timesIn T (hubSend ord h)" if T: "timesIn T h" for h
  proof (cases "notifying h")
    case (Some t)
    then have "t \<in> T" using T by (simp add: timesIn_def)
    then have "set (buffers (snd (notifySubscribers [c] t (hourChangeChannels h))) ch) \<subseteq> T" for c ch
      using notify_buffers [of "[c]" t "hourChangeChannels h" ch] timesIn_parts(2) [OF T, of ch] by blast
    then show ?thesis using T Some
      by (auto simp del: notifySubscribers.simps simp: hubSend_def timesIn_def split: option.splits list.splits)
  qed (use T in \<open>simp add: hubSend_def\<close>)
  from send [OF T] show "timesIn T (hubSend ord h)" .
  have "timesIn T ((hubSend ord ^^ n) h)" for n using T by (induction n) (simp_all add: send)
  then show "timesIn T (hubNotify ord h)" using hubNotify_sends [of ord h] by metis
qed

lemma timesIn_receive:
  "timesIn T h \<Longrightarrow> (\<And>t. unmarshalTimeEvent proto body = Inr t \<Longrightarrow> t \<in> T) \<Longrightarrow> timesIn T (hubReceive proto body h)"
  by (auto simp: hubReceive_def timesIn_def split: sum.splits)

lemma timesIn_service: "timesIn T h \<Longrightarrow> timesIn T (hubStarted ok h)" "timesIn T h \<Longrightarrow> timesIn T (hubStopped h)"
  by (auto simp: hubStarted_def hubStopped_def timesIn_def)

lemma timesIn_take:
  assumes T: "timesIn T h" and "takeNotification i h = Some (t, h')"
  shows "t \<in> T \<and> timesIn T h'"
proof -
  let ?n = "notifiers h ! i"
  from assms(2) obtain ts where i: "i < length (notifiers h)" and tch: "hn_timerCh ?n = t # ts"
    and h': "h' = setNotifier i (?n\<lparr>hn_timerCh := ts\<rparr>) (h\<lparr>hourChangeChannels := hourChangeChannels h\<rparr>)"
    by (auto simp: takeNotification_def Let_def split: if_splits list.splits)
  have "insert t (set ts) \<subseteq> T" "notifierTimes (?n\<lparr>hn_timerCh := ts\<rparr>) \<subseteq> T"
    using timesIn_parts(1) [OF T i] tch by (auto simp: notifierTimes_def split: HourPc.splits)
  then show ?thesis
    unfolding h' using timesIn_setNotifier [OF T timesIn_parts(2) [OF T], of "?n\<lparr>hn_timerCh := ts\<rparr>" i] by simp
qed

lemma marked_times [simp]: "notifierTimes (n\<lparr>hn_cancelled := b\<rparr>) = notifierTimes n"
  by (simp add: notifierTimes_def)

lemma timesIn_journeys:
  assumes T: "timesIn T h"
  shows "timesIn T (snd (spawnHourNotification hour h))" "timesIn T (cancelNotifiers h)" "timesIn T (spawnElsewhere hour h)"
    "timesIn T (takeElsewhere i h)" "timesIn T (cancelElsewhere i h)"
proof -
  show "timesIn T (snd (spawnHourNotification hour h))" "timesIn T (spawnElsewhere hour h)"
    using T by (auto simp: spawnHourNotification_def spawnElsewhere_def newNotifier_def timesIn_def notifierTimes_def)
  show "timesIn T (cancelNotifiers h)" using T by (auto simp: cancelNotifiers_def timesIn_def subset_iff)
  show "timesIn T (takeElsewhere i h)" using T timesIn_take [OF T] by (auto simp: takeElsewhere_def split: option.splits)
  show "timesIn T (cancelElsewhere i h)"
    using T timesIn_setNotifier [OF T timesIn_parts(2) [OF T], of "(notifiers h ! i)\<lparr>hn_cancelled := True\<rparr>" i] timesIn_parts(1) [OF T, of i]
    by (auto simp: cancelElsewhere_def foreign_def)
qed

definition reports :: "'x System \<Rightarrow> Time set \<Rightarrow> EnvAction set" where
  "reports S T = {a. \<forall>body t. a = HubReceive body \<longrightarrow> unmarshalTimeEvent (sysTime S) body = Inr t \<longrightarrow> t \<in> T}"

lemma timesIn_env:
  assumes T: "timesIn T (hub w)" and a: "a \<in> reports S T"
  shows "timesIn T (hub (envStep S a w))"
proof (cases a)
  case (HubReceive body)
  then show ?thesis using T a by (auto simp: reports_def intro: timesIn_receive)
next
  case (ReadFrame f)
  then show ?thesis using T
    by (cases "readFrame (sysN S) f (chat w)") (simp add: Let_def sendAck_frame split: option.splits)
next
  case (BusCancelled k)
  then show ?thesis using T by (auto simp: whenCancelled_def split: prod.splits option.splits)
next
  case HubCancelled
  then show ?thesis using T by (auto simp: whenCancelled_def timesIn_service split: prod.splits option.splits)
next
  case (HourCancelled i)
  then show ?thesis using T by (auto simp: whenCancelled_def timesIn_hourCancel split: prod.splits option.splits)
qed (use T in \<open>auto simp: timesIn_hourStep timesIn_notify timesIn_service timesIn_journeys\<close>)

text \<open>A wait that ends well has been told a time that is not before the target.\<close>

lemma untilTurn_result:
  assumes T: "timesIn T (hub w)" and run: "untilTurn S i target s c w = (res, w')"
  shows "timesIn T (hub w') \<and> (res = Inl (Ret ()) \<longrightarrow> (\<exists>t \<in> T. ns target \<le> ns t))"
proof (cases c)
  case CtxDone
  then show ?thesis using run T ctxTurn_result [of "sysE S" s w res w'] by (auto simp: untilTurn_def)
next
  case FromChan
  then show ?thesis using run T
    by (auto simp: untilTurn_def Before_def not_less split: option.splits if_splits dest!: timesIn_take [OF T])
qed (use run T in \<open>auto simp: untilTurn_def\<close>)

interpretation untilLoop: select_loop "envStep S" "untilTurn S i target" "reports S T" "\<lambda>_ w. timesIn T (hub w)"
    "\<lambda>r w. r = Ret () \<longrightarrow> (\<exists>t \<in> T. ns target \<le> ns t)" for S :: "'x System" and i target T
proof
  show "timesIn T (hub w) \<Longrightarrow> untilTurn S i target s c w = (Inr s', w') \<Longrightarrow> timesIn T (hub w')"
    for s w c s' and w' :: "'x JWorld"
    using untilTurn_result by blast
  show "timesIn T (hub w) \<Longrightarrow> untilTurn S i target s c w = (Inl r, w') \<Longrightarrow> r = Ret () \<longrightarrow> (\<exists>t \<in> T. ns target \<le> ns t)"
    for s w c r and w' :: "'x JWorld"
    using untilTurn_result by blast
qed (rule timesIn_env)

lemma waitUntil_not_early:
  assumes "waitUntil S target w = (Ret (), w')"
  shows "\<exists>t \<in> hubTimes (hub w) \<union> eventTimes S (sched w). ns target \<le> ns t"
proof -
  define T where "T = hubTimes (hub w) \<union> eventTimes S (sched w)"
  obtain i h where sp: "spawnHourNotification (HourOf target) (hub w) = (i, h)" by fastforce
  let ?w1 = "w\<lparr>hub := h\<rparr>"
  have "timesIn T (hub w)" by (rule timesIn_hubTimes) (simp add: T_def)
  then have T1: "timesIn T (hub ?w1)"
    using timesIn_journeys(1) [of T "hub w" "HourOf target"] sp by simp
  have acts: "{a. Env a \<in> set (sched w)} \<subseteq> reports S T" by (auto simp: T_def reports_def eventTimes_def)
  obtain as w2 where pre: "preemptOn (envStep S) (sched w) ?w1 = (as, w2)" by fastforce
  have T2: "timesIn T (hub w2)" and sub: "set as \<subseteq> set (sched w)"
    using preemptOn_inv [where I = "\<lambda>w. timesIn T (hub w)" and A = "reports S T", OF timesIn_env pre T1 acts] by auto
  have "{a. Env a \<in> set as} \<subseteq> reports S T" using acts sub by auto
  moreover have "timesIn T (hub (w2\<lparr>sched := as\<rparr>))" using T2 by simp
  ultimately have loop: "\<exists>t \<in> T. ns target \<le> ns t"
    if "loopOn (envStep S) (untilTurn S i target) () as (w2\<lparr>sched := as\<rparr>) = (Ret (), as', w3)" for as' w3
    using untilLoop.outcome [OF _ _ that] by simp
  have now: "snd (CurrentTime (hub w2)) \<longrightarrow> fst (CurrentTime (hub w2)) \<in> T"
    using T2 by (auto simp: CurrentTime_def timesIn_def)
  show ?thesis
    unfolding T_def [symmetric] using assms loop now
    by (auto simp: waitUntil_def bindE_Ret_iff thenE_Ret_iff sp preempt_def pre await_def Before_def not_less
        split: prod.splits if_splits)
qed

end
