(* ===== verification/Journey.thy ===== *)
theory Journey
  imports Origins Lodging
begin

text \<open>
  A journey from end to end: \<open>GuestJourney\<close> (internal/app/journey/guest\_journey.go).
  \<open>prepareStay\<close> is the part of \<open>Start\<close> up to the stay. When it ends well, whatever
  the schedule and the random choices, the journey has been through every stage in order:
  a registered guest, a booking of a cottage and a period found together, an invoice
  that a delivered request named and that was paid, a delivered confirmation and a
  delivered check-in notice that match the booking.
\<close>

subsection \<open>The journey\<close>

record GuestJourney =
  gj_cache :: Cache
  gj_cacheService :: JourneyCacheService
  gj_communicationCfg :: RabbitMqConsumerConfig
  gj_chatURL :: string

text \<open>
  The arguments that are pointers are options or, for the flows and the consumer, flags
  that say whether they are set. The journey state is the state of the world; the flows
  share the cache of the journey, as \<open>buildGuestJourney\<close> makes them.
\<close>

definition NewGuestJourney :: "State option \<Rightarrow> bool \<Rightarrow> bool \<Rightarrow> bool \<Rightarrow> bool \<Rightarrow> bool \<Rightarrow> Cache option
    \<Rightarrow> RabbitMqConsumerConfig \<Rightarrow> string \<Rightarrow> error + GuestJourney \<times> GuestCommunicationBus" where
  "NewGuestJourney state guestRegisterFlow bookingFlow paymentFlow lodgingFlow rabbitConsumer cache cfg chatURL =
     (case (state, cache) of
        (Some _, Some c) \<Rightarrow>
          if \<not> guestRegisterFlow \<or> \<not> bookingFlow \<or> \<not> paymentFlow \<or> \<not> lodgingFlow \<or> \<not> rabbitConsumer
          then Inl (Errorf ''invalid guest journey dependencies'')
          else Inr (\<lparr>gj_cache = c, gj_cacheService = NewJourneyCacheService (Some c), gj_communicationCfg = cfg,
                     gj_chatURL = chatURL\<rparr>, NewGuestCommunicationBus)
      | _ \<Rightarrow> Inl (Errorf ''invalid guest journey dependencies''))"

definition fakeGuest :: "string \<Rightarrow> string \<Rightarrow> string \<Rightarrow> Guest" where
  "fakeGuest fullName ssn address =
     (let name = split_on (CHR '' '') fullName;
          given = (if name \<noteq> [] \<and> name ! 0 \<noteq> [] then name ! 0 else ''Guest'');
          surname = (if 1 < length name \<and> name ! 1 \<noteq> [] then name ! 1 else ''Simulator'')
      in \<lparr>DocumentId = ssn, GivenNames = given, Surname = surname, Email = given @ ''.'' @ surname @ ''@test.com'',
          BillingAddress = address\<rparr>)"

definition createGuest :: "'x External \<Rightarrow> JourneyCacheService \<Rightarrow> (('x, 'z) World_scheme, unit) go" where
  "createGuest E svc =
     bindE (extV (fakeName E)) (\<lambda>name.
     bindE (extV (fakeSSN E)) (\<lambda>ssn.
     bindE (extV (fakeAddress E)) (\<lambda>address.
     thenE (setState (\<lambda>s. s\<lparr>StGuest := Some (fakeGuest name ssn address),
                            RedisKey := ''guest.pending.'' @ ToLower (uniLower E) ssn\<rparr>))
       (InitializeStateCache E svc))))"

definition cleanupGuestJourney :: "'x System \<Rightarrow> GuestJourney \<Rightarrow> ('x JWorld, unit) go" where
  "cleanupGuestJourney S g =
     thenE (LogStateCache (sysE S) (gj_cacheService g)) (CleanupState S (gj_cacheService g) True)"

text \<open>
  \<open>Start\<close> up to the stay. The registration and payment flows need three and two rounds
  (\<open>register_flow_returns\<close>, \<open>payment_flow_returns\<close>); the booking flow has no bound,
  its fuel is an argument.
\<close>

definition prepareStay :: "'x System \<Rightarrow> GuestJourney \<Rightarrow> nat \<Rightarrow> ('x JWorld, unit) go" where
  "prepareStay S g fuel =
     thenE (createGuest (sysE S) (gj_cacheService g))
    (thenE (GuestRegisterFlow_Start (sysE S) (Some (gj_cache g)) 3)
    (thenE (SetupCommunication S (gj_communicationCfg g) True True)
    (thenE (BookingFlow_Start (sysE S) (Some (gj_cache g)) fuel)
    (bindE (Load (sysE S) (gj_cache g)) (\<lambda>cacheValue.
       if (case Booking cacheValue of None \<Rightarrow> True | Some b \<Rightarrow> BookingID b = [])
       then throw (Errorf ''booking flow finished without bookingId'')
       else
         thenE (SyncStateCache (sysE S) (gj_cacheService g))
        (thenE (afterOthers S (WaitPaymentRequestMessage S (Some (gj_cache g))))
        (thenE (PaymentFlow_Start (sysE S) (Some (gj_cache g)) 2)
        (thenE (SyncStateCache (sysE S) (gj_cacheService g))
        (thenE (afterOthers S (WaitBookingConfirmationMessage S (Some (gj_cache g))))
          (afterOthers S (WaitCheckinTodayMessage S (Some (gj_cache g)))))))))))))"

definition journeyBody :: "'x System \<Rightarrow> GuestJourney \<Rightarrow> nat \<Rightarrow> ('x JWorld, unit) go" where
  "journeyBody S g fuel =
     thenE (prepareStay S g fuel)
    (thenE (RunLodgingStayFlow S True (gj_chatURL g) (Some (gj_cache g)))
      (cleanupGuestJourney S g))"

text \<open>
  The deferred function: after an error, also one of the cleanup itself, the journey is
  cleaned up, and an error of that is joined to the first. A panic skips it, because the
  named result is still nil.
\<close>

definition onErrorJoin :: "('w, unit) go \<Rightarrow> ('w, unit) go \<Rightarrow> ('w, unit) go" where
  "onErrorJoin body cleanup = bindE (tryE body) (\<lambda>r.
     case r of
       Inr _ \<Rightarrow> ret ()
     | Inl err \<Rightarrow> bindE (tryE cleanup) (\<lambda>c. case c of Inr _ \<Rightarrow> throw err | Inl cleanupErr \<Rightarrow> throw (Joined err cleanupErr)))"

definition Start_journey :: "'x System \<Rightarrow> GuestJourney \<Rightarrow> nat \<Rightarrow> ('x JWorld, unit) go" where
  "Start_journey S g fuel = onErrorJoin (journeyBody S g fuel) (cleanupGuestJourney S g)"

subsection \<open>The phases of a journey\<close>

lemma createGuest_Ret:
  assumes laws: "redisLaws E content" and run: "createGuest E svc w = (Ret u, w')"
  shows "\<exists>g. initialised content (g, None, None) w'"
proof -
  from run obtain w1 where "InitializeStateCache E svc w1 = (Ret u, w')"
    by (auto simp: createGuest_def bindE_Ret_iff thenE_Ret_iff)
  from InitializeStateCache_cached [OF laws this] show ?thesis
    by (auto simp: initialised_def zeroCacheValue_def cacheable_def)
qed

context flow_frame
begin

lemma createGuest: "keeps P (createGuest E svc)"
  by (auto simp: createGuest_def intro!: go_keeps fakes state cache_service)

end

text \<open>The journey of guest \<open>g\<close> with id \<open>gid\<close> and booking \<open>b\<close>, on a bus whose messages were delivered.\<close>

definition underWay :: "('x \<Rightarrow> string \<Rightarrow> json option) \<Rightarrow> Runtime \<Rightarrow> Delivery set \<Rightarrow> string \<Rightarrow> Guest
    \<Rightarrow> GuestJourneyBooking option \<Rightarrow> 'x JWorld \<Rightarrow> bool" where
  "underWay content R D gid g b w \<longleftrightarrow> journeyIs content gid (gid, Some g, b) w \<and> busOk R D (gid, Some g) w
     \<and> deliveries (sched w) \<subseteq> D"

lemma underWay_rest:
  fixes w w' :: "'x JWorld"
  assumes "underWay content R D gid g b w" and "keeps (sameRest w) m" and "keeps (guestIs (gid, Some g)) m"
    and "m w = (r, w')" and "journeyIs content gid (gid, Some g, b') w'"
  shows "underWay content R D gid g b' w'"
  using assms(1,5) sameRest_bus [OF assms(2,4)] keepsD [OF assms(3) _ assms(4)]
  by (simp add: underWay_def busOk_def)

locale journey_world = journey_system +
  assumes amqp: "amqpLaws (sysA S) content" and live: "neverCancelled (sysE S)"

sublocale journey_world \<subseteq> flow: live_store "sysE S" content c
  by unfold_locales (use live sys in \<open>simp_all add: systemLaws_def\<close>)

context journey_world
begin

lemma opening_phase:
  assumes fresh: "bus w = NewGuestCommunicationBus"
    and run: "thenE (createGuest (sysE S) svc) (thenE (GuestRegisterFlow_Start (sysE S) (Some c) n)
      (SetupCommunication S cfg True True)) w = (Ret (), w')"
  shows "\<exists>gid g. gid \<noteq> [] \<and> underWay content (sysR S) (deliveries (sched w)) gid g None w'"
proof -
  from run obtain w1 w2 where cg: "createGuest (sysE S) svc w = (Ret (), w1)"
    and rf: "GuestRegisterFlow_Start (sysE S) (Some c) n w1 = (Ret (), w2)"
    and sc: "SetupCommunication S cfg True True w2 = (Ret (), w')"
    by (auto simp: thenE_Ret_iff)
  obtain g where "initialised content (g, None, None) w1" using createGuest_Ret [OF sysD(1) cg] by blast
  with flow.register_flow_end [OF _ rf] have reg: "registered (sysE S) content (g, None, None) w2" "withGuestId (sysE S) w2" by auto
  then obtain st v where st: "w_state w2 = Some st" "GuestId st \<noteq> []" "StGuest st = Some g" "RedisKey st \<noteq> []"
    and v: "cached content w2 = Some v" "cacheable v" "GuestID v = GuestId st" "PersonalInfo v = Some g" "Booking v = None"
    by (auto simp: registered_def withGuestId_def)
  have bus2: "bus w2 = NewGuestCommunicationBus" "sched w2 = sched w"
    using sameRest_bus(1,4) [OF restFrame.createGuest cg] sameRest_bus(1,4) [OF restFrame.register_flow rf] fresh by simp_all
  obtain st' where st': "w_state w' = Some st'" "GuestId st' = GuestId st" "StGuest st' = Some g" "keyOf st' = keyOf st"
    and b': "busInv (bus w')" "sched w' = sched w" "bus w' = StartBus ((Reset (bus w2))\<lparr>Consumer := True\<rparr>)"
    using SetupCommunication_Ret [OF sc] bus2 busInv_new st by (auto simp: keyOf_def)
  have from': "fromDeliveries (sysR S) (deliveries (sched w)) (bus w')"
    using b'(3) held_setup [OF held_new] bus2 by simp
  have "content (w_ext w') = content (w_ext w2)"
    using keepsD [OF SetupCommunication_content [OF amqp] _ sc, of "content (w_ext w2)"] by (simp add: contentIs_def)
  then have "cached content w' = Some v" using v(1) st st' by (simp add: cached_def)
  then have "underWay content (sysR S) (deliveries (sched w)) (GuestId st) g None w'"
    using v st st' b' from' by (simp add: underWay_def journeyIs_def busOk_def guestIs_def)
  with st(2) show ?thesis by blast
qed

lemma sync_phase:
  assumes ok: "underWay content R D gid g b w" and "gid \<noteq> []"
    and run: "SyncStateCache (sysE S) (Some (Some c)) w = (Ret (), w')"
  shows "underWay content R D gid g b w'"
proof (rule underWay_rest [OF ok restFrame.cache_service(1) guestFrame.cache_service(1) run])
  obtain v where v: "cached content w = Some v" "cacheable v" "PersonalInfo v = Some g" "Booking v = b"
    using ok by (auto simp: underWay_def journeyIs_def)
  obtain st where st: "w_state w = Some st" "GuestId st = gid" "StGuest st = Some g"
    using ok by (auto simp: underWay_def busOk_def guestIs_def)
  have "cached content w' = Some (synced st v)" using flow.sync_cached [OF run] v st by auto
  moreover have "guestIs (gid, Some g) w'" using keepsD [OF guestFrame.cache_service(1) _ run] st by (auto simp: guestIs_def)
  ultimately show "journeyIs content gid (gid, Some g, b) w'"
    using v st by (auto simp: journeyIs_def guestIs_def synced_def)
qed

lemma booking_phase:
  assumes ok: "underWay content R D gid g None w" and "gid \<noteq> []"
    and flow: "BookingFlow_Start (sysE S) (Some c) n w = (Ret (), w1)"
    and load: "Load (sysE S) c w1 = (Ret v, w2)" and id: "Booking v = Some b" "BookingID b \<noteq> []"
    and sync: "SyncStateCache (sysE S) (Some (Some c)) w2 = (Ret (), w3)"
  shows "underWay content R D gid g (Some b) w3 \<and> SelectedCottage b \<noteq> [] \<and> foundTogether (sysE S) b"
proof -
  obtain v0 where v0: "cached content w = Some v0" "cacheable v0" "GuestID v0 = gid" "PersonalInfo v0 = Some g" "Booking v0 = None"
    using ok by (auto simp: underWay_def journeyIs_def)
  then have "journeyHas content (identity v0) unbooked w" by (auto simp: journeyHas_def unbooked_def)
  from flow.booking_flow_end [OF this flow] obtain v1 where v1: "cached content w1 = Some v1" "cacheable v1"
    "identity v1 = identity v0" "consistent (sysE S) (identity v0) (Booking v1)"
    by (auto simp: journeyHas_def)
  have v: "v = v1" and w2: "cached content w2 = Some v1" using Load_cached(1,2) [OF sysD(1) load] v1(1) by auto
  let ?m = "thenE (BookingFlow_Start (sysE S) (Some c) n) (Load (sysE S) c)"
  have run: "?m w = (Ret v, w2)" using flow load by (auto simp: thenE_Ret_iff)
  have "keeps (sameRest w) ?m" "keeps (guestIs (gid, Some g)) ?m"
    by (intro keeps_thenE restFrame.booking_flow restFrame.cache guestFrame.booking_flow guestFrame.cache)+
  note frame = this
  have "guestIs (gid, Some g) w2" using keepsD [OF frame(2) _ run] ok by (simp add: underWay_def busOk_def)
  then have "journeyIs content gid (gid, Some g, Some b) w2"
    using w2 v v1 v0 id(1) by (auto simp: journeyIs_def guestIs_def identity_def)
  from underWay_rest [OF ok frame run this] have "underWay content R D gid g (Some b) w2" .
  from sync_phase [OF this assms(2) sync] show ?thesis using v1(4) v id by (auto simp: consistent_def)
qed

text \<open>The other goroutines leave the journey as it is, whatever they deliver.\<close>

lemma others_phase:
  assumes "underWay content (sysR S) D gid g b w" and "preempt S w = (Ret (), w')"
  shows "underWay content (sysR S) D gid g b w'"
proof -
  obtain as w2 where p: "preemptOn (envStep S) (sched w) w = (as, w2)" "w' = w2\<lparr>sched := as\<rparr>"
    using assms(2) by (auto simp: preempt_def split: prod.splits)
  let ?I = "\<lambda>w. journeyIs content gid (gid, Some g, b) w \<and> busOk (sysR S) D (gid, Some g) w"
  let ?A = "{a. \<forall>d. a = BusDeliver d \<longrightarrow> d \<in> D}"
  have env: "?I (envStep S a v)" if "?I v" "a \<in> ?A" for v a
  proof -
    have "storeIs content (w_state v, content (w_ext v)) (envStep S a v)"
      using sys by (intro envStep_store) (simp_all add: systemLaws_def storeIs_def)
    then show ?thesis using that busOk_env [OF sys] by (auto simp: journeyIs_def storeIs_def cached_def)
  qed
  have "?I w2 \<and> set as \<subseteq> set (sched w)"
    by (rule preemptOn_inv [where I = ?I and A = ?A, OF env p(1)]) (use assms(1) in \<open>auto simp: underWay_def deliveries_def\<close>)
  then show ?thesis using assms(1) p(2) busOk_cong [of w' w2] by (auto simp: underWay_def deliveries_def journeyIs_def cached_def)
qed

lemma payment_phase:
  assumes ok: "underWay content (sysR S) D gid g (Some b) w" and "gid \<noteq> []"
    and wait: "WaitPaymentRequestMessage S (Some c) w = (Ret (), w1)"
    and flow: "PaymentFlow_Start (sysE S) (Some c) n w1 = (Ret (), w2)"
    and sync: "SyncStateCache (sysE S) (Some (Some c)) w2 = (Ret (), w3)"
  shows "underWay content (sysR S) D gid g (Some b) w3
    \<and> (\<exists>m \<in> decoded decodePayment (sysR S) D. \<exists>v v'. Booking v = Some b \<and> PersonalInfo v = Some g
        \<and> invoiced (sysE S) m v \<and> paidWith (sysE S) v v')"
proof -
  have inv: "topicInv (paymentRequests (bus w))" and held: "held (paymentRequests (bus w)) \<subseteq> decoded decodePayment (sysR S) D"
    using ok by (auto simp: underWay_def busOk_def busInv_def fromDeliveries_def)
  have J: "journeyIs content gid (gid, Some g, Some b) w" using ok by (simp add: underWay_def)
  from payment_wait [OF inv J wait] obtain m where m: "m \<in> offered paymentRequests decodePayment S w"
    and acc: "journeyAnd content gid (gid, Some g, Some b) (invoiced (sysE S) m) w1"
    by blast
  have md: "m \<in> decoded decodePayment (sysR S) D"
    using m held ok by (auto simp: offered_def held_def decoded_def underWay_def deliveries_def)
  have bus1: "busOk (sysR S) D (gid, Some g) w1" "deliveries (sched w1) \<subseteq> D"
    using wait_keeps_bus(1) [OF sys _ _ wait] ok by (auto simp: underWay_def)
  obtain v where v: "cached content w1 = Some v" "cacheable v" "GuestID v = gid" "PersonalInfo v = Some g" "Booking v = Some b"
    "invoiced (sysE S) m v"
    using acc by (auto simp: journeyAnd_def journeyIs_def)
  obtain v' where v': "paidWith (sysE S) v v'" "cached content w2 = Some v'" "cacheable v'"
    using flow.payment_flow_end [OF v(1,2) flow] by blast
  have "guestIs (gid, Some g) w2" using keepsD [OF guestFrame.payment_flow _ flow] bus1 by (simp add: busOk_def)
  then have "journeyIs content gid (gid, Some g, Some b) w2"
    using v' v by (auto simp: journeyIs_def guestIs_def paidWith_def)
  moreover have "underWay content (sysR S) D gid g (Some b) w1" using acc bus1 by (simp add: underWay_def journeyAnd_def)
  ultimately have "underWay content (sysR S) D gid g (Some b) w2"
    using underWay_rest [OF _ restFrame.payment_flow guestFrame.payment_flow flow] by blast
  from sync_phase [OF this assms(2) sync] md v v' show ?thesis by blast
qed

lemma arrival_phase:
  assumes ok: "underWay content (sysR S) D gid g (Some b) w"
    and conf: "WaitBookingConfirmationMessage S (Some c) w = (Ret (), w1)"
    and others: "preempt S w1 = (Ret (), w1')" and arr: "WaitCheckinTodayMessage S (Some c) w1' = (Ret (), w2)"
  shows "underWay content (sysR S) D gid g (Some b) w2
    \<and> (\<exists>m \<in> decoded decodeConfirmation (sysR S) D. \<exists>v. Booking v = Some b \<and> confirms gid v m)
    \<and> (\<exists>m \<in> decoded decodeCheckin (sysR S) D. \<exists>v. Booking v = Some b \<and> checkinFor gid v m)"
proof -
  have inv: "topicInv (bookingConfirmations (bus w))"
    and held: "held (bookingConfirmations (bus w)) \<subseteq> decoded decodeConfirmation (sysR S) D"
    using ok by (auto simp: underWay_def busOk_def busInv_def fromDeliveries_def)
  have J: "journeyIs content gid (gid, Some g, Some b) w" using ok by (simp add: underWay_def)
  from confirmation_wait [OF inv J conf] obtain m where m: "m \<in> offered bookingConfirmations decodeConfirmation S w"
    and acc: "journeyAnd content gid (gid, Some g, Some b) (\<lambda>v. confirms gid v m) w1"
    by blast
  have md: "m \<in> decoded decodeConfirmation (sysR S) D"
    using m held ok by (auto simp: offered_def held_def decoded_def underWay_def deliveries_def)
  have "underWay content (sysR S) D gid g (Some b) w1"
    using wait_keeps_bus(2) [OF sys _ _ conf] ok acc by (auto simp: underWay_def journeyAnd_def)
  from others_phase [OF this others]
  have J1: "journeyIs content gid (gid, Some g, Some b) w1'"
    and bus1: "busOk (sysR S) D (gid, Some g) w1'" "deliveries (sched w1') \<subseteq> D" by (simp_all add: underWay_def)
  then have inv1: "topicInv (checkinToday (bus w1'))"
    and held1: "held (checkinToday (bus w1')) \<subseteq> decoded decodeCheckin (sysR S) D"
    by (auto simp: busOk_def busInv_def fromDeliveries_def)
  from checkin_wait [OF inv1 J1 arr] obtain m' where m': "m' \<in> offered checkinToday decodeCheckin S w1'"
    and acc': "journeyAnd content gid (gid, Some g, Some b) (\<lambda>v. checkinFor gid v m') w2"
    by blast
  have md': "m' \<in> decoded decodeCheckin (sysR S) D"
    using m' held1 bus1 by (auto simp: offered_def held_def decoded_def deliveries_def)
  have "underWay content (sysR S) D gid g (Some b) w2"
    using wait_keeps_bus(3) [OF sys bus1 arr] acc' by (simp add: underWay_def journeyAnd_def)
  moreover have "\<exists>v. Booking v = Some b \<and> confirms gid v m" "\<exists>v. Booking v = Some b \<and> checkinFor gid v m'"
    using acc acc' by (auto simp: journeyAnd_def journeyIs_def)
  ultimately show ?thesis using md md' by blast
qed

text \<open>All phases together.\<close>

lemma prepared:
  assumes fresh: "bus w = NewGuestCommunicationBus" and g: "gj_cache G = c" "gj_cacheService G = Some (Some c)"
    and run: "prepareStay S G fuel w = (Ret (), w')"
  shows "\<exists>gid g b. gid \<noteq> [] \<and> BookingID b \<noteq> [] \<and> SelectedCottage b \<noteq> [] \<and> foundTogether (sysE S) b
    \<and> underWay content (sysR S) (deliveries (sched w)) gid g (Some b) w'
    \<and> (\<exists>m \<in> decoded decodePayment (sysR S) (deliveries (sched w)). \<exists>v v'. Booking v = Some b \<and> PersonalInfo v = Some g
        \<and> invoiced (sysE S) m v \<and> paidWith (sysE S) v v')
    \<and> (\<exists>m \<in> decoded decodeConfirmation (sysR S) (deliveries (sched w)). \<exists>v. Booking v = Some b \<and> confirms gid v m)
    \<and> (\<exists>m \<in> decoded decodeCheckin (sysR S) (deliveries (sched w)). \<exists>v. Booking v = Some b \<and> checkinFor gid v m)"
proof -
  let ?E = "sysE S"
  from run [unfolded prepareStay_def g] obtain w1 w2 w3 w4 v where
    open1: "thenE (createGuest ?E (Some (Some c))) (thenE (GuestRegisterFlow_Start ?E (Some c) 3)
      (SetupCommunication S (gj_communicationCfg G) True True)) w = (Ret (), w1)"
    and book: "BookingFlow_Start ?E (Some c) fuel w1 = (Ret (), w2)" and load: "Load ?E c w2 = (Ret v, w3)"
    and id: "\<not> (case Booking v of None \<Rightarrow> True | Some b \<Rightarrow> BookingID b = [])"
    and sync1: "SyncStateCache ?E (Some (Some c)) w3 = (Ret (), w4)"
    and rest: "thenE (afterOthers S (WaitPaymentRequestMessage S (Some c))) (thenE (PaymentFlow_Start ?E (Some c) 2)
      (thenE (SyncStateCache ?E (Some (Some c))) (thenE (afterOthers S (WaitBookingConfirmationMessage S (Some c)))
        (afterOthers S (WaitCheckinTodayMessage S (Some c)))))) w4 = (Ret (), w')"
    by (auto simp: thenE_Ret_iff bindE_Ret_iff split: if_splits)
  from rest obtain w4' w5 w6 w7 w7' w8 w8' where
    others: "preempt S w4 = (Ret (), w4')" "preempt S w7 = (Ret (), w7')" "preempt S w8 = (Ret (), w8')"
    and pay: "WaitPaymentRequestMessage S (Some c) w4' = (Ret (), w5)" "PaymentFlow_Start ?E (Some c) 2 w5 = (Ret (), w6)"
      "SyncStateCache ?E (Some (Some c)) w6 = (Ret (), w7)"
    and arr: "WaitBookingConfirmationMessage S (Some c) w7' = (Ret (), w8)" "WaitCheckinTodayMessage S (Some c) w8' = (Ret (), w')"
    by (auto simp: thenE_Ret_iff afterOthers_def)
  obtain b where b: "Booking v = Some b" "BookingID b \<noteq> []" using id by (auto split: option.splits)
  obtain gid g where gid: "gid \<noteq> []" and u1: "underWay content (sysR S) (deliveries (sched w)) gid g None w1"
    using opening_phase [OF fresh open1] by blast
  from booking_phase [OF u1 gid book load b sync1]
  have u4: "underWay content (sysR S) (deliveries (sched w)) gid g (Some b) w4"
    and fb: "SelectedCottage b \<noteq> []" "foundTogether ?E b" by auto
  from payment_phase [OF others_phase [OF u4 others(1)] gid pay] have u7: "underWay content (sysR S) (deliveries (sched w)) gid g (Some b) w7"
    and paid: "\<exists>m \<in> decoded decodePayment (sysR S) (deliveries (sched w)). \<exists>v v'. Booking v = Some b \<and> PersonalInfo v = Some g
        \<and> invoiced ?E m v \<and> paidWith ?E v v'" by auto
  show ?thesis using arrival_phase [OF others_phase [OF u7 others(2)] arr(1) others(3) arr(2)] paid gid b(2) fb by blast
qed

end

subsection \<open>Cleaning up\<close>

lemma LogStateCache_frame:
  fixes w :: "'x JWorld"
  assumes "LogStateCache E svc w = (r, w')"
  shows "\<exists>x. w' = w\<lparr>w_ext := x\<rparr>"
proof -
  have "w' = w \<or> (\<exists>x. w' = w\<lparr>w_ext := x\<rparr>)"
    using assms
    by (auto simp: LogStateCache_def Get_def bindE_def ext_def split: option.splits if_splits prod.splits res.splits)
  then show ?thesis by (metis World.surjective World.update_convs(2))
qed

lemma CloseCommunication_Ret:
  "CloseCommunication S hasBus w = (Ret u, w') \<Longrightarrow> hasBus \<Longrightarrow> \<not> Consumer (bus w')"
  by (auto simp: CloseCommunication_def thenE_Ret_iff Reset_def makeDone_def split: if_splits)

lemma CloseCommunication_content:
  assumes "amqpLaws (sysA S) content"
  shows "keeps (contentIs content m) (CloseCommunication S hasBus)"
  unfolding CloseCommunication_def
  by (intro go_keeps amqp_store.channel [OF amqp_store.intro [OF assms]]) (simp add: contentIs_def)

lemma CloseCommunication_state: "keeps (stateIs s) (CloseCommunication S hasBus)"
  by (auto simp: CloseCommunication_def CloseChannel_def stateIs_def intro!: go_keeps)

definition released :: "('x \<Rightarrow> string \<Rightarrow> json option) \<Rightarrow> 'x JWorld \<Rightarrow> bool" where
  "released content w \<longleftrightarrow> cached content w = None \<and> \<not> Consumer (bus w)"

lemma cleanup_released:
  assumes "redisLaws (sysE S) content" and amqp: "amqpLaws (sysA S) content"
    and svc: "gj_cacheService G = Some (Some c)" and run: "cleanupGuestJourney S G w = (Ret (), w')"
  shows "released content w'"
proof -
  from run svc obtain w1 w2 where del: "DeleteStateCache (sysE S) (Some (Some c)) w1 = (Ret (), w2)"
    and close: "CloseCommunication S True w2 = (Ret (), w')"
    by (auto simp: cleanupGuestJourney_def CleanupState_def thenE_Ret_iff)
  have "cached content w2 = None" using redis_store.delete_cached [OF redis_store.intro [OF assms(1)] del] by simp
  moreover have "content (w_ext w') = content (w_ext w2)"
    using keepsD [OF CloseCommunication_content [OF amqp] _ close, of "content (w_ext w2)"] by (simp add: contentIs_def)
  moreover have "w_state w' = w_state w2"
    using keepsD [OF CloseCommunication_state _ close, of "w_state w2"] by (simp add: stateIs_def)
  ultimately show ?thesis using CloseCommunication_Ret [OF close] cached_cong [of w' w2 content] by (simp add: released_def)
qed

subsection \<open>What the preparation and the cleanup leave alone\<close>

text \<open>
  A frame condition of the world of a journey: the moves of the journey on its bus and the steps of
  the other goroutines keep it, and blocking loops do when their turns do.
\<close>

locale journey_frame = flow_frame "sysE S" P ok for S :: "'x System" and P :: "'x JWorld \<Rightarrow> bool" and ok +
  assumes bus_moves: "P w \<Longrightarrow> busMove (bus w) b \<Longrightarrow> P (w\<lparr>bus := b\<rparr>)"
    and preempted: "keeps P (preempt S)"
    and loop: "(\<And>s c w. P w \<Longrightarrow> P (snd (turn s c w))) \<Longrightarrow> keeps P (await S turn (s :: WaitPc) :: ('x JWorld, unit) go)"
    and consumer: "keeps P (DeclareQueue (sysA S) q)" "keeps P (BindQueue (sysA S) bd)" "keeps P (Consume (sysA S))"
      "keeps P (CloseChannel (sysA S))"
begin

lemma wait:
  assumes match: "\<And>m. keeps P (match m)"
    and own: "\<And>b t. topicMove (get b) t \<Longrightarrow> busMove b (upd (\<lambda>_. t) b)" and upd: "\<And>f b. upd f b = upd (\<lambda>_. f (get b)) b"
  shows "keeps P (waitMessage S get upd match)"
proof (rule keepsI)
  fix w r w'
  assume w: "P w" and run: "waitMessage S get upd match w = (r, w')"
  obtain ch t where mk: "makeChan (get (bus w)) = (ch, t)" by fastforce
  obtain w2 where a: "await S (waitTurn S get upd match ch) AtTake (w\<lparr>bus := upd (\<lambda>_. subscribe ch t) (bus w)\<rparr>) = (r, w2)"
    and w': "w' = w2\<lparr>bus := upd (unsubscribe ch) (bus w2)\<rparr>"
    using run mk by (auto simp: waitMessage_def split: prod.splits)
  have tried: "P (snd (tryMatch match m pc v))" if "P v" for m pc v
    using keepsD [OF match that] by (cases "match m v"; cases "fst (match m v)") (auto simp: tryMatch_def)
  have ctx: "P (v\<lparr>w_ext := x\<rparr>)" if "P v" "ctxErr (sysE S) (w_ext v) = (e, x)" for v e x
    using keepsD [OF out(5) that(1)] that(2) by (auto simp: extV_def)
  have moved: "P (v\<lparr>bus := upd (\<lambda>_. t) (bus v)\<rparr>)" if "P v" "topicMove (get (bus v)) t" for v t
    using that by (intro bus_moves own)
  have "P (snd (waitTurn S get upd match ch s c v))" if "P v" for s c v
    using that by (cases s; cases c) (auto split: option.splits prod.splits intro!: tried moved intro: ctx topicMove.intros)
  from keepsD [OF loop [OF this] moved [OF w topicMove.subscribed [OF mk]] a] have "P w2" .
  then show "P w'" unfolding w' upd [of "unsubscribe ch"] by (rule moved) (rule topicMove.unsubscribed)
qed

lemma waits: "keeps P (WaitPaymentRequestMessage S C)" "keeps P (WaitBookingConfirmationMessage S C)"
  "keeps P (WaitCheckinTodayMessage S C)"
  unfolding WaitPaymentRequestMessage_def WaitBookingConfirmationMessage_def WaitCheckinTodayMessage_def
  by (intro wait matches busMove.intros; simp)+

lemma communication: "keeps P (SetupCommunication S cfg has hasBus)" "keeps P (CloseCommunication S hasBus)"
proof -
  have close: "keeps P (orClose (sysA S) m)" if "keeps P m" for m :: "('x JWorld, unit) go"
    unfolding orClose_def by (intro go_keeps that consumer)
  show "keeps P (SetupCommunication S cfg has hasBus)"
    unfolding SetupCommunication_def by (intro go_keeps state consumer close) (rule bus_moves, assumption, rule busMove.set_up)
  show "keeps P (CloseCommunication S hasBus)"
    unfolding CloseCommunication_def by (intro go_keeps consumer) (rule bus_moves, assumption, rule busMove.close)
qed

lemma prepare: "keeps P (prepareStay S G fuel)"
  unfolding prepareStay_def afterOthers_def
  by (intro go_keeps preempted createGuest register_flow booking_flow payment_flow cache cache_service waits communication)

lemma cleanup: "keeps P (cleanupGuestJourney S G)"
  unfolding cleanupGuestJourney_def CleanupState_def by (intro go_keeps cache_service communication)

end

end
