(* ===== verification/Telemetry.thy ===== *)
theory Telemetry
  imports World
begin

text \<open>
  The set-up of OpenTelemetry (internal/infra/telemetry/telemetry.go and metrics.go): resource,
  providers, global registration and instruments in their order, stopping at the first error, and the
  shutdown function, which shuts both providers down and joins their errors. The library calls are the
  fields of \<open>OTel\<close>.
\<close>

record Telemetry_Config =
  tc_Endpoint :: string
  tc_GrpcPort :: int
  tc_Insecure :: bool

record AppInfo =
  ai_ServiceName :: string
  ai_Version :: string

datatype OtlpOption = WithEndpoint string | WithInsecure

text \<open>\<open>instrument\<close> makes a histogram or counter, given its name and unit.\<close>

record 'x OTel =
  otelResource :: "string \<Rightarrow> 'x \<Rightarrow> unit res \<times> 'x"
  traceExporter :: "OtlpOption list \<Rightarrow> 'x \<Rightarrow> unit res \<times> 'x"
  metricExporter :: "OtlpOption list \<Rightarrow> 'x \<Rightarrow> unit res \<times> 'x"
  setGlobals :: "'x \<Rightarrow> unit \<times> 'x"
  instrument :: "string \<Rightarrow> string \<Rightarrow> 'x \<Rightarrow> unit res \<times> 'x"
  traceShutdown :: "'x \<Rightarrow> unit res \<times> 'x"
  meterShutdown :: "'x \<Rightarrow> unit res \<times> 'x"

definition otelTraceOptions :: "Telemetry_Config \<Rightarrow> OtlpOption list" where
  "otelTraceOptions cfg = WithEndpoint (tc_Endpoint cfg @ '':'' @ show_int (tc_GrpcPort cfg)) # (if tc_Insecure cfg then [WithInsecure] else [])"

definition otelMetricOptions :: "Telemetry_Config \<Rightarrow> OtlpOption list" where
  "otelMetricOptions cfg = WithEndpoint (tc_Endpoint cfg @ '':'' @ show_int (tc_GrpcPort cfg)) # (if tc_Insecure cfg then [WithInsecure] else [])"

definition newTraceProvider :: "'x OTel \<Rightarrow> Telemetry_Config \<Rightarrow> (('x, 'z) World_scheme, unit) go" where
  "newTraceProvider L cfg = ext (traceExporter L (otelTraceOptions cfg))"

definition newMeterProvider :: "'x OTel \<Rightarrow> Telemetry_Config \<Rightarrow> (('x, 'z) World_scheme, unit) go" where
  "newMeterProvider L cfg = ext (metricExporter L (otelMetricOptions cfg))"

definition initMetrics :: "'x OTel \<Rightarrow> (('x, 'z) World_scheme, unit) go" where
  "initMetrics L =
     thenE (ext (instrument L ''app.startup.duration'' ''ms''))
    (thenE (ext (instrument L ''mq.publish'' ''1''))
      (ext (instrument L ''mq.publish.duration_ms'' ''ms'')))"

definition telemetry_Init :: "'x OTel \<Rightarrow> Telemetry_Config \<Rightarrow> AppInfo \<Rightarrow> (('x, 'z) World_scheme, unit) go" where
  "telemetry_Init L cfg appCfg =
     thenE (ext (otelResource L (ai_ServiceName appCfg @ '':'' @ ai_Version appCfg)))
    (thenE (newTraceProvider L cfg)
    (thenE (newMeterProvider L cfg)
    (thenE (extV (setGlobals L)) (initMetrics L))))"

text \<open>\<open>errors.Join\<close> of what has been collected and a new error.\<close>

definition joinErr :: "error option \<Rightarrow> error \<Rightarrow> error option" where
  "joinErr acc e = (case acc of None \<Rightarrow> Some e | Some a \<Rightarrow> Some (Joined a e))"

definition collect :: "error option \<Rightarrow> error + unit \<Rightarrow> error option" where
  "collect acc r = (case r of Inl e \<Rightarrow> joinErr acc e | Inr _ \<Rightarrow> acc)"

definition orError :: "error option \<Rightarrow> ('w, unit) go" where
  "orError acc = (case acc of None \<Rightarrow> ret () | Some e \<Rightarrow> throw e)"

definition telemetry_shutdown :: "'x OTel \<Rightarrow> (('x, 'z) World_scheme, unit) go" where
  "telemetry_shutdown L =
     bindE (tryE (ext (traceShutdown L))) (\<lambda>r1.
     bindE (tryE (ext (meterShutdown L))) (\<lambda>r2.
       orError (collect (collect None r1) r2)))"

end
