(* ===== verification/Config.thy ===== *)
theory Config
  imports Mq
begin

text \<open>
  The configuration of the process (internal/config/config.go): its structs, and \<open>LoadConfigs\<close>,
  which reads them from the environment through a library and writes them to the log. The logger of
  the process (internal/infra/log/log.go) is a JSON handler, so what is written is the JSON form that
  \<open>encoding/json\<close> gives to the struct: the fields of embedded structs are promoted, and names
  that are promoted twice from the same depth are left out. The main fact is that no secret reaches
  the log.
\<close>

subsection \<open>The structs\<close>

text \<open>\<open>Secret\<close> is a string type of its own, with a \<open>String\<close> method.\<close>

datatype Secret = Secret (secretValue: string)

definition Secret_String :: "Secret \<Rightarrow> string" where
  "Secret_String s = ''REDACTED''"

record NameConfig =
  nm_ServiceName :: string
  nm_Version :: string

record TelemetryConfig =
  tl_OTLPEndpoint :: string
  tl_OTLPGrpcPort :: int
  tl_OTLPHealthPort :: int
  tl_OTLPInsecure :: bool

record AppConfig =
  ap_Name :: NameConfig
  ap_Telemetry :: TelemetryConfig

record ProbeConfig =
  pb_Address :: string
  pb_Port :: int
  pb_ReadHeaderTimeoutInSeconds :: int
  pb_ReadTimeoutInSeconds :: int
  pb_WriteTimeoutInSeconds :: int
  pb_IdleTimeoutInSeconds :: int

record RedisConfig =
  rd_Username :: Secret
  rd_Password :: Secret
  rd_Host :: string
  rd_Port :: int
  rd_DB :: int

record RabbitMqConsumersConfig =
  rc_HourChange :: RabbitMqConsumerConfig
  rc_Communication :: RabbitMqConsumerConfig

record RabbitMqConnConfig =
  rb_Username :: Secret
  rb_Password :: Secret
  rb_Host :: string
  rb_Port :: int

record ServicesConfig =
  sv_ClockEmuGrpcUrl :: string
  sv_ClockEmuGrpcPort :: int
  sv_CottageManagerUrl :: string
  sv_CottageManagerPort :: int
  sv_GuestManagerUrl :: string
  sv_GuestManagerPort :: int
  sv_PaymentSimulatorUrl :: string
  sv_PaymentSimulatorPort :: int

record BookingFlowConfig =
  bf_GraphFile :: string
  bf_ConcurrencyLevel :: int

record LodgingFlowConfig =
  lf_ConcurrencyLevel :: int

record PaymentFlowConfig =
  pf_ConcurrencyLevel :: int

record GuestRegisterFlowConfig =
  gf_GraphFile :: string
  gf_ConcurrencyLevel :: int

record GuestJourneyFlowConfig =
  jf_ConcurrencyLevel :: int

record FlowsConfig =
  fl_Booking :: BookingFlowConfig
  fl_Payment :: PaymentFlowConfig
  fl_Lodging :: LodgingFlowConfig
  fl_GuestRegister :: GuestRegisterFlowConfig
  fl_GuestJourney :: GuestJourneyFlowConfig

record Configs =
  cf_AppConfig :: AppConfig
  cf_ProbeConfig :: ProbeConfig
  cf_RabbitMqConnConfig :: RabbitMqConnConfig
  cf_RabbitMqConsumersConfig :: RabbitMqConsumersConfig
  cf_RedisConfig :: RedisConfig
  cf_ServicesConfig :: ServicesConfig
  cf_FlowsConfig :: FlowsConfig

subsection \<open>encoding/json on structs\<close>

text \<open>
  A Go value as reflection shows it. A field is named or embedded; none of the structs has JSON tags.
  A value of type \<open>Secret\<close> is of kind string: the encoder does not call \<open>String\<close>.
\<close>

datatype goVal = GStr string | GInt int | GBool bool | GStruct "(bool \<times> string \<times> goVal) list"

text \<open>The fields with their depths, embedded structs expanded in place.\<close>

fun promoted :: "nat \<Rightarrow> (bool \<times> string \<times> goVal) list \<Rightarrow> (nat \<times> string \<times> goVal) list" where
  "promoted d [] = []"
| "promoted d ((True, n, GStruct fs) # rest) = promoted (Suc d) fs @ promoted d rest"
| "promoted d ((em, n, v) # rest) = (d, n, v) # promoted d rest"

text \<open>A field is encoded when no other of its name is as shallow.\<close>

definition dominant :: "(nat \<times> string \<times> goVal) list \<Rightarrow> nat \<times> string \<times> goVal \<Rightarrow> bool" where
  "dominant fs f \<longleftrightarrow> length (filter (\<lambda>g. fst (snd g) = fst (snd f) \<and> fst g \<le> fst f) fs) = 1"

lemma promoted_size:
  "(d, n, v) \<in> set (promoted k fs) \<Longrightarrow> size v < Suc (size_list (size_prod (\<lambda>_. 0) (size_prod (\<lambda>_. 0) size)) fs)"
  by (induction k fs rule: promoted.induct) (auto simp: less_Suc_eq_le)

function marshalGo :: "goVal \<Rightarrow> json" where
  "marshalGo (GStr s) = JStr s"
| "marshalGo (GInt i) = JNum (of_int i)"
| "marshalGo (GBool b) = JBool b"
| "marshalGo (GStruct fs) =
     JObj (map (\<lambda>f. (fst (snd f), marshalGo (snd (snd f)))) (filter (dominant (promoted 0 fs)) (promoted 0 fs)))"
  by pat_completeness auto

termination
  by (relation "measure size") (auto dest: promoted_size)

subsection \<open>The structs as Go values\<close>

abbreviation named :: "string \<Rightarrow> goVal \<Rightarrow> bool \<times> string \<times> goVal" where
  "named n v \<equiv> (False, n, v)"

abbreviation secret :: "Secret \<Rightarrow> goVal" where
  "secret s \<equiv> GStr (secretValue s)"

definition queueVal :: "QueueConfig \<Rightarrow> goVal" where
  "queueVal q = GStruct [named ''Name'' (GStr (q_Name q)), named ''Durable'' (GBool (q_Durable q)), named ''AutoDelete'' (GBool (q_AutoDelete q)),
     named ''Exclusive'' (GBool (q_Exclusive q)), named ''NoWait'' (GBool (q_NoWait q))]"

definition bindingVal :: "BindingConfig \<Rightarrow> goVal" where
  "bindingVal b = GStruct [named ''ExchangeName'' (GStr (b_ExchangeName b)), named ''RoutingKey'' (GStr (b_RoutingKey b)),
     named ''NoWait'' (GBool (b_NoWait b))]"

definition consumeVal :: "ConsumeConfig \<Rightarrow> goVal" where
  "consumeVal c = GStruct [named ''Consumer'' (GStr (c_Consumer c)), named ''AutoAck'' (GBool (c_AutoAck c)),
     named ''Exclusive'' (GBool (c_Exclusive c)), named ''NoLocal'' (GBool (c_NoLocal c)), named ''NoWait'' (GBool (c_NoWait c))]"

definition consumerVal :: "RabbitMqConsumerConfig \<Rightarrow> goVal" where
  "consumerVal c = GStruct [named ''Queue'' (queueVal (cfg_Queue c)), named ''Binding'' (bindingVal (cfg_Binding c)),
     named ''Consume'' (consumeVal (cfg_Consume c))]"

definition appVal :: "AppConfig \<Rightarrow> goVal" where
  "appVal a = GStruct
     [named ''Name'' (GStruct [named ''ServiceName'' (GStr (nm_ServiceName (ap_Name a))), named ''Version'' (GStr (nm_Version (ap_Name a)))]),
      named ''Telemetry'' (GStruct
        [named ''OTLPEndpoint'' (GStr (tl_OTLPEndpoint (ap_Telemetry a))), named ''OTLPGrpcPort'' (GInt (tl_OTLPGrpcPort (ap_Telemetry a))),
         named ''OTLPHealthPort'' (GInt (tl_OTLPHealthPort (ap_Telemetry a))), named ''OTLPInsecure'' (GBool (tl_OTLPInsecure (ap_Telemetry a)))])]"

definition probeVal :: "ProbeConfig \<Rightarrow> goVal" where
  "probeVal p = GStruct
     [named ''Address'' (GStr (pb_Address p)), named ''Port'' (GInt (pb_Port p)),
      named ''ReadHeaderTimeoutInSeconds'' (GInt (pb_ReadHeaderTimeoutInSeconds p)), named ''ReadTimeoutInSeconds'' (GInt (pb_ReadTimeoutInSeconds p)),
      named ''WriteTimeoutInSeconds'' (GInt (pb_WriteTimeoutInSeconds p)), named ''IdleTimeoutInSeconds'' (GInt (pb_IdleTimeoutInSeconds p))]"

definition rabbitConnVal :: "RabbitMqConnConfig \<Rightarrow> goVal" where
  "rabbitConnVal r = GStruct [named ''Username'' (secret (rb_Username r)), named ''Password'' (secret (rb_Password r)),
     named ''Host'' (GStr (rb_Host r)), named ''Port'' (GInt (rb_Port r))]"

definition redisVal :: "RedisConfig \<Rightarrow> goVal" where
  "redisVal r = GStruct [named ''Username'' (secret (rd_Username r)), named ''Password'' (secret (rd_Password r)),
     named ''Host'' (GStr (rd_Host r)), named ''Port'' (GInt (rd_Port r)), named ''DB'' (GInt (rd_DB r))]"

definition servicesVal :: "ServicesConfig \<Rightarrow> goVal" where
  "servicesVal s = GStruct
     [named ''ClockEmuGrpcUrl'' (GStr (sv_ClockEmuGrpcUrl s)), named ''ClockEmuGrpcPort'' (GInt (sv_ClockEmuGrpcPort s)),
      named ''CottageManagerUrl'' (GStr (sv_CottageManagerUrl s)), named ''CottageManagerPort'' (GInt (sv_CottageManagerPort s)),
      named ''GuestManagerUrl'' (GStr (sv_GuestManagerUrl s)), named ''GuestManagerPort'' (GInt (sv_GuestManagerPort s)),
      named ''PaymentSimulatorUrl'' (GStr (sv_PaymentSimulatorUrl s)), named ''PaymentSimulatorPort'' (GInt (sv_PaymentSimulatorPort s))]"

definition flowsVal :: "FlowsConfig \<Rightarrow> goVal" where
  "flowsVal f = GStruct
     [named ''Booking'' (GStruct [named ''GraphFile'' (GStr (bf_GraphFile (fl_Booking f))),
        named ''ConcurrencyLevel'' (GInt (bf_ConcurrencyLevel (fl_Booking f)))]),
      named ''Payment'' (GStruct [named ''ConcurrencyLevel'' (GInt (pf_ConcurrencyLevel (fl_Payment f)))]),
      named ''Lodging'' (GStruct [named ''ConcurrencyLevel'' (GInt (lf_ConcurrencyLevel (fl_Lodging f)))]),
      named ''GuestRegister'' (GStruct [named ''GraphFile'' (GStr (gf_GraphFile (fl_GuestRegister f))),
        named ''ConcurrencyLevel'' (GInt (gf_ConcurrencyLevel (fl_GuestRegister f)))]),
      named ''GuestJourney'' (GStruct [named ''ConcurrencyLevel'' (GInt (jf_ConcurrencyLevel (fl_GuestJourney f)))])]"

definition configsVal :: "Configs \<Rightarrow> goVal" where
  "configsVal c = GStruct
     [(True, ''AppConfig'', appVal (cf_AppConfig c)), (True, ''ProbeConfig'', probeVal (cf_ProbeConfig c)),
      (True, ''RabbitMqConnConfig'', rabbitConnVal (cf_RabbitMqConnConfig c)),
      (True, ''RabbitMqConsumersConfig'', GStruct [named ''HourChange'' (consumerVal (rc_HourChange (cf_RabbitMqConsumersConfig c))),
         named ''Communication'' (consumerVal (rc_Communication (cf_RabbitMqConsumersConfig c)))]),
      (True, ''RedisConfig'', redisVal (cf_RedisConfig c)), (True, ''ServicesConfig'', servicesVal (cf_ServicesConfig c)),
      (True, ''FlowsConfig'', flowsVal (cf_FlowsConfig c))]"

subsection \<open>LoadConfigs\<close>

text \<open>
  \<open>parse\<close> is the library call \<open>env.Parse\<close>, \<open>logInfo\<close> writes a line with a message and its
  attributes.
\<close>

definition LoadConfigs :: "('x \<Rightarrow> Configs res \<times> 'x) \<Rightarrow> (string \<Rightarrow> (string \<times> json) list \<Rightarrow> 'x \<Rightarrow> unit \<times> 'x)
    \<Rightarrow> (('x, 'z) World_scheme, Configs) go" where
  "LoadConfigs parse logInfo =
     bindE (ext parse) (\<lambda>cfg.
     thenE (extV (logInfo ''config loaded'' [(''config'', marshalGo (configsVal cfg))])) (ret cfg))"

text \<open>The configuration with its secrets blanked.\<close>

definition blanked :: "Configs \<Rightarrow> Configs" where
  "blanked c = c\<lparr>cf_RabbitMqConnConfig := (cf_RabbitMqConnConfig c)\<lparr>rb_Username := Secret [], rb_Password := Secret []\<rparr>,
     cf_RedisConfig := (cf_RedisConfig c)\<lparr>rd_Username := Secret [], rd_Password := Secret []\<rparr>\<rparr>"

lemmas struct_vals = configsVal_def appVal_def probeVal_def rabbitConnVal_def redisVal_def servicesVal_def flowsVal_def

text \<open>What is left of the promoted fields.\<close>

definition keptFields :: "(nat \<times> string \<times> goVal) list \<Rightarrow> (nat \<times> string \<times> goVal) list" where
  "keptFields fs = filter (dominant fs) fs"

lemma marshalGo_struct: "marshalGo (GStruct fs) = JObj (map (\<lambda>f. (fst (snd f), marshalGo (snd (snd f)))) (keptFields (promoted 0 fs)))"
  by (simp add: keptFields_def)

definition clashing :: "string list" where
  "clashing = [''Username'', ''Password'', ''Host'', ''Port'']"

definition topFields :: "goVal \<Rightarrow> (nat \<times> string \<times> goVal) list" where
  "topFields v = (case v of GStruct fs \<Rightarrow> promoted 0 fs | _ \<Rightarrow> [])"

text \<open>Which fields are kept depends on depths and names only, and those are fixed.\<close>

definition depthName :: "nat \<times> string \<times> goVal \<Rightarrow> nat \<times> string" where
  "depthName f = (fst f, fst (snd f))"

definition nameKept :: "(nat \<times> string) list \<Rightarrow> nat \<times> string \<Rightarrow> bool" where
  "nameKept names k \<longleftrightarrow> length (filter (\<lambda>g. snd g = snd k \<and> fst g \<le> fst k) names) = 1"

lemma dominant_nameKept: "dominant fs f \<longleftrightarrow> nameKept (map depthName fs) (depthName f)"
  by (simp add: dominant_def nameKept_def depthName_def filter_map comp_def)

definition configNames :: "(nat \<times> string) list" where
  "configNames = map (Pair 1) ([''Name'', ''Telemetry'', ''Address'', ''Port'', ''ReadHeaderTimeoutInSeconds'', ''ReadTimeoutInSeconds'',
     ''WriteTimeoutInSeconds'', ''IdleTimeoutInSeconds'', ''Username'', ''Password'', ''Host'', ''Port'', ''HourChange'', ''Communication'',
     ''Username'', ''Password'', ''Host'', ''Port'', ''DB'', ''ClockEmuGrpcUrl'', ''ClockEmuGrpcPort'', ''CottageManagerUrl'',
     ''CottageManagerPort'', ''GuestManagerUrl'', ''GuestManagerPort'', ''PaymentSimulatorUrl'', ''PaymentSimulatorPort'', ''Booking'',
     ''Payment'', ''Lodging'', ''GuestRegister'', ''GuestJourney''])"

lemma config_names: "map depthName (topFields (configsVal c)) = configNames"
  by (simp add: topFields_def struct_vals depthName_def configNames_def)

lemma config_names_kept: "list_all (\<lambda>k. nameKept configNames k \<longleftrightarrow> snd k \<notin> set clashing) configNames"
  by code_simp

lemma kept_fields: "keptFields (topFields (configsVal c)) = filter (\<lambda>f. fst (snd f) \<notin> set clashing) (topFields (configsVal c))"
  unfolding keptFields_def dominant_nameKept config_names
proof (rule filter_cong [OF refl])
  fix f
  assume "f \<in> set (topFields (configsVal c))"
  then have "depthName f \<in> set configNames" unfolding config_names [of c, symmetric] by simp
  then show "nameKept configNames (depthName f) = (fst (snd f) \<notin> set clashing)"
    using config_names_kept by (simp add: list_all_iff depthName_def)
qed

lemma blanked_fields: "filter (\<lambda>f. fst (snd f) \<notin> set clashing) (topFields (configsVal (blanked c))) =
    filter (\<lambda>f. fst (snd f) \<notin> set clashing) (topFields (configsVal c))"
  by (simp add: topFields_def struct_vals clashing_def blanked_def)

lemma config_log_blanked: "marshalGo (configsVal (blanked c)) = marshalGo (configsVal c)"
proof -
  have top: "marshalGo (configsVal d) = JObj (map (\<lambda>f. (fst (snd f), marshalGo (snd (snd f)))) (keptFields (topFields (configsVal d))))" for d
    by (simp only: configsVal_def topFields_def goVal.case marshalGo_struct)
  show ?thesis by (simp only: top kept_fields blanked_fields)
qed

text \<open>
  Only the clash of the names keeps the secrets out: \<open>Username\<close>, \<open>Password\<close>, \<open>Host\<close> and
  \<open>Port\<close> are promoted from two structs or three. A connection configuration by itself is encoded with its
  password.
\<close>

lemma connection_shows_password: "\<exists>kvs. marshalGo (rabbitConnVal r) = JObj kvs \<and> (''Password'', JStr (secretValue (rb_Password r))) \<in> set kvs"
  by (simp add: rabbitConnVal_def dominant_def)

end
