(* ===== verification/Program.thy ===== *)
theory Program
  imports Journey Telemetry Config
begin

text \<open>
  The process around the journeys: \<open>runCleanup\<close> (internal/main.go and
  internal/infra/init.go have the same function), \<open>NewRabbitmq\<close> and
  \<open>NewRedisClient\<close> (init.go), \<open>buildGuestJourney\<close>, \<open>runJourneys\<close> and \<open>main\<close> (main.go), and the readiness probe
  (internal/transport/http/probe/readiness.go).
\<close>

subsection \<open>runCleanup\<close>

fun cleanupLoop :: "('w, unit) go list \<Rightarrow> error option \<Rightarrow> ('w, unit) go" where
  "cleanupLoop [] shutdownErr = orError shutdownErr"
| "cleanupLoop (f # fs) shutdownErr =
     bindE (tryE f) (\<lambda>r. cleanupLoop fs (collect shutdownErr r))"

definition runCleanup :: "('w, unit) go list \<Rightarrow> ('w, unit) go" where
  "runCleanup cleanup = cleanupLoop (rev cleanup) None"

text \<open>Running every function in turn, whatever it returns.\<close>

definition afterAll :: "('w, unit) go list \<Rightarrow> 'w \<Rightarrow> 'w" where
  "afterAll fs w = foldl (\<lambda>w f. snd (f w)) w fs"

fun errorsOf :: "('w, unit) go list \<Rightarrow> 'w \<Rightarrow> error list" where
  "errorsOf [] w = []"
| "errorsOf (f # fs) w = (case f w of (Err e, w') \<Rightarrow> e # errorsOf fs w' | (_, w') \<Rightarrow> errorsOf fs w')"

definition returns :: "('w, 'a) go \<Rightarrow> bool" where
  "returns m \<longleftrightarrow> (\<forall>w. \<exists>a. fst (m w) = Ret a \<or> (\<exists>e. fst (m w) = Err e))"

lemma cleanupLoop_run:
  assumes "\<forall>f \<in> set fs. returns f"
  shows "cleanupLoop fs acc w =
    ((case foldl (\<lambda>a e. joinErr a e) acc (errorsOf fs w) of None \<Rightarrow> Ret () | Some e \<Rightarrow> Err e), afterAll fs w)"
  using assms
proof (induction fs arbitrary: acc w)
  case Nil
  then show ?case by (simp add: afterAll_def orError_def split: option.splits)
next
  case (Cons f fs)
  obtain r w1 where f: "f w = (r, w1)" by fastforce
  have "\<exists>a. fst (f w) = Ret a \<or> (\<exists>e. fst (f w) = Err e)" using Cons.prems unfolding returns_def by auto
  then consider a where "r = Ret a" | e where "r = Err e" using f by auto
  then show ?case using Cons f by cases (simp_all add: bindE_def tryE_def afterAll_def collect_def)
qed

lemma cleanupLoop_append:
  "cleanupLoop (fs @ [f]) acc w = (r, w') \<Longrightarrow> (\<exists>a. r = Ret a) \<or> (\<exists>e. r = Err e) \<Longrightarrow> \<exists>r1 w1. f w1 = (r1, w')"
proof (induction fs arbitrary: acc w)
  case Nil
  then show ?case by (auto simp: bindE_def tryE_def throw_def ret_def orError_def split: prod.splits res.splits option.splits)
next
  case (Cons g fs)
  then show ?case by (auto simp: bindE_def tryE_def split: prod.splits res.splits)
qed

lemma runCleanup_first: "runCleanup (f # fs) w = (r, w') \<Longrightarrow> (\<exists>a. r = Ret a) \<or> (\<exists>e. r = Err e) \<Longrightarrow> \<exists>r1 w1. f w1 = (r1, w')"
  unfolding runCleanup_def using cleanupLoop_append [of "rev fs" f None w r w'] by simp

subsection \<open>NewRabbitmq\<close>

definition NewRabbitMqConnection :: "'x Amqp \<Rightarrow> (('x, 'z) MqWorld_scheme, unit) go" where
  "NewRabbitMqConnection A =
     thenE (setRabbit (\<lambda>c. c\<lparr>conn := None, connClosed := False\<rparr>)) (reconnectLocked A)"

definition NewRabbitmqConsumer :: "'x Amqp \<Rightarrow> ConsumeConfig \<Rightarrow> (('x, 'z) MqWorld_scheme, unit) go" where
  "NewRabbitmqConsumer A cfg =
     thenE (setRabbit (\<lambda>c. c\<lparr>channel := None, queueName := [], consumeConfig := cfg\<rparr>)) (openChannel A)"

text \<open>\<open>_ = runCleanup(ctx, cleanup); return Rabbitmq\{\}, ...\<close> after an error.\<close>

definition orCleanup :: "('w, unit) go list \<Rightarrow> (error \<Rightarrow> error) \<Rightarrow> ('w, unit) go \<Rightarrow> ('w, unit) go" where
  "orCleanup cleanup wrap m = bindE (tryE m) (\<lambda>r. case r of
      Inl e \<Rightarrow> thenE (ignoreErr (runCleanup cleanup)) (throw (wrap e))
    | Inr u \<Rightarrow> ret u)"

definition NewRabbitmq :: "'x Amqp \<Rightarrow> RabbitMqConsumerConfig \<Rightarrow> (('x, 'z) MqWorld_scheme, unit) go" where
  "NewRabbitmq A cfg =
     thenE (NewRabbitMqConnection A)
    (thenE (orCleanup [CloseConnection A] id (NewRabbitmqConsumer A (cfg_Consume cfg)))
    (thenE (orCleanup [CloseConnection A, CloseChannel A] (Wrapf ''declare hour event queue: '') (DeclareQueue A (cfg_Queue cfg)))
      (orCleanup [CloseConnection A, CloseChannel A] (Wrapf ''bind hour event queue: '') (BindQueue A (cfg_Binding cfg)))))"

lemma cleanupLoop_all:
  "cleanupLoop fs acc w = (r, w') \<Longrightarrow> (\<exists>a. r = Ret a) \<or> (\<exists>e. r = Err e) \<Longrightarrow> w' = afterAll fs w"
proof (induction fs arbitrary: acc w)
  case Nil
  then show ?case by (auto simp: orError_def afterAll_def split: option.splits)
next
  case (Cons f fs)
  then show ?case by (cases "f w"; cases "fst (f w)") (auto simp: bindE_def tryE_def afterAll_def)
qed

lemma orCleanup_Err:
  assumes "orCleanup fs wrap m w = (Err e, w')"
  shows "\<exists>e1 w1. m w = (Err e1, w1) \<and> e = wrap e1 \<and> w' = afterAll (rev fs) w1"
proof -
  from assms obtain e1 w1 where m: "m w = (Err e1, w1)" "thenE (ignoreErr (runCleanup fs)) (throw (wrap e1)) w1 = (Err e :: unit res, w')"
    unfolding orCleanup_def tryE_case_Err_iff by auto
  obtain r w2 where r: "runCleanup fs w1 = (r, w2)" by fastforce
  with m(2) have "(\<exists>a. r = Ret a) \<or> (\<exists>e. r = Err e)" "w2 = w'" "e = wrap e1"
    by (cases r; simp add: thenE_def bindE_def ignoreErr_def)+
  with cleanupLoop_all [of "rev fs" None w1 r w2] r m(1) show ?thesis by (auto simp: runCleanup_def)
qed

lemma orCleanup_Ret: "orCleanup fs wrap m w = (Ret u, w') \<longleftrightarrow> m w = (Ret u, w')"
  by (auto simp: orCleanup_def bindE_def tryE_def thenE_def split: prod.splits res.splits)

text \<open>Once there is a connection, the operations only ever replace it; a channel is kept only when it was opened.\<close>

definition connected :: "('x, 'z) MqWorld_scheme \<Rightarrow> bool" where
  "connected w \<longleftrightarrow> conn (rabbit w) \<noteq> None"

definition channelIs :: "nat option \<Rightarrow> ('x, 'z) MqWorld_scheme \<Rightarrow> bool" where
  "channelIs c w \<longleftrightarrow> channel (rabbit w) = c"

lemma connected_basic [go_keeps]: "keeps connected (ext f)" "keeps connected (extV g)"
    "(\<And>c. conn c \<noteq> None \<Longrightarrow> conn (h c) \<noteq> None) \<Longrightarrow> keeps connected (setRabbit h)"
  and channelIs_basic [go_keeps]: "keeps (channelIs c) (ext f)" "keeps (channelIs c) (extV g)"
    "(\<And>c. channel (h c) = channel c) \<Longrightarrow> keeps (channelIs c) (setRabbit h)"
  by (auto intro!: keepsI simp: ext_Ret_iff extV_Ret_iff setRabbit_def connected_def channelIs_def)

lemma connected_dial [go_keeps]: "keeps connected (dialLoop A n e)" "keeps (channelIs c) (dialLoop A n e)"
  by (induction n arbitrary: e) (auto intro!: go_keeps)

lemma connected_open [go_keeps]: "keeps connected (openConnection A)" "keeps (channelIs c) (openConnection A)"
  by (auto simp: openConnection_def reconnectLocked_def currentConn_def intro!: go_keeps)

lemma connected_consumer: "keeps connected (NewRabbitmqConsumer A cc)" "keeps connected (DeclareQueue A q)" "keeps connected (BindQueue A b)"
  by (auto simp: NewRabbitmqConsumer_def DeclareQueue_def BindQueue_def ensureChannel_def channelGone_def reopenChannel_def openChannel_def
    wrapErr_def intro!: go_keeps)

text \<open>An operation that fails leaves the channel alone, although it may set it last.\<close>

definition errKeeps :: "('w \<Rightarrow> bool) \<Rightarrow> ('w, 'a) go \<Rightarrow> bool" where
  "errKeeps P m \<longleftrightarrow> (\<forall>w e w'. P w \<longrightarrow> m w = (Err e, w') \<longrightarrow> P w')"

lemma errKeeps_keeps: "keeps P m \<Longrightarrow> errKeeps P m"
  unfolding keeps_def errKeeps_def by (metis snd_conv)

lemma errKeeps_bind: "keeps P m \<Longrightarrow> (\<And>a. errKeeps P (k a)) \<Longrightarrow> errKeeps P (bindE m k)"
  unfolding errKeeps_def bindE_Err_iff by (blast dest: keepsD)

lemma errKeeps_setRabbit: "errKeeps P (setRabbit h)"
  by (auto simp: errKeeps_def setRabbit_def)

lemma errKeeps_if: "errKeeps P m \<Longrightarrow> errKeeps P m' \<Longrightarrow> errKeeps P (if c then m else m')"
  by simp

lemma errKeeps_case: "(\<And>x. errKeeps P (f x)) \<Longrightarrow> (\<And>y. errKeeps P (g y)) \<Longrightarrow> errKeeps P (case s of Inl x \<Rightarrow> f x | Inr y \<Rightarrow> g y)"
  by (cases s) simp_all

lemmas errKeeps_intros = errKeeps_setRabbit errKeeps_if errKeeps_case

lemma openChannel_Err: "openChannel A w = (Err e, w') \<Longrightarrow> channel (rabbit w') = channel (rabbit w)"
proof -
  have "errKeeps (channelIs c) (openChannel A)" for c
    unfolding openChannel_def by (intro errKeeps_bind errKeeps_intros go_keeps) (intro errKeeps_keeps go_keeps)
  then show "openChannel A w = (Err e, w') \<Longrightarrow> ?thesis" by (auto simp: errKeeps_def channelIs_def)
qed

lemma dialLoop_failed:
  fixes w :: "('x, 'z) MqWorld_scheme"
  shows "dialLoop A n e w = (Err e', w') \<Longrightarrow> \<forall>r \<in> set (dials A n (w_ext w)). \<exists>e. r = Err e"
proof (induction n arbitrary: e w)
  case (Suc n)
  obtain r x where r: "amqpDial A (w_ext w) = (r, x)" by fastforce
  show ?case using Suc.prems Suc.IH [of _ "w\<lparr>w_ext := x\<rparr>"]
    by (cases r) (auto simp: bindE_def tryE_def ext_def r setRabbit_def)
qed simp

text \<open>The calls that closing makes to the library, when there is something to close.\<close>

definition closeCalls :: "(nat \<Rightarrow> 'x \<Rightarrow> bool \<times> 'x) \<Rightarrow> (nat \<Rightarrow> 'x \<Rightarrow> unit res \<times> 'x) \<Rightarrow> nat option \<Rightarrow> 'x \<Rightarrow> 'x" where
  "closeCalls isClosed close k x =
     (case k of
        None \<Rightarrow> x
      | Some k \<Rightarrow> (let (b, x') = isClosed k x in if b then x' else snd (close k x')))"

lemma CloseConnection_calls:
  "snd (CloseConnection A w) = w\<lparr>rabbit := (rabbit w)\<lparr>connClosed := True\<rparr>,
     w_ext := closeCalls (connIsClosed A) (connClose A) (conn (rabbit w)) (w_ext w)\<rparr>"
  by (auto simp: CloseConnection_def closeCalls_def thenE_def bindE_def setRabbit_def extV_def ext_def Let_def split: option.splits prod.splits)

lemma CloseChannel_calls:
  "snd (CloseChannel A w) = w\<lparr>w_ext := closeCalls (chanIsClosed A) (chanClose A) (channel (rabbit w)) (w_ext w)\<rparr>"
  by (auto simp: CloseChannel_def closeCalls_def bindE_def extV_def ext_def Let_def split: option.splits prod.splits)

lemma NewRabbitmq_Err:
  fixes w w' :: "('x, 'z) MqWorld_scheme"
  assumes "NewRabbitmq A cfg w = (Err e, w')"
  shows "(conn (rabbit w') = None \<and> (\<forall>r \<in> set (dials A 5 (w_ext w)). \<exists>e. r = Err e))
    \<or> (\<exists>v k. conn (rabbit v) = Some k \<and> w' = snd (CloseConnection A (snd (CloseChannel A v))))"
proof -
  have made: "connected w1" if "NewRabbitMqConnection A w = (Ret u, w1)" for u w1
    using that dialLoop_conn by (fastforce simp: NewRabbitMqConnection_def reconnectLocked_def thenE_Ret_iff bindE_Ret_iff connected_def
      split: if_splits)
  have after: "\<exists>v k. conn (rabbit v) = Some k \<and> w' = snd (CloseConnection A (snd (CloseChannel A v)))"
    if c: "connected v" and k: "keeps connected m" and run: "orCleanup [CloseConnection A, CloseChannel A] wrap m v = (Err e, w')"
    for v and m :: "(('x, 'z) MqWorld_scheme, unit) go" and wrap
  proof -
    obtain e1 v1 where "m v = (Err e1, v1)" "w' = snd (CloseConnection A (snd (CloseChannel A v1)))"
      using orCleanup_Err [OF run] by (auto simp: afterAll_def)
    with keepsD [OF k c] show ?thesis by (auto simp: connected_def)
  qed
  from assms consider (first) "NewRabbitMqConnection A w = (Err e, w')"
    | (opened) w1 where "NewRabbitMqConnection A w = (Ret (), w1)"
        "orCleanup [CloseConnection A] id (NewRabbitmqConsumer A (cfg_Consume cfg)) w1 = (Err e, w')"
    | (declared) w1 w2 where "NewRabbitMqConnection A w = (Ret (), w1)"
        "NewRabbitmqConsumer A (cfg_Consume cfg) w1 = (Ret (), w2)"
        "orCleanup [CloseConnection A, CloseChannel A] (Wrapf ''declare hour event queue: '') (DeclareQueue A (cfg_Queue cfg)) w2 = (Err e, w')"
    | (bound) w1 w2 w3 where "NewRabbitMqConnection A w = (Ret (), w1)"
        "NewRabbitmqConsumer A (cfg_Consume cfg) w1 = (Ret (), w2)" "DeclareQueue A (cfg_Queue cfg) w2 = (Ret (), w3)"
        "orCleanup [CloseConnection A, CloseChannel A] (Wrapf ''bind hour event queue: '') (BindQueue A (cfg_Binding cfg)) w3 = (Err e, w')"
    unfolding NewRabbitmq_def by (auto simp: thenE_def bindE_Err_iff orCleanup_Ret)
  then show ?thesis
  proof cases
    case first
    then show ?thesis
      using dialLoop_failed [of A 5] dialLoop_Err [of A 5]
      by (fastforce simp: NewRabbitMqConnection_def reconnectLocked_def rabbitDialAttempts_def setRabbit_def thenE_def bindE_def)
  next
    case (opened w1)
    obtain e1 v where v: "NewRabbitmqConsumer A (cfg_Consume cfg) w1 = (Err e1, v)" "w' = snd (CloseConnection A v)"
      using orCleanup_Err [OF opened(2)] by (auto simp: afterAll_def)
    then have "channel (rabbit v) = None"
      using openChannel_Err by (fastforce simp: NewRabbitmqConsumer_def thenE_def bindE_Err_iff setRabbit_def)
    then have "snd (CloseChannel A v) = v" by (simp add: CloseChannel_calls closeCalls_def)
    then show ?thesis using v keepsD [OF connected_consumer(1) made [OF opened(1)] v(1)] by (auto simp: connected_def)
  next
    case (declared w1 w2)
    then show ?thesis using after [OF keepsD [OF connected_consumer(1) made [OF declared(1)] declared(2)] connected_consumer(2)] by blast
  next
    case (bound w1 w2 w3)
    note w2 = keepsD [OF connected_consumer(1) made [OF bound(1)] bound(2)]
    show ?thesis using after [OF keepsD [OF connected_consumer(2) w2 bound(3)] connected_consumer(3) bound(4)] by blast
  qed
qed

subsection \<open>NewRedisClient\<close>

text \<open>
  \<open>ping\<close> and \<open>close\<close> are the calls of the Redis library; \<open>Redis_Ping\<close> and \<open>Redis_Close\<close> the
  wrapper around them (internal/infra/redis/redis.go).
\<close>

definition Redis_Ping :: "('x \<Rightarrow> unit res \<times> 'x) \<Rightarrow> (('x, 'z) World_scheme, unit) go" where
  [simp]: "Redis_Ping ping = ext ping"

definition Redis_Close :: "('x \<Rightarrow> unit res \<times> 'x) \<Rightarrow> (('x, 'z) World_scheme, unit) go" where
  [simp]: "Redis_Close close = ext close"

definition NewRedisClient :: "('x \<Rightarrow> unit res \<times> 'x) \<Rightarrow> ('x \<Rightarrow> unit res \<times> 'x) \<Rightarrow> string \<Rightarrow> int \<Rightarrow> (('x, 'z) World_scheme, unit) go" where
  "NewRedisClient ping close host port =
     bindE (tryE (Redis_Ping ping)) (\<lambda>r. case r of
        Inl e \<Rightarrow> thenE (ignoreErr (ext close))
          (throw (Wrapf (''redis ping failed for address '' @ host @ '':'' @ show_int port @ '': '') e))
      | Inr _ \<Rightarrow> ret ())"

subsection \<open>buildGuestJourney\<close>

text \<open>
  The constructors of the four flows never fail. \<open>host\<close> and \<open>port\<close> are the address of
  the guest manager, which the chat URL of the lodging flow names.
\<close>

definition chatURL :: "string \<Rightarrow> int \<Rightarrow> string" where
  "chatURL host port = ''ws://'' @ host @ '':'' @ show_int port @ ''/lodging/chat''"

definition buildGuestJourney :: "'x System \<Rightarrow> Cache option \<Rightarrow> RabbitMqConsumerConfig \<Rightarrow> string \<Rightarrow> int \<Rightarrow> ('x JWorld, GuestJourney) go" where
  "buildGuestJourney S redisCache communicationConsumer host port =
     thenE (modW (\<lambda>w. w\<lparr>w_state := Some zeroState\<rparr>))
    (thenE (NewRabbitmqConsumer (sysA S) (cfg_Consume communicationConsumer))
    (bindE (getW w_state) (\<lambda>state.
       case NewGuestJourney state True True True True True redisCache communicationConsumer (chatURL host port) of
         Inl e \<Rightarrow> throw e
       | Inr (g, b) \<Rightarrow> thenE (modW (\<lambda>w. w\<lparr>bus := b\<rparr>)) (ret g))))"

lemma buildGuestJourney_Ret:
  assumes "buildGuestJourney S C cfg host port w = (Ret G, w')"
  shows "gj_cacheService G = Some (Some (gj_cache G)) \<and> C = Some (gj_cache G) \<and> bus w' = NewGuestCommunicationBus
    \<and> w_state w' = Some zeroState \<and> sched w' = sched w \<and> hub w' = hub w"
proof -
  from assms obtain w1 where c: "NewRabbitmqConsumer (sysA S) (cfg_Consume cfg) (w\<lparr>w_state := Some zeroState\<rparr>) = (Ret (), w1)"
    and w': "w' = w1\<lparr>bus := NewGuestCommunicationBus\<rparr>" "gj_cacheService G = Some (Some (gj_cache G))" "C = Some (gj_cache G)"
    by (auto simp: buildGuestJourney_def NewGuestJourney_def NewJourneyCacheService_def thenE_Ret_iff bindE_Ret_iff
      split: option.splits if_splits)
  have "keeps (rabbitOnly (w\<lparr>w_state := Some zeroState\<rparr>)) (NewRabbitmqConsumer (sysA S) (cfg_Consume cfg))"
    unfolding NewRabbitmqConsumer_def by (intro go_keeps)
  from rabbitOnlyD [OF this c] w' show ?thesis by simp
qed

subsection \<open>runJourneys\<close>

text \<open>
  The pool of journeys: \<open>launched\<close> counts the rounds of the first loop, \<open>inJourney\<close> the
  goroutines inside \<open>factory\<close> or \<open>Start\<close>, \<open>notifyingFinish\<close> those about to send on
  \<open>finishNotification\<close>, whose buffer holds \<open>finishCh\<close> values.
\<close>

record Pool =
  launched :: nat
  inJourney :: nat
  notifyingFinish :: nat
  finishCh :: nat
  poolReturned :: bool

datatype PoolAction = Launch | JourneyEnds | NotifyFinish | Restart | PoolCtxDone

text \<open>\<open>make(chan struct\{\}, concurrencyLevel)\<close> panics for a negative size.\<close>

definition runJourneys_init :: "int \<Rightarrow> Pool res" where
  "runJourneys_init concurrencyLevel =
     (if concurrencyLevel < 0 then Panics ''makechan: size out of range''
      else Ret \<lparr>launched = 0, inJourney = 0, notifyingFinish = 0, finishCh = 0, poolReturned = False\<rparr>)"

text \<open>One atomic step of one of the goroutines; \<open>None\<close>: it cannot be taken now.\<close>

fun poolStep :: "nat \<Rightarrow> PoolAction \<Rightarrow> Pool \<Rightarrow> Pool option" where
  "poolStep level Launch p =
     (if launched p < level then Some (p\<lparr>launched := Suc (launched p), inJourney := Suc (inJourney p)\<rparr>) else None)"
| "poolStep level JourneyEnds p =
     (if 0 < inJourney p then Some (p\<lparr>inJourney := inJourney p - 1, notifyingFinish := Suc (notifyingFinish p)\<rparr>) else None)"
| "poolStep level NotifyFinish p =
     (if 0 < notifyingFinish p \<and> finishCh p < level
      then Some (p\<lparr>notifyingFinish := notifyingFinish p - 1, finishCh := Suc (finishCh p)\<rparr>) else None)"
| "poolStep level Restart p =
     (if launched p = level \<and> \<not> poolReturned p \<and> 0 < finishCh p
      then Some (p\<lparr>finishCh := finishCh p - 1, inJourney := Suc (inJourney p)\<rparr>) else None)"
| "poolStep level PoolCtxDone p =
     (if launched p = level \<and> \<not> poolReturned p then Some (p\<lparr>poolReturned := True\<rparr>) else None)"

inductive poolReach :: "int \<Rightarrow> Pool \<Rightarrow> bool" for level where
  init: "runJourneys_init level = Ret p \<Longrightarrow> poolReach level p"
| step: "poolReach level p \<Longrightarrow> poolStep (nat level) a p = Some p' \<Longrightarrow> poolReach level p'"

definition poolInv :: "nat \<Rightarrow> Pool \<Rightarrow> bool" where
  "poolInv level p \<longleftrightarrow> inJourney p + notifyingFinish p + finishCh p = launched p \<and> launched p \<le> level"

lemma poolStep_inv: "poolInv level p \<Longrightarrow> poolStep level a p = Some p' \<Longrightarrow> poolInv level p'"
  by (cases a) (auto simp: poolInv_def split: if_splits)

lemma poolReach_inv: "poolReach level p \<Longrightarrow> poolInv (nat level) p"
proof (induction rule: poolReach.induct)
  case (init p)
  then show ?case by (auto simp: runJourneys_init_def poolInv_def split: if_splits)
qed (rule poolStep_inv)

subsection \<open>main\<close>

text \<open>
  What \<open>main\<close> calls, in its order, once the configuration is loaded. A failure of a startup step is
  reported by \<open>exitOnError\<close>, which ends the process with \<open>os.Exit(1)\<close>: deferred functions are not
  run. A panic does run them, and \<open>started\<close> is still false then.
\<close>

record 'w MainCalls =
  initTelemetry :: "('w, unit) go"
  shutdownTelemetry :: "('w, unit) go"
  newRabbitmq :: "('w, unit) go"
  connectionClose :: "('w, unit) go"
  newRedisClient :: "('w, unit) go"
  redisClose :: "('w, unit) go"
  newClock :: "('w, unit) go"
  clockClose :: "('w, unit) go"
  startHTTPServer :: "('w, unit) go"
  shutDownHTTPServer :: "('w, unit) go"
  newTimeEventService :: "('w, unit) go"
  journeys :: "('w, unit) go"

datatype ProcessEnd = ExitStatus nat

definition exitOnError :: "('w, unit) go list \<Rightarrow> ('w, 'a) go \<Rightarrow> ('a \<Rightarrow> ('w, ProcessEnd) go) \<Rightarrow> ('w, ProcessEnd) go" where
  "exitOnError cleanup m k = (\<lambda>w. case m w of
      (Ret a, w') \<Rightarrow> k a w'
    | (Err _, w') \<Rightarrow> (Ret (ExitStatus 1), w')
    | (Panics s, w') \<Rightarrow> (Panics s, snd (runCleanup cleanup w'))
    | (Blocks, w') \<Rightarrow> (Blocks, w'))"

definition startedCleanups :: "'w MainCalls \<Rightarrow> ('w, unit) go list" where
  "startedCleanups p = [shutdownTelemetry p, connectionClose p, redisClose p, clockClose p, shutDownHTTPServer p]"

definition main :: "('w, 'c) go \<Rightarrow> ('c \<Rightarrow> 'w MainCalls) \<Rightarrow> ('w, ProcessEnd) go" where
  "main loadConfigs calls =
     exitOnError [] loadConfigs (\<lambda>configs. let p = calls configs in
     exitOnError [] (initTelemetry p) (\<lambda>_.
     exitOnError [shutdownTelemetry p] (newRabbitmq p) (\<lambda>_.
     exitOnError [shutdownTelemetry p, connectionClose p] (newRedisClient p) (\<lambda>_.
     exitOnError [shutdownTelemetry p, connectionClose p, redisClose p] (newClock p) (\<lambda>_.
     exitOnError [shutdownTelemetry p, connectionClose p, redisClose p, clockClose p] (startHTTPServer p) (\<lambda>_.
     exitOnError (startedCleanups p) (newTimeEventService p) (\<lambda>_.
     thenE (journeys p)
    (thenE (ignoreErr (runCleanup (startedCleanups p)))
      (ret (ExitStatus 0))))))))))"

subsection \<open>Readiness\<close>

text \<open>\<open>err.Error()\<close>\<close>

fun errorText :: "error \<Rightarrow> string" where
  "errorText (Errorf s) = s"
| "errorText (Wrapf s e) = s @ errorText e"
| "errorText (Joined a b) = errorText a @ [CHR 0x0A] @ errorText b"
| "errorText (Ext s) = s"
| "errorText ContextCanceled = ''context canceled''"
| "errorText ContextDeadlineExceeded = ''context deadline exceeded''"
| "errorText ErrNoSuitablePeriod = ''no suitable period found''"

definition healthzRequest :: "Service \<Rightarrow> Request" where
  "healthzRequest svc = \<lparr>rq_service = svc, rq_method = GET, rq_path = ''/healthz'', rq_query = [], rq_body = NoBody\<rparr>"

definition pingHealthz :: "'x External \<Rightarrow> Service \<Rightarrow> string \<Rightarrow> (('x, 'z) World_scheme, unit) go" where
  "pingHealthz E svc clientName =
     bindE (tryE (ext (httpDo E (healthzRequest svc)))) (\<lambda>r. case r of
        Inl e \<Rightarrow> throw (Errorf (clientName @ '' healthz ping failed; err='' @ errorText e))
      | Inr resp \<Rightarrow>
          if IsError resp
          then throw (Errorf (clientName @ '' healthz ping failed; httpCode='' @ show_nat (rs_code resp) @ ''; err='' @ rs_error resp))
          else ret ())"

text \<open>The answer of the handler: status code and body. \<open>ping\<close> is the PING of the Redis client.\<close>

definition ReadinessHandler :: "'x Amqp \<Rightarrow> ('x \<Rightarrow> unit res \<times> 'x) \<Rightarrow> 'x External \<Rightarrow> (('x, 'z) MqWorld_scheme, nat \<times> string) go" where
  "ReadinessHandler A ping E =
     bindE (IsConnectionOpen A) (\<lambda>isOpen.
       if \<not> isOpen then ret (503, ''RabbitMQ connection is not open'')
       else bindE (tryE (Redis_Ping ping)) (\<lambda>r1. case r1 of
          Inl e \<Rightarrow> ret (503, ''Redis ping failed; err='' @ errorText e)
        | Inr _ \<Rightarrow> bindE (tryE (pingHealthz E CottageManager ''CottageManager'')) (\<lambda>r2. case r2 of
            Inl e \<Rightarrow> ret (503, errorText e)
          | Inr _ \<Rightarrow> bindE (tryE (pingHealthz E GuestManager ''GuestManager'')) (\<lambda>r3. case r3 of
              Inl e \<Rightarrow> ret (503, errorText e)
            | Inr _ \<Rightarrow> ret (200, [])))))"

lemma ReadinessHandler_ok:
  "ReadinessHandler A ping E w = (Ret (200, body), w') \<longleftrightarrow> body = [] \<and>
     (\<exists>w1 w2 w3. IsConnectionOpen A w = (Ret True, w1) \<and> ext ping w1 = (Ret (), w2)
        \<and> pingHealthz E CottageManager ''CottageManager'' w2 = (Ret (), w3)
        \<and> pingHealthz E GuestManager ''GuestManager'' w3 = (Ret (), w'))"
proof -
  have opens: "bindE (IsConnectionOpen A) k w = (Ret (200, body), w') \<longleftrightarrow>
      (\<exists>w1. IsConnectionOpen A w = (Ret True, w1) \<and> k True w1 = (Ret (200, body), w'))"
    if "\<And>w1. k False w1 \<noteq> (Ret (200, body), w')" for k
    using that unfolding bindE_Ret_iff by (metis (full_types))
  show ?thesis
    unfolding ReadinessHandler_def by (subst opens) (auto simp: tryE_case_Ret_iff)
qed

end
