(* ===== verification/Frames.thy ===== *)
theory Frames
  imports Lodging
begin

text \<open>
  What a stay leaves alone (internal/app/steps/lodging\_step/run\_lodging.go): the contracts under which a
  condition on the world is kept by the blocking loops of the chat client, the waits for an
  hour, the plans of a stay and the stay as a whole.
\<close>

subsection \<open>Conditions the other goroutines keep\<close>

text \<open>A condition that every step of another goroutine keeps, and the steps of a wait for an hour on the hub.\<close>

locale loop_frame =
  fixes S :: "'x System" and P :: "'x JWorld \<Rightarrow> bool"
  assumes env: "P w \<Longrightarrow> P (envStep S a w)"
    and place: "P (w\<lparr>chat := c\<rparr>) = P w" "P (w\<lparr>sched := as\<rparr>) = P w"
    and cancelled: "keeps P (extV (ctxErr (sysE S)))"
    and spawned: "P w \<Longrightarrow> P (w\<lparr>hub := snd (spawnHourNotification hr (hub w))\<rparr>)"
    and taken: "P w \<Longrightarrow> takeNotification i (hub w) = Some (t, h) \<Longrightarrow> P (w\<lparr>hub := h\<rparr>)"
begin

lemma ctx: "P w \<Longrightarrow> ctxErr (sysE S) (w_ext w) = (e, x) \<Longrightarrow> P (w\<lparr>w_ext := x\<rparr>)"
  using cancelled by (auto simp: keeps_def extV_def)

lemma loop:
  assumes turn: "\<And>s c w. P w \<Longrightarrow> P (snd (turn s c w))"
  shows "keeps P (await S turn s)"
proof (rule keepsI)
  fix w r w'
  assume w: "P w" and run: "await S turn s w = (r, w')"
  obtain as' w2 where lp: "loopOn (envStep S) turn s (sched w) w = (r, as', w2)" and w': "w' = w2\<lparr>sched := as'\<rparr>"
    using run by (auto simp: await_def split: prod.splits)
  have "select_loop (envStep S) turn UNIV (\<lambda>_. P) (\<lambda>_. P)"
    by unfold_locales (use turn env in \<open>metis snd_conv\<close>)+
  from select_loop.outcome [OF this w _ lp] show "P w'" using w' by (auto simp: place)
qed

lemma turns: "P w \<Longrightarrow> P (snd (ctxTurn (sysE S) s w))" "P w \<Longrightarrow> P (snd (errTurn s w))"
  by (auto simp: ctxTurn_def errTurn_def place split: prod.splits option.splits list.splits intro: ctx)

lemma chat_waits: "keeps P (await S (ackTurn S mid) ())" "keeps P (WaitForNextSystemMessage S)"
proof -
  show "keeps P (await S (ackTurn S mid) ())"
    by (rule loop) (auto simp: ackTurn_def turns place Let_def split: SelectCase.splits list.splits option.splits)
  show "keeps P (WaitForNextSystemMessage S)"
    unfolding WaitForNextSystemMessage_def
    by (rule loop) (auto simp: nextTurn_def handOut_def turns place split: SelectCase.splits list.splits)
qed

lemma preempted: "keeps P (preempt S)"
proof (rule keepsI)
  fix w r w'
  assume w: "P w" and run: "preempt S w = (r, w')"
  then obtain as w2 where p: "preemptOn (envStep S) (sched w) w = (as, w2)" "w' = w2\<lparr>sched := as\<rparr>"
    by (auto simp: preempt_def split: prod.splits)
  have "P w2" using preemptOn_inv [where I = P and A = UNIV, OF env p(1) w] by simp
  then show "P w'" using p(2) by (simp add: place)
qed

lemma hour_wait: "keeps P (waitUntil S target)"
proof -
  have spawn: "keeps P (\<lambda>w. let p = spawnHourNotification hr (hub w) in (Ret (fst p), w\<lparr>hub := snd p\<rparr>))" for hr
    by (auto simp: keeps_def Let_def spawned)
  have await: "keeps P (await S (untilTurn S i target) ())" for i
    by (rule loop) (auto simp: untilTurn_def turns split: SelectCase.splits option.splits intro: taken)
  show ?thesis unfolding waitUntil_def case_prod_beta by (intro go_keeps spawn preempted await)
qed

end

text \<open>A condition that looks neither at the bus, the hub, the chat nor the schedule, and that acknowledging a message keeps.\<close>

locale env_frame =
  fixes S :: "'x System" and P :: "'x JWorld \<Rightarrow> bool"
  assumes parts: "P (w\<lparr>bus := b\<rparr>) = P w" "P (w\<lparr>hub := h\<rparr>) = P w" "P (w\<lparr>chat := c\<rparr>) = P w" "P (w\<lparr>sched := as\<rparr>) = P w"
    and asked: "keeps P (extV (ctxErr (sysE S)))"
    and ack: "keeps P (sendAck (sysN S) msg)"
begin

lemma done_seen: "P w \<Longrightarrow> ctxErr (sysE S) (w_ext w) = (e, x) \<Longrightarrow> P (w\<lparr>w_ext := x\<rparr>)"
  using asked by (auto simp: keeps_def extV_def)

lemma silent: "P w \<Longrightarrow> P (envStep S a w)"
proof (cases a)
  case (ReadFrame f)
  assume w: "P w"
  obtain c m where f: "readFrame (sysN S) f (chat w) = (c, m)" by fastforce
  have "P (snd (sendAck (sysN S) msg (w\<lparr>chat := c\<rparr>)))" for msg using ack w parts(3) unfolding keeps_def by blast
  then show ?thesis using w ReadFrame f by (auto simp: Let_def parts split: option.splits)
qed (auto simp: whenCancelled_def parts split: prod.splits option.splits intro: done_seen)

end

sublocale env_frame \<subseteq> loop_frame S P
  by unfold_locales (simp_all add: silent parts asked)

subsection \<open>Conditions a stay keeps\<close>

lemma keeps_forMessages:
  assumes "keeps P (WaitForNextSystemMessage S)" and "\<And>msg. keeps P (handle msg)"
  shows "keeps P (forMessages S handle)"
proof -
  have "keeps P (repeatMsg S n handle)" for n
  proof (induction n)
    case 0
    show ?case unfolding repeatMsg.simps by (intro go_keeps)
  next
    case (Suc n)
    show ?case unfolding repeatMsg.simps by (intro go_keeps assms Suc)
  qed
  then show ?thesis by (auto simp: keeps_def forMessages_def simp del: repeatMsg.simps)
qed

locale stay_frame =
  fixes S :: "'x System" and P :: "'x JWorld \<Rightarrow> bool"
  assumes waits: "keeps P (await S (ackTurn S mid) ())" "keeps P (WaitForNextSystemMessage S)" "keeps P (waitUntil S target)"
    and send: "keeps P (chatWrite (sysN S) msg)"
    and calls: "keeps P (extV (uuidNewString (sysN S)))" "keeps P (ext (wsDial (sysN S) url))" "keeps P (ext (wsClose (sysN S)))"
      "keeps P (ext (redisGet (sysE S) k))" "keeps P (extV (ctxErr (sysE S)))"
    and ensure: "keeps P EnsureKey"
    and client: "P (w\<lparr>chat := c\<rparr>) = P w"
    and ended: "P w \<Longrightarrow> P (w\<lparr>hub := cancelNotifiers (hub w)\<rparr>)"
begin

lemma actions: "keeps P (SendAction S a)" "keeps P (Reply S q resp)"
  unfolding SendAction_def Reply_def sendAndWaitAck_def by (intro go_keeps calls send waits)+

lemma expect: "keeps P (expectNotification S n)" "keeps P (expectRequest S q)" "keeps P (awaitNotification S g)"
  "keeps P (finishCheckin S fl guest b)"
  unfolding expectNotification_def expectRequest_def awaitNotification_def finishCheckin_def checkinTurn_def
  by (intro go_keeps keeps_forMessages waits actions)+

lemma gate: "keeps P (waitForActionGate S p st)"
  unfolding waitForActionGate_def by (intro go_keeps waits expect)

lemma plan: "keeps P (executeActionPlan S p plan)" "keeps P (executeCheckoutSteps S k p plan)"
  by (induction plan) (auto intro!: go_keeps gate actions expect)

lemma arrival: "keeps P (lodgingContext S C)" "keeps P (NewClient S url)"
  unfolding lodgingContext_def onCache_def Load_def Get_def NewClient_def
  by (intro go_keeps) (auto simp: client intro!: go_keeps calls ensure)

lemma close_after:
  assumes "keeps P m"
  shows "keeps P (closing S m)"
proof -
  have "keeps P (CloseClient S)" unfolding CloseClient_def by (rule calls)
  then show ?thesis using assms by (auto simp: keeps_def closing_def split: prod.splits res.splits)
qed

lemma stay: "keeps P (RunLodgingStayFlow S step url C)"
proof -
  have execute: "keeps P (RunLodgingStep_Execute S url fl C)" for fl
    unfolding RunLodgingStep_Execute_def executeCheckoutPlan_def case_prod_beta
    by (intro go_keeps close_after arrival calls plan expect actions)
  have validate: "keeps P (RunLodgingStep_Validate a n url fl C)" for a n fl
    unfolding RunLodgingStep_Validate_def by (intro go_keeps)
  have cancel: "keeps P (cancelling m)" if "keeps P m" for m :: "('x JWorld, unit) go"
    using that by (auto simp: keeps_def cancelling_def ended split: prod.splits res.splits)
  show ?thesis
    unfolding RunLodgingStayFlow_def runStepGraph_def noopStep_Execute_def One_nat_def stepLoop.simps option.case
    by (intro go_keeps cancel calls validate execute)
qed

end

end
