(* ===== verification/Staying.thy ===== *)
theory Staying
  imports Frames
begin

text \<open>
  The stay as a whole (internal/app/steps/lodging\_step/run\_lodging.go): what a completed
  stay has waited for. Every time the hub can hold comes from a set \<open>T\<close>, whatever the
  goroutines do; a plan that is carried out has found, for each of its gates, a time of
  \<open>T\<close> that is not before the gate.
\<close>

subsection \<open>The course of a stay\<close>

text \<open>The calls of a stay that is carried out, in their order.\<close>

lemma stay_run:
  assumes "RunLodgingStep_Execute S url fl C w = (Ret (), w')"
  obtains g b p k msg w1 w2 v0 v1 v2 v3 v4 v5 v6 w3 where
    "lodgingContext S C w = (Ret (g, b, p), w1)" and "NewClient S url w1 = (Ret (), w2)"
    and "extV (uuidNewString (sysN S)) w2 = (Ret k, v0)"
    and "executeActionPlan S p (expandPlan 0 (ShowUp (Checkin fl))) v0 = (Ret (), v1)"
    and "finishCheckin S fl g b v1 = (Ret (), v2)" and "expectRequest S GIVE_COTTAGE_KEY v2 = (Ret msg, v3)"
    and "Reply S (Some msg) (ReceiveCottageKey k) v3 = (Ret (), v4)" and "SendAction S TAKE_COTTAGE_KEY v4 = (Ret (), v5)"
    and "executeActionPlan S p (buildStayActionPlan fl p) v5 = (Ret (), v6)"
    and "executeCheckoutSteps S k p (buildCheckoutActionPlan fl p) v6 = (Ret (), w3)"
    and "w' = snd (CloseClient S w3)"
proof -
  have closed: "\<exists>v. m x = (Ret u, v) \<and> y = snd (CloseClient S v)" if "closing S m x = (Ret u, y)" for m :: "('a JWorld, unit) go" and x y u
    using that by (auto simp: closing_def split: prod.splits res.splits)
  from assms obtain g b p w1 w2 w3 where ctx: "lodgingContext S C w = (Ret (g, b, p), w1)" and dial: "NewClient S url w1 = (Ret (), w2)"
    and out: "w' = snd (CloseClient S w3)"
    and body: "bindE (extV (uuidNewString (sysN S))) (\<lambda>keyID.
       thenE (executeActionPlan S p (expandPlan 0 (ShowUp (Checkin fl))))
      (thenE (finishCheckin S fl g b)
      (bindE (expectRequest S GIVE_COTTAGE_KEY) (\<lambda>msg.
       thenE (Reply S (Some msg) (ReceiveCottageKey keyID))
      (thenE (SendAction S TAKE_COTTAGE_KEY)
      (thenE (executeActionPlan S p (buildStayActionPlan fl p))
        (executeCheckoutPlan S fl keyID p))))))) w2 = (Ret (), w3)"
    by (auto simp: RunLodgingStep_Execute_def bindE_Ret_iff [of "lodgingContext S C"] thenE_Ret_iff [of "NewClient S url"] dest!: closed)
  show thesis
    using body by (auto simp: bindE_Ret_iff thenE_Ret_iff executeCheckoutPlan_def intro: that [OF ctx dial _ _ _ _ _ _ _ _ out])
qed

subsection \<open>Times\<close>

definition clockIn :: "'x System \<Rightarrow> Time set \<Rightarrow> 'x JWorld \<Rightarrow> bool" where
  "clockIn S T w \<longleftrightarrow> timesIn T (hub w) \<and> {a. Env a \<in> set (sched w)} \<subseteq> reports S T"

lemma clockIn_start: "clockIn S (hubTimes (hub w) \<union> eventTimes S (sched w)) w"
  by (auto simp: clockIn_def reports_def eventTimes_def intro!: timesIn_hubTimes)

lemma clockIn_times: "clockIn S T w \<Longrightarrow> hubTimes (hub w) \<union> eventTimes S (sched w) \<subseteq> T"
  by (auto simp: clockIn_def timesIn_def hubTimes_def eventTimes_def reports_def)

lemma clockIn_outside [go_keeps]:
  "keeps (clockIn S T) (ext f)" "keeps (clockIn S T) (extV g)"
  by (auto simp: keeps_def ext_def extV_def clockIn_def split: prod.splits)

lemma clockIn_chatWrite [go_keeps]: "keeps (clockIn S T) (chatWrite N msg)"
  unfolding chatWrite_def by (intro go_keeps)

text \<open>A blocking loop whose turns leave the hub alone, or take from it.\<close>

lemma clockIn_cong: "hub w' = hub w \<Longrightarrow> sched w' = sched w \<Longrightarrow> clockIn S T w' = clockIn S T w"
  by (simp add: clockIn_def)

lemma clockIn_await:
  assumes turn: "\<And>s c w. clockIn S T w \<Longrightarrow> clockIn S T (snd (turn s c w))"
  shows "keeps (clockIn S T) (await S turn s)"
proof (rule keepsI)
  fix w r w'
  assume w: "clockIn S T w" and run: "await S turn s w = (r, w')"
  obtain as' w2 where lp: "loopOn (envStep S) turn s (sched w) w = (r, as', w2)" and w': "w' = w2\<lparr>sched := as'\<rparr>"
    using run by (auto simp: await_def split: prod.splits)
  have env: "clockIn S T (envStep S a v)" if "clockIn S T v" "a \<in> reports S T" for a v
    using that by (auto simp: clockIn_def intro!: timesIn_env)
  have "select_loop (envStep S) turn (reports S T) (\<lambda>_. clockIn S T) (\<lambda>_. clockIn S T)"
    by unfold_locales (use turn env in \<open>metis snd_conv\<close>)+
  from select_loop.outcome [OF this _ _ lp] w have "timesIn T (hub w2)" by (auto simp: clockIn_def)
  then show "clockIn S T w'" using w w' loopOn_suffix [OF lp] by (auto simp: clockIn_def)
qed

lemma clockIn_waits:
  "keeps (clockIn S T) (await S (ackTurn S mid) ())" "keeps (clockIn S T) (WaitForNextSystemMessage S)"
proof -
  have ctx: "clockIn S T (snd (ctxTurn E s w)) = clockIn S T w" and err: "clockIn S T (snd (errTurn s w)) = clockIn S T w"
    for E s and w :: "'a JWorld"
    by (auto simp: ctxTurn_def errTurn_def clockIn_def split: prod.splits option.splits list.splits)
  note turns = ctx err clockIn_cong [of "_\<lparr>chat := _\<rparr>"]
  show "keeps (clockIn S T) (await S (ackTurn S mid) ())"
    by (intro clockIn_await) (auto simp: ackTurn_def turns Let_def split: SelectCase.splits list.splits option.splits)
  show "keeps (clockIn S T) (WaitForNextSystemMessage S)"
    unfolding WaitForNextSystemMessage_def
    by (intro clockIn_await) (auto simp: nextTurn_def handOut_def turns split: SelectCase.splits list.splits)
qed

lemma clockIn_preempt: "keeps (clockIn S T) (preempt S)"
proof (rule keepsI)
  fix w r w'
  assume "clockIn S T w" and "preempt S w = (r, w')"
  then obtain as w2 where w: "timesIn T (hub w)" "{a. Env a \<in> set (sched w)} \<subseteq> reports S T"
    and p: "preemptOn (envStep S) (sched w) w = (as, w2)" "w' = w2\<lparr>sched := as\<rparr>"
    by (auto simp: clockIn_def preempt_def split: prod.splits)
  from preemptOn_inv [where I = "\<lambda>w. timesIn T (hub w)" and A = "reports S T", OF timesIn_env p(1) w] p(2) w(2)
  show "clockIn S T w'" by (auto simp: clockIn_def)
qed

lemma clockIn_waitUntil: "keeps (clockIn S T) (waitUntil S target)"
proof -
  have spawn: "keeps (clockIn S T) (\<lambda>w. let p = spawnHourNotification hr (hub w) in (Ret (fst p), w\<lparr>hub := snd p\<rparr>))" for hr
    using timesIn_journeys(1) by (auto simp: keeps_def clockIn_def Let_def)
  have await: "keeps (clockIn S T) (await S (untilTurn S i target) ())" for i
  proof (rule clockIn_await)
    fix s c v
    assume v: "clockIn S T v"
    have "sched (snd (untilTurn S i target s c v)) = sched v"
      by (auto simp: untilTurn_def ctxTurn_def split: SelectCase.splits option.splits prod.splits)
    with v show "clockIn S T (snd (untilTurn S i target s c v))"
      using untilTurn_result [of T v S i target s c] by (metis clockIn_def prod.collapse)
  qed
  show ?thesis unfolding waitUntil_def case_prod_beta by (intro go_keeps spawn clockIn_preempt await)
qed

lemma clockIn_EnsureKey [go_keeps]: "keeps (clockIn S T) EnsureKey"
  by (auto intro!: keepsI dest!: EnsureKey_world simp: clockIn_def)

interpretation clockStay: stay_frame S "clockIn S T" for S T
  by unfold_locales
    (auto simp: clockIn_cong [of "_\<lparr>chat := _\<rparr>"] intro!: go_keeps clockIn_waits clockIn_waitUntil, auto simp: clockIn_def timesIn_journeys)

text \<open>The gate of a step that was carried out: some time of \<open>T\<close> is not before its hour.\<close>

definition gateOpen :: "Time set \<Rightarrow> Period \<Rightarrow> actionPlanStep \<Rightarrow> bool" where
  "gateOpen T p st \<longleftrightarrow> (HasNotBeforeHour (gate st) \<longrightarrow> (\<exists>t \<in> T. ns (gateTarget p st) \<le> ns t))"

lemma waitForActionGate_open:
  assumes "clockIn S T w" and "waitForActionGate S p st w = (Ret m, w')"
  shows "gateOpen T p st"
proof (cases "HasNotBeforeHour (gate st)")
  case True
  with assms(2) obtain w1 where "waitUntil S (gateTarget p st) w = (Ret (), w1)"
    by (auto simp: waitForActionGate_def thenE_Ret_iff)
  from waitUntil_not_early [OF this] clockIn_times [OF assms(1)] show ?thesis unfolding gateOpen_def by blast
qed (simp add: gateOpen_def)

lemma executeActionPlan_gates:
  assumes "clockIn S T w" and "executeActionPlan S p plan w = (Ret (), w')"
  shows "(\<forall>st \<in> set plan. gateOpen T p st) \<and> clockIn S T w'"
  using assms
proof (induction plan arbitrary: w)
  case (Cons st plan)
  from Cons.prems(2) obtain m w1 w2 w3 where
    run: "waitForActionGate S p st w = (Ret m, w1)" "SendAction S (planAction st) w1 = (Ret (), w2)"
      "awaitNotification S (gate st) w2 = (Ret (), w3)" "executeActionPlan S p plan w3 = (Ret (), w')"
    by (auto simp: thenE_Ret_iff)
  have "clockIn S T w3"
    using Cons.prems(1) run keepsD [OF clockStay.gate] keepsD [OF clockStay.actions(1)] keepsD [OF clockStay.expect(3)] by blast
  with Cons.IH [OF this run(4)] waitForActionGate_open [OF Cons.prems(1) run(1)] show ?case by simp
qed simp

lemma executeCheckoutSteps_gates:
  assumes "clockIn S T w" and "executeCheckoutSteps S k p plan w = (Ret (), w')"
  shows "(\<forall>st \<in> set plan. gateOpen T p st) \<and> clockIn S T w'"
  using assms
proof (induction plan arbitrary: w)
  case (Cons st plan)
  let ?key = "\<lambda>m. if gate_SystemRequest (gate st) = REQUEST_COTTAGE_KEY then Reply S m (guestResponseReturnCottageKey k) else ret ()"
  from Cons.prems(2) obtain m w1 w2 w3 w4 where
    run: "waitForActionGate S p st w = (Ret m, w1)" "?key m w1 = (Ret (), w2)" "SendAction S (planAction st) w2 = (Ret (), w3)"
      "awaitNotification S (gate st) w3 = (Ret (), w4)" "executeCheckoutSteps S k p plan w4 = (Ret (), w')"
    by (auto simp: thenE_Ret_iff bindE_Ret_iff)
  have key: "keeps (clockIn S T) (?key m)" by (intro go_keeps clockStay.actions)
  have "clockIn S T w2" by (rule keepsD [OF key keepsD [OF clockStay.gate Cons.prems(1) run(1)] run(2)])
  then have "clockIn S T w4"
    using run(3,4) keepsD [OF clockStay.actions(1)] keepsD [OF clockStay.expect(3)] by blast
  with Cons.IH [OF this run(5)] waitForActionGate_open [OF Cons.prems(1) run(1)] show ?case by simp
qed simp

text \<open>A stay that is carried out has been through the gates of its whole plan.\<close>

lemma stay_gates:
  assumes start: "clockIn S T w"
    and run: "RunLodgingStep_Execute S url DefaultLodgingFlow C w = (Ret (), w')"
  shows "\<exists>g b p w1. lodgingContext S C w = (Ret (g, b, p), w1) \<and> (\<forall>st \<in> set (fullPlan p). gateOpen T p st)"
proof -
  from run obtain g b p k msg w1 w2 v0 v1 v2 v3 v4 v5 v6 w3 where
    ctx: "lodgingContext S C w = (Ret (g, b, p), w1)" and dial: "NewClient S url w1 = (Ret (), w2)"
    and uuid: "extV (uuidNewString (sysN S)) w2 = (Ret k, v0)"
    and show_up: "executeActionPlan S p (expandPlan 0 (ShowUp (Checkin DefaultLodgingFlow))) v0 = (Ret (), v1)"
    and mid: "finishCheckin S DefaultLodgingFlow g b v1 = (Ret (), v2)" "expectRequest S GIVE_COTTAGE_KEY v2 = (Ret msg, v3)"
      "Reply S (Some msg) (ReceiveCottageKey k) v3 = (Ret (), v4)" "SendAction S TAKE_COTTAGE_KEY v4 = (Ret (), v5)"
    and stay: "executeActionPlan S p (buildStayActionPlan DefaultLodgingFlow p) v5 = (Ret (), v6)"
    and out: "executeCheckoutSteps S k p (buildCheckoutActionPlan DefaultLodgingFlow p) v6 = (Ret (), w3)"
    by (rule stay_run)
  have "clockIn S T v0"
    using start keepsD [OF clockStay.arrival(1) _ ctx] keepsD [OF clockStay.arrival(2) _ dial] keepsD [OF clockIn_outside(2) _ uuid] by blast
  from executeActionPlan_gates [OF this show_up] have first: "\<forall>st \<in> set (expandPlan 0 (ShowUp (Checkin DefaultLodgingFlow))). gateOpen T p st"
    and "clockIn S T v1" by auto
  then have "clockIn S T v5"
    using keepsD [OF clockStay.expect(4) _ mid(1)] keepsD [OF clockStay.expect(2) _ mid(2)] keepsD [OF clockStay.actions(2) _ mid(3)]
      keepsD [OF clockStay.actions(1) _ mid(4)] by blast
  from executeActionPlan_gates [OF this stay] have second: "\<forall>st \<in> set (buildStayActionPlan DefaultLodgingFlow p). gateOpen T p st"
    and v6: "clockIn S T v6" by auto
  from executeCheckoutSteps_gates [OF v6 out] first second ctx show ?thesis by (auto simp: fullPlan_def)
qed

end
