(* ===== verification/Wire.thy ===== *)
theory Wire
  imports Staying
begin

text \<open>
  The stay on the wire: the frames a guest writes to the chat connection
  (internal/infra/websocket/lodging\_chat.go) during a stay
  (internal/app/steps/lodging\_step/run\_lodging.go). The frames written so far are an
  abstraction of the state of the outside; the contract of the network says what each
  operation does to it. A stay that is carried out has said its script, in order and
  nothing else, whatever the other goroutines do in between.
\<close>

subsection \<open>What is sent\<close>

text \<open>
  \<open>spokenOf\<close>: the actions of the guest and its dealings with the key are of interest;
  acknowledgements and the answers of the check-in come when the system asks.
\<close>

fun spokenOf :: "Payload \<Rightarrow> Payload list" where
  "spokenOf (P_GuestAction a) = [P_GuestAction a]"
| "spokenOf (P_GuestResponse (ReceiveCottageKey k)) = [P_GuestResponse (ReceiveCottageKey k)]"
| "spokenOf (P_GuestResponse (ReturnCottageKey k)) = [P_GuestResponse (ReturnCottageKey k)]"
| "spokenOf _ = []"

definition spoken :: "(string \<Rightarrow> Payload option) \<Rightarrow> string list \<Rightarrow> Payload list" where
  "spoken payloadOf fs = concat (map (\<lambda>f. case payloadOf f of None \<Rightarrow> [] | Some p \<Rightarrow> spokenOf p) fs)"

lemma spoken_append [simp]: "spoken payloadOf (xs @ ys) = spoken payloadOf xs @ spoken payloadOf ys"
  by (simp add: spoken_def)

lemma spoken_one: "payloadOf f = Some p \<Longrightarrow> spoken payloadOf [f] = spokenOf p"
  by (simp add: spoken_def)

text \<open>
  The contract of the network: \<open>frames\<close> are the text frames written so far, \<open>payloadOf\<close> is
  the payload the other side reads from one. A write that returns has appended its frame, one that
  fails may have; nothing else that happens during a stay writes frames.
\<close>

definition wireLaws :: "'x System \<Rightarrow> ('x \<Rightarrow> string list) \<Rightarrow> (string \<Rightarrow> Payload option) \<Rightarrow> bool" where
  "wireLaws S frames payloadOf \<longleftrightarrow>
     (\<forall>m f. protojsonMarshal (sysN S) m = Some f \<longrightarrow> payloadOf f = Some (cm_Payload m))
   \<and> (\<forall>f x x'. wsWriteMessage (sysN S) f x = (Ret (), x') \<longrightarrow> frames x' = frames x @ [f])
   \<and> (\<forall>f x. frames (snd (wsWriteMessage (sysN S) f x)) \<in> {frames x, frames x @ [f]})
   \<and> (\<forall>u x. frames (snd (wsDial (sysN S) u x)) = frames x) \<and> (\<forall>x. frames (snd (wsSetWriteDeadline (sysN S) x)) = frames x)
   \<and> (\<forall>x. frames (snd (wsClose (sysN S) x)) = frames x) \<and> (\<forall>x. frames (snd (uuidNewString (sysN S) x)) = frames x)
   \<and> (\<forall>x. frames (snd (traceInject (sysN S) x)) = frames x) \<and> (\<forall>x. frames (snd (ctxErr (sysE S) x)) = frames x)
   \<and> (\<forall>k x. frames (snd (redisGet (sysE S) k x)) = frames x)"

definition spokenIs :: "('x \<Rightarrow> string list) \<Rightarrow> (string \<Rightarrow> Payload option) \<Rightarrow> Payload list \<Rightarrow> ('x, 'z) World_scheme \<Rightarrow> bool" where
  "spokenIs frames payloadOf L w \<longleftrightarrow> spoken payloadOf (frames (w_ext w)) = L"

lemma spokenIs_frame [simp]:
  "spokenIs frames payloadOf L (w\<lparr>chat := c\<rparr>) = spokenIs frames payloadOf L w"
  "spokenIs frames payloadOf L (w\<lparr>hub := h\<rparr>) = spokenIs frames payloadOf L w"
  "spokenIs frames payloadOf L (w\<lparr>bus := b\<rparr>) = spokenIs frames payloadOf L w"
  "spokenIs frames payloadOf L (w\<lparr>sched := as\<rparr>) = spokenIs frames payloadOf L w"
  by (simp_all add: spokenIs_def)

locale wire =
  fixes S :: "'x System" and frames :: "'x \<Rightarrow> string list" and payloadOf :: "string \<Rightarrow> Payload option"
  assumes wire: "wireLaws S frames payloadOf"
begin

lemma quiet [go_keeps]:
  "keeps (spokenIs frames payloadOf L) (extV (uuidNewString (sysN S)))"
  "keeps (spokenIs frames payloadOf L) (extV (traceInject (sysN S)))"
  "keeps (spokenIs frames payloadOf L) (ext (wsSetWriteDeadline (sysN S)))"
  "keeps (spokenIs frames payloadOf L) (ext (wsDial (sysN S) url))"
  "keeps (spokenIs frames payloadOf L) (ext (wsClose (sysN S)))"
  "keeps (spokenIs frames payloadOf L) (ext (redisGet (sysE S) k))"
  "keeps (spokenIs frames payloadOf L) (extV (ctxErr (sysE S)))"
  using wire by (auto simp: keeps_def ext_def extV_def spokenIs_def wireLaws_def split: prod.splits) (metis snd_conv)+

text \<open>A written message is spoken once; one without interest is not heard, whether or not the write succeeds.\<close>

lemma write_spoken:
  assumes "spokenIs frames payloadOf L w" and "chatWrite (sysN S) msg w = (r, w')"
  shows "if r = Ret () then spokenIs frames payloadOf (L @ spokenOf (cm_Payload msg)) w'
    else spokenIs frames payloadOf L w' \<or> spokenIs frames payloadOf (L @ spokenOf (cm_Payload msg)) w'"
proof -
  obtain tr w1 where tr: "extV (traceInject (sysN S)) w = (Ret tr, w1)"
    by (cases "traceInject (sysN S) (w_ext w)") (auto simp: extV_def)
  then have w1: "spokenIs frames payloadOf L w1" using assms(1) quiet(2) by (blast dest: keepsD)
  show ?thesis
  proof (cases "protojsonMarshal (sysN S) (msg\<lparr>cm_TraceContext := tr\<rparr>)")
    case None
    then show ?thesis using assms(2) w1 by (auto simp: chatWrite_def bindE_run(1) [where m = "extV (traceInject (sysN S))", OF tr])
  next
    case (Some f)
    then have pay: "payloadOf f = Some (cm_Payload msg)" using wire by (auto simp: wireLaws_def)
    obtain r2 w2 where dl: "ext (wsSetWriteDeadline (sysN S)) w1 = (r2, w2)" by fastforce
    then have w2: "spokenIs frames payloadOf L w2" using w1 quiet(3) by (blast dest: keepsD)
    show ?thesis
    proof (cases "r2 = Ret ()")
      case True
      then have run: "ext (wsWriteMessage (sysN S) f) w2 = (r, w')"
        using assms(2) Some dl by (simp add: chatWrite_def bindE_run(1) [where m = "extV (traceInject (sysN S))", OF tr] thenE_run)
      then obtain x where x: "wsWriteMessage (sysN S) f (w_ext w2) = (r, x)" "w' = w2\<lparr>w_ext := x\<rparr>" by (auto simp: ext_Ret_iff)
      have "frames x \<in> {frames (w_ext w2), frames (w_ext w2) @ [f]}" "r = Ret () \<longrightarrow> frames x = frames (w_ext w2) @ [f]"
        using wire x(1) unfolding wireLaws_def by (metis snd_conv)+
      then show ?thesis using w2 x(2) by (auto simp: spokenIs_def spoken_one [of payloadOf f, OF pay])
    next
      case False
      then have "r \<noteq> Ret () \<and> w' = w2"
        using assms(2) Some dl by (cases r2) (auto simp: chatWrite_def bindE_def thenE_def tr)
      then show ?thesis using w2 by simp
    qed
  qed
qed

lemma quiet_write [go_keeps]:
  "spokenOf (cm_Payload msg) = [] \<Longrightarrow> keeps (spokenIs frames payloadOf L) (chatWrite (sysN S) msg)"
  using write_spoken by (fastforce intro!: keepsI split: if_splits)

lemma quiet_sendAck: "keeps (spokenIs frames payloadOf L) (sendAck (sysN S) msg)"
  unfolding sendAck_def by (intro go_keeps) (simp add: guestMessage_def)

end

text \<open>The steps of the other goroutines are not heard: the reader only acknowledges.\<close>

sublocale wire \<subseteq> others: env_frame S "spokenIs frames payloadOf L" for L
  by unfold_locales (simp_all add: quiet quiet_sendAck)

context wire
begin

lemma quiet_send [go_keeps]:
  "spokenOf (cm_Payload msg) = [] \<Longrightarrow> keeps (spokenIs frames payloadOf L) (sendAndWaitAck S msg)"
  unfolding sendAndWaitAck_def by (intro go_keeps others.chat_waits)

text \<open>A message that was acknowledged has been spoken.\<close>

lemma send_spoken:
  assumes "spokenIs frames payloadOf L w" and "sendAndWaitAck S msg w = (Ret (), w')"
  shows "spokenIs frames payloadOf (L @ spokenOf (cm_Payload msg)) w'"
proof -
  from assms(2) obtain w1 where "chatWrite (sysN S) msg w = (Ret (), w1)" "await S (ackTurn S (cm_MessageId msg)) () w1 = (Ret (), w')"
    by (auto simp: sendAndWaitAck_def thenE_Ret_iff)
  with write_spoken [OF assms(1)] others.chat_waits(1) show ?thesis by (fastforce dest: keepsD)
qed

lemma action_spoken:
  assumes "spokenIs frames payloadOf L w" and "SendAction S a w = (Ret (), w')"
  shows "spokenIs frames payloadOf (L @ [P_GuestAction a]) w'"
proof -
  from assms(2) obtain mid cid w1 w2 where ids: "extV (uuidNewString (sysN S)) w = (Ret mid, w1)"
      "extV (uuidNewString (sysN S)) w1 = (Ret cid, w2)"
    and send: "sendAndWaitAck S (guestMessage mid cid (P_GuestAction a)) w2 = (Ret (), w')"
    by (auto simp: SendAction_def bindE_Ret_iff)
  have "spokenIs frames payloadOf L w2" using assms(1) ids quiet(1) by (blast dest: keepsD)
  from send_spoken [OF this send] show ?thesis by (simp add: guestMessage_def)
qed

lemma reply_spoken:
  assumes "spokenIs frames payloadOf L w" and "Reply S q resp w = (Ret (), w')"
  shows "spokenIs frames payloadOf (L @ spokenOf (P_GuestResponse resp)) w'"
proof -
  from assms(2) obtain mid cid w1 where id: "extV (uuidNewString (sysN S)) w = (Ret mid, w1)"
    and send: "sendAndWaitAck S (guestMessage mid cid (P_GuestResponse resp)) w1 = (Ret (), w')"
    by (auto simp: Reply_def bindE_Ret_iff split: option.splits)
  have "spokenIs frames payloadOf L w1" using assms(1) id quiet(1) by (blast dest: keepsD)
  from send_spoken [OF this send] show ?thesis by (simp add: guestMessage_def)
qed

lemma quiet_reply [go_keeps]:
  "spokenOf (P_GuestResponse resp) = [] \<Longrightarrow> keeps (spokenIs frames payloadOf L) (Reply S q resp)"
  unfolding Reply_def by (intro go_keeps) (simp add: guestMessage_def)

text \<open>What only waits, or answers a question of the check-in, is not heard.\<close>

lemma quiet_messages [go_keeps]:
  "(\<And>msg. keeps (spokenIs frames payloadOf L) (handle msg)) \<Longrightarrow> keeps (spokenIs frames payloadOf L) (forMessages S handle)"
  by (intro keeps_forMessages others.chat_waits)

lemma quiet_expect [go_keeps]:
  "keeps (spokenIs frames payloadOf L) (expectNotification S n)" "keeps (spokenIs frames payloadOf L) (expectRequest S q)"
  "keeps (spokenIs frames payloadOf L) (awaitNotification S g)" "keeps (spokenIs frames payloadOf L) (finishCheckin S fl guest b)"
  unfolding expectNotification_def expectRequest_def awaitNotification_def finishCheckin_def checkinTurn_def
  by (intro go_keeps; simp)+

lemma quiet_gate [go_keeps]: "keeps (spokenIs frames payloadOf L) (waitForActionGate S p st)"
  unfolding waitForActionGate_def by (intro go_keeps others.hour_wait)

text \<open>A plan that was carried out has spoken its actions in order; at check-out the key is returned before the action that says so.\<close>

lemma plan_spoken:
  assumes "spokenIs frames payloadOf L w" and "executeActionPlan S p plan w = (Ret (), w')"
  shows "spokenIs frames payloadOf (L @ map (P_GuestAction \<circ> planAction) plan) w'"
  using assms
proof (induction plan arbitrary: w L)
  case (Cons st plan)
  from Cons.prems(2) obtain m w1 w2 w3 where
    run: "waitForActionGate S p st w = (Ret m, w1)" "SendAction S (planAction st) w1 = (Ret (), w2)"
      "awaitNotification S (gate st) w2 = (Ret (), w3)" "executeActionPlan S p plan w3 = (Ret (), w')"
    by (auto simp: thenE_Ret_iff)
  have "spokenIs frames payloadOf (L @ [P_GuestAction (planAction st)]) w3"
    using action_spoken [OF keepsD [OF quiet_gate Cons.prems(1) run(1)] run(2)] run(3) quiet_expect(3) by (blast dest: keepsD)
  from Cons.IH [OF this run(4)] show ?case by simp
qed simp

end

fun checkoutSpeech :: "string \<Rightarrow> actionPlanStep list \<Rightarrow> Payload list" where
  "checkoutSpeech k [] = []"
| "checkoutSpeech k (st # plan) =
     (if gate_SystemRequest (gate st) = REQUEST_COTTAGE_KEY then [P_GuestResponse (ReturnCottageKey k)] else [])
     @ [P_GuestAction (planAction st)] @ checkoutSpeech k plan"

context wire
begin

lemma checkout_spoken:
  assumes "spokenIs frames payloadOf L w" and "executeCheckoutSteps S k p plan w = (Ret (), w')"
  shows "spokenIs frames payloadOf (L @ checkoutSpeech k plan) w'"
  using assms
proof (induction plan arbitrary: w L)
  case (Cons st plan)
  let ?key = "\<lambda>m. if gate_SystemRequest (gate st) = REQUEST_COTTAGE_KEY then Reply S m (guestResponseReturnCottageKey k) else ret ()"
  let ?said = "if gate_SystemRequest (gate st) = REQUEST_COTTAGE_KEY then [P_GuestResponse (ReturnCottageKey k)] else []"
  from Cons.prems(2) obtain m w1 w2 w3 w4 where
    run: "waitForActionGate S p st w = (Ret m, w1)" "?key m w1 = (Ret (), w2)" "SendAction S (planAction st) w2 = (Ret (), w3)"
      "awaitNotification S (gate st) w3 = (Ret (), w4)" "executeCheckoutSteps S k p plan w4 = (Ret (), w')"
    by (auto simp: thenE_Ret_iff bindE_Ret_iff)
  have "spokenIs frames payloadOf (L @ ?said) w2"
    using keepsD [OF quiet_gate Cons.prems(1) run(1)] run(2) reply_spoken [of L w1 m "ReturnCottageKey k" w2] by (auto split: if_splits)
  from action_spoken [OF this run(3)] have "spokenIs frames payloadOf ((L @ ?said) @ [P_GuestAction (planAction st)]) w4"
    using run(4) quiet_expect(3) by (blast dest: keepsD)
  from Cons.IH [OF this run(5)] show ?case by simp
qed simp

lemma quiet_EnsureKey [go_keeps]: "keeps (spokenIs frames payloadOf L) EnsureKey"
  by (auto intro!: keepsI dest!: EnsureKey_world simp: spokenIs_def)

lemma quiet_opening [go_keeps]:
  "keeps (spokenIs frames payloadOf L) (lodgingContext S C)" "keeps (spokenIs frames payloadOf L) (NewClient S url)"
  unfolding lodgingContext_def onCache_def Load_def Get_def NewClient_def by (intro go_keeps; simp)+

text \<open>The whole stay.\<close>

lemma stay_spoken:
  assumes start: "spokenIs frames payloadOf L w" and run: "RunLodgingStep_Execute S url fl C w = (Ret (), w')"
  shows "\<exists>g b p w1 k. lodgingContext S C w = (Ret (g, b, p), w1) \<and> spokenIs frames payloadOf
      (L @ map (P_GuestAction \<circ> planAction) (expandPlan 0 (ShowUp (Checkin fl)))
         @ [P_GuestResponse (ReceiveCottageKey k), P_GuestAction TAKE_COTTAGE_KEY]
         @ map (P_GuestAction \<circ> planAction) (buildStayActionPlan fl p) @ checkoutSpeech k (buildCheckoutActionPlan fl p)) w'"
proof -
  from run obtain g b p k msg w1 w2 v0 v1 v2 v3 v4 v5 v6 w3 where
    ctx: "lodgingContext S C w = (Ret (g, b, p), w1)" "NewClient S url w1 = (Ret (), w2)" "extV (uuidNewString (sysN S)) w2 = (Ret k, v0)"
    and show_up: "executeActionPlan S p (expandPlan 0 (ShowUp (Checkin fl))) v0 = (Ret (), v1)"
    and checkin: "finishCheckin S fl g b v1 = (Ret (), v2)" "expectRequest S GIVE_COTTAGE_KEY v2 = (Ret msg, v3)"
    and key: "Reply S (Some msg) (ReceiveCottageKey k) v3 = (Ret (), v4)" "SendAction S TAKE_COTTAGE_KEY v4 = (Ret (), v5)"
    and stay: "executeActionPlan S p (buildStayActionPlan fl p) v5 = (Ret (), v6)"
    and out: "executeCheckoutSteps S k p (buildCheckoutActionPlan fl p) v6 = (Ret (), w3)" and w': "w' = snd (CloseClient S w3)"
    by (rule stay_run)
  have "spokenIs frames payloadOf L v0"
    using start keepsD [OF quiet_opening(1) _ ctx(1)] keepsD [OF quiet_opening(2) _ ctx(2)] keepsD [OF quiet(1) _ ctx(3)] by blast
  note plan_spoken [OF this show_up]
  then have "spokenIs frames payloadOf (L @ map (P_GuestAction \<circ> planAction) (expandPlan 0 (ShowUp (Checkin fl)))) v3"
    using keepsD [OF quiet_expect(4) _ checkin(1)] keepsD [OF quiet_expect(2) _ checkin(2)] by blast
  note checkout_spoken [OF plan_spoken [OF action_spoken [OF reply_spoken [OF this key(1)] key(2)] stay] out]
  moreover have "keeps (spokenIs frames payloadOf M) (CloseClient S)" for M unfolding CloseClient_def by (rule quiet)
  ultimately show ?thesis using ctx(1) unfolding w' keeps_def by fastforce
qed

end

text \<open>The script of a stay: what a guest with key \<open>k\<close> says in a stay of \<open>n\<close> nights.\<close>

definition stayScript :: "string \<Rightarrow> nat \<Rightarrow> Payload list" where
  "stayScript k n =
     [P_GuestAction SHOW_FOR_CHECKIN, P_GuestResponse (ReceiveCottageKey k)]
   @ map P_GuestAction [TAKE_COTTAGE_KEY, ENTER_COTTAGE, GO_FOR_A_BATH, GO_FOR_DINNER, GO_TO_SLEEP]
   @ concat (replicate (n - 2) (map P_GuestAction [WAKEUP, GO_FOR_BREAKFAST, LEAVE_CLEANUP_NOTIFICATION, ENJOY_RESORT,
       GO_FOR_A_BATH, GO_FOR_DINNER, GO_TO_SLEEP]))
   @ map P_GuestAction [WAKEUP, LEAVE_COTTAGE, PROCEED_TO_CHECKOUT]
   @ [P_GuestResponse (ReturnCottageKey k), P_GuestAction RETURN_COTTAGE_KEY]"

lemma plan_script:
  "map (P_GuestAction \<circ> planAction) (expandPlan 0 (ShowUp (Checkin DefaultLodgingFlow)))
     @ [P_GuestResponse (ReceiveCottageKey k), P_GuestAction TAKE_COTTAGE_KEY]
     @ map (P_GuestAction \<circ> planAction) (buildStayActionPlan DefaultLodgingFlow p)
     @ checkoutSpeech k (buildCheckoutActionPlan DefaultLodgingFlow p) = stayScript k (nat (stayNights p))"
proof -
  let ?day = "map P_GuestAction [WAKEUP, GO_FOR_BREAKFAST, LEAVE_CLEANUP_NOTIFICATION, ENJOY_RESORT, GO_FOR_A_BATH, GO_FOR_DINNER, GO_TO_SLEEP]"
  have day: "map (P_GuestAction \<circ> planAction) (expandPlan d (RecurringStay DefaultLodgingFlow)) = ?day" for d
    by (simp add: expandPlan_def DefaultLodgingFlow_def)
  have "map (P_GuestAction \<circ> planAction) (concat (map (\<lambda>d. expandPlan d (RecurringStay DefaultLodgingFlow)) [2..m]))
      = concat (map (\<lambda>_. ?day) [2..m])" for m
    by (simp only: map_concat map_map) (simp only: comp_def day [unfolded comp_def])
  moreover have "concat (map (\<lambda>_. ?day) xs) = concat (replicate (length xs) ?day)" for xs :: "int list"
    by (simp add: map_replicate_const)
  moreover have "length [2..fullStayDays p] = nat (stayNights p) - 2" by (simp add: fullStayDays_def) arith
  ultimately have "map (P_GuestAction \<circ> planAction) (buildStayActionPlan DefaultLodgingFlow p) =
      map P_GuestAction [ENTER_COTTAGE, GO_FOR_A_BATH, GO_FOR_DINNER, GO_TO_SLEEP] @ concat (replicate (nat (stayNights p) - 2) ?day)"
    by (simp only: buildStayActionPlan_def map_append) (simp add: expandPlan_def DefaultLodgingFlow_def)
  then show ?thesis
    by (simp only: stayScript_def) (simp add: buildCheckoutActionPlan_def expandPlan_def DefaultLodgingFlow_def noGate_def)
qed

end
