(* ===== verification/Completion.thy ===== *)
theory Completion
  imports Staying Program
begin

text \<open>
  A journey carried out to its end (internal/app/journey/guest\_journey.go): the hour events a
  journey can see are those of its schedule, from its creation on, so a journey that
  returns without an error has been through the gates of the whole stay it booked.
\<close>

subsection \<open>The clock of a journey\<close>

lemma clockIn_rabbit:
  assumes "\<And>w0. keeps (rabbitOnly w0) m"
  shows "keeps (clockIn S T) m"
proof (rule keepsI)
  fix w r w'
  assume "clockIn S T w" and run: "m w = (r, w')"
  then show "clockIn S T w'" using rabbitOnlyD [OF assms run] by (simp add: clockIn_def)
qed

lemma clockIn_setState: "keeps (clockIn S T) (setState h)"
  by (auto simp: keeps_def setState_def clockIn_def split: option.splits)

interpretation clockFrame: journey_frame S "clockIn S T" "\<lambda>_. True" for S T
  by unfold_locales
    (auto simp: clockIn_cong [of "_\<lparr>bus := _\<rparr>"] intro!: keeps_cache clockIn_outside clockIn_setState clockIn_EnsureKey
      clockIn_rabbit [OF rabbitOnly_ops(1)] clockIn_rabbit [OF rabbitOnly_ops(2)] clockIn_rabbit [OF rabbitOnly_ops(3)]
      clockIn_rabbit [OF rabbitOnly_consumer(2)] clockIn_await clockIn_preempt)

subsection \<open>The end of a journey\<close>

lemma lodgingContext_Ret:
  assumes "redisLaws (sysE S) content" and "lodgingContext S (Some c) w = (Ret (g, b, p), w')"
  shows "\<exists>v. cached content w = Some v \<and> PersonalInfo v = Some g \<and> Booking v = Some b \<and> SelectedPeriod b = Some p"
proof -
  from assms(2) obtain v w1 where "Load (sysE S) c w = (Ret v, w1)" "PersonalInfo v = Some g" "Booking v = Some b" "SelectedPeriod b = Some p"
    by (auto simp: lodgingContext_def onCache_def bindE_def throw_def ret_def split: option.splits if_splits prod.splits res.splits)
  with Load_cached(1) [OF assms(1)] show ?thesis by blast
qed

lemma RunLodgingStayFlow_Ret:
  assumes "neverCancelled (sysE S)" and "RunLodgingStayFlow S step url C w = (Ret (), w')"
  shows "\<exists>x v. x = snd (ctxErr (sysE S) (w_ext w)) \<and> RunLodgingStep_Execute S url DefaultLodgingFlow C (w\<lparr>w_ext := x\<rparr>) = (Ret (), v)
    \<and> w' = v\<lparr>hub := cancelNotifiers (hub v)\<rparr>"
proof -
  obtain x where x: "ctxErr (sysE S) (w_ext w) = (None, x)"
    using assms(1) unfolding neverCancelled_def by (metis prod.collapse)
  have valid: "w2 = w1" if "RunLodgingStep_Validate a b url fl C w1 = (Ret (), w2)" for a b fl w1 w2
    using that by (auto simp: RunLodgingStep_Validate_def bindE_Ret_iff split: if_splits)
  from assms(2) x show ?thesis
    by (auto simp: RunLodgingStayFlow_def cancelling_Ret_iff runStepGraph_def noopStep_Execute_def thenE_Ret_iff bindE_Ret_iff extV_def
      split: if_splits dest!: valid)
qed

lemma Start_journey_Ret:
  assumes "Start_journey S G fuel w = (Ret (), w')"
  shows "\<exists>w1 w2. prepareStay S G fuel w = (Ret (), w1) \<and> RunLodgingStayFlow S True (gj_chatURL G) (Some (gj_cache G)) w1 = (Ret (), w2)
    \<and> cleanupGuestJourney S G w2 = (Ret (), w')"
proof -
  obtain r w1 where body: "journeyBody S G fuel w = (r, w1)" by fastforce
  obtain r2 w2 where clean: "cleanupGuestJourney S G w1 = (r2, w2)" by fastforce
  have "r = Ret () \<and> w1 = w'"
    using assms body clean by (cases r; cases r2) (auto simp: Start_journey_def onErrorJoin_def bindE_def tryE_def)
  with body show ?thesis by (auto simp: journeyBody_def thenE_Ret_iff)
qed

text \<open>The stay after the preparation is the one of the booking, and its whole plan was carried out.\<close>

lemma booked_period:
  assumes laws: "redisLaws (sysE S) content" and j: "journeyIs content gid (gid, Some g, Some b) w"
    and x: "x = snd (ctxErr (sysE S) (w_ext w))" and ctx: "lodgingContext S (Some c) (w\<lparr>w_ext := x\<rparr>) = (Ret (g', b', p), w1)"
  shows "SelectedPeriod b = Some p"
proof -
  have "content x = content (w_ext w)" using redisLawsD(7) [OF laws] x by (metis prod.collapse)
  then have "cached content (w\<lparr>w_ext := x\<rparr>) = cached content w" by (simp add: cached_def cong: option.case_cong)
  then show ?thesis using lodgingContext_Ret [OF laws ctx] j by (auto simp: journeyIs_def)
qed

lemma stay_of_booking:
  assumes "redisLaws (sysE S) content" and "neverCancelled (sysE S)" and "clockIn S T w"
    and j: "journeyIs content gid (gid, Some g, Some b) w"
    and run: "RunLodgingStayFlow S step url (Some c) w = (Ret (), w')"
  shows "\<exists>p. SelectedPeriod b = Some p \<and> (\<forall>st \<in> set (fullPlan p). gateOpen T p st)"
proof -
  obtain x v where x: "x = snd (ctxErr (sysE S) (w_ext w))"
    and ex: "RunLodgingStep_Execute S url DefaultLodgingFlow (Some c) (w\<lparr>w_ext := x\<rparr>) = (Ret (), v)"
    using RunLodgingStayFlow_Ret [OF assms(2) run] by blast
  have "clockIn S T (w\<lparr>w_ext := x\<rparr>)" using assms(3) by (simp add: clockIn_def)
  from stay_gates [OF this ex] booked_period [OF assms(1) j x] show ?thesis by blast
qed

text \<open>It has three nights, and the guest leaves the cottage at nine on the third day after arrival, not before.\<close>

lemma three_nights:
  assumes "foundTogether E b" and "SelectedPeriod b = Some p"
  shows "stayNights p = 3"
  using assms offeredBy_goodStay stayNights_goodStay by (fastforce simp: foundTogether_def)

lemma leaves_at_nine:
  assumes "foundTogether E b" and "SelectedPeriod b = Some p" and "\<forall>st \<in> set (fullPlan p). gateOpen T p st"
  shows "\<exists>t \<in> T. ns (Start p) + 3 * DayNs + 9 * Hour \<le> ns t"
proof -
  obtain now where good: "goodStay now p"
    using assms(1,2) offeredBy_goodStay by (fastforce simp: foundTogether_def)
  let ?st = "\<lparr>dayOffset = 3, planAction = LEAVE_COTTAGE, gate = notBefore 9\<rparr>"
  have "checkoutDayOffset p = 3" by (simp add: checkoutDayOffset_def three_nights [OF assms(1,2)])
  then have "?st \<in> set (fullPlan p)"
    by (simp add: fullPlan_def buildCheckoutActionPlan_def expandPlan_def DefaultLodgingFlow_def)
  with assms(3) obtain t where "t \<in> T" "ns (gateTarget p ?st) \<le> ns t" by (fastforce simp: gateOpen_def noGate_def)
  moreover have "ns (Start p) div DayNs * DayNs = ns (Start p)"
    using good by (simp add: goodStay_def midnight_def mod_eq_0_iff_dvd)
  ultimately show ?thesis by (auto simp: gateTarget_ns distrib_right)
qed

end
