(* ===== verification/Speech.thy ===== *)
theory Speech
  imports Wire Completion
begin

text \<open>
  What a whole journey says on the wire (internal/app/journey/guest\_journey.go). Only the stay writes to the
  chat: registration, booking, payment, the waits for messages and the cleanup leave the frames
  alone. So the frames of a journey that ends well are the script of one stay.
\<close>

text \<open>The other libraries do not write to the chat connection.\<close>

definition chatOnly :: "'x System \<Rightarrow> ('x \<Rightarrow> string list) \<Rightarrow> bool" where
  "chatOnly S frames \<longleftrightarrow>
     (\<forall>k v x. frames (snd (redisSet (sysE S) k v x)) = frames x) \<and> (\<forall>k x. frames (snd (redisDel (sysE S) k x)) = frames x)
   \<and> (\<forall>q x. frames (snd (httpDo (sysE S) q x)) = frames x) \<and> (\<forall>x. frames (snd (grpcNow (sysE S) x)) = frames x)
   \<and> (\<forall>x. frames (snd (randFloat64 (sysE S) x)) = frames x) \<and> (\<forall>n x. frames (snd (randIntn (sysE S) n x)) = frames x)
   \<and> (\<forall>x. frames (snd (fakeName (sysE S) x)) = frames x) \<and> (\<forall>x. frames (snd (fakeSSN (sysE S) x)) = frames x)
   \<and> (\<forall>x. frames (snd (fakeAddress (sysE S) x)) = frames x) \<and> amqpLaws (sysA S) frames"

lemma keeps_spoken:
  "(\<And>x. frames (snd (f x)) = frames x) \<Longrightarrow> keeps (spokenIs frames payloadOf L) (ext f)"
  "(\<And>x. frames (snd (g x)) = frames x) \<Longrightarrow> keeps (spokenIs frames payloadOf L) (extV g)"
  by (auto intro!: keepsI simp: spokenIs_def ext_Ret_iff extV_Ret_iff) (metis snd_conv)+

lemma spokenIs_state: "spokenIs frames payloadOf L (w\<lparr>w_state := st\<rparr>) = spokenIs frames payloadOf L w"
  by (simp add: spokenIs_def)

text \<open>Where the frames do not change, neither does what has been said.\<close>

lemma spoken_of_frames:
  assumes "\<And>fs. keeps (contentIs frames fs) m"
  shows "keeps (spokenIs frames payloadOf L) m"
  using keeps_on_content [OF assms, of "\<lambda>fs. spoken payloadOf fs = L"] unfolding spokenIs_def .

locale chat_only = wire +
  assumes others: "chatOnly S frames"
begin

lemma calls:
  "keeps (spokenIs frames payloadOf L) (ext (redisSet (sysE S) k v))" "keeps (spokenIs frames payloadOf L) (ext (redisDel (sysE S) k))"
  "keeps (spokenIs frames payloadOf L) (ext (httpDo (sysE S) q))" "keeps (spokenIs frames payloadOf L) (ext (clockNow (sysE S)))"
  "keeps (spokenIs frames payloadOf L) (extV (randFloat64 (sysE S)))"
  "keeps (spokenIs frames payloadOf L) (extV (randIntn (sysE S) n))" "keeps (spokenIs frames payloadOf L) (extV (fakeName (sysE S)))"
  "keeps (spokenIs frames payloadOf L) (extV (fakeSSN (sysE S)))" "keeps (spokenIs frames payloadOf L) (extV (fakeAddress (sysE S)))"
  using others wire by (auto simp: chatOnly_def wireLaws_def clockNow_outcome intro!: keeps_spoken)

lemma broker: "amqp_store (sysA S) frames"
  using others by (simp add: chatOnly_def amqp_store_def)

lemma silent_broker:
  "keeps (spokenIs frames payloadOf L) (DeclareQueue (sysA S) q)" "keeps (spokenIs frames payloadOf L) (BindQueue (sysA S) bd)"
  "keeps (spokenIs frames payloadOf L) (Consume (sysA S))" "keeps (spokenIs frames payloadOf L) (CloseChannel (sysA S))"
  by (intro spoken_of_frames amqp_store.consumer [OF broker] amqp_store.channel [OF broker])+

end

lemma spoken_setState: "keeps (spokenIs frames payloadOf L) (setState h)"
  by (auto intro!: keepsI simp: setState_def spokenIs_state split: option.splits)

sublocale chat_only \<subseteq> said: journey_frame S "spokenIs frames payloadOf L" "\<lambda>_. True" for L
  by unfold_locales
    (auto intro!: keeps_cache calls quiet quiet_EnsureKey spoken_setState others.loop others.preempted silent_broker)

context chat_only
begin

text \<open>Building a journey writes no frame either.\<close>

lemma build: "keeps (spokenIs frames payloadOf L) (buildGuestJourney S C cfg host port)"
proof -
  have "keeps (spokenIs frames payloadOf L) (NewRabbitmqConsumer (sysA S) cfg')" for cfg'
    unfolding NewRabbitmqConsumer_def
    by (intro spoken_of_frames go_keeps amqp_store.channel [OF broker] amqp_store.lib [OF broker])
  note this [go_keeps]
  show ?thesis unfolding buildGuestJourney_def by (intro go_keeps) (simp_all add: spokenIs_state)
qed

text \<open>A journey that ends well has spoken the script of the stay it booked.\<close>

lemma journey_spoken:
  assumes sys: "systemLaws S content" "amqpLaws (sysA S) content" "neverCancelled (sysE S)"
    and start: "spokenIs frames payloadOf L w"
    and run: "bindE (buildGuestJourney S C cfg host port) (\<lambda>G. Start_journey S G fuel) w = (Ret (), w')"
  shows "\<exists>k. spokenIs frames payloadOf (L @ stayScript k 3) w'"
proof -
  obtain G w1 w2 w3 where G: "buildGuestJourney S C cfg host port w = (Ret G, w1)" and prep: "prepareStay S G fuel w1 = (Ret (), w2)"
    and stay: "RunLodgingStayFlow S True (gj_chatURL G) (Some (gj_cache G)) w2 = (Ret (), w3)"
    and clean: "cleanupGuestJourney S G w3 = (Ret (), w')"
    using run Start_journey_Ret by (fastforce simp: bindE_Ret_iff)
  have "journey_world S content" using sys by unfold_locales
  from journey_world.prepared [OF this _ refl _ prep] buildGuestJourney_Ret [OF G]
  obtain gid g b where b: "foundTogether (sysE S) b" and j: "journeyIs content gid (gid, Some g, Some b) w2"
    by (auto simp: underWay_def)
  have w2: "spokenIs frames payloadOf L w2" by (rule keepsD [OF said.prepare keepsD [OF build start G] prep])
  obtain x w4 where x: "x = snd (ctxErr (sysE S) (w_ext w2))"
    and ex: "RunLodgingStep_Execute S (gj_chatURL G) DefaultLodgingFlow (Some (gj_cache G)) (w2\<lparr>w_ext := x\<rparr>) = (Ret (), w4)"
    and end_of_flow: "w3 = w4\<lparr>hub := cancelNotifiers (hub w4)\<rparr>"
    using RunLodgingStayFlow_Ret [OF sys(3) stay] by blast
  have "spokenIs frames payloadOf L (w2\<lparr>w_ext := x\<rparr>)" using w2 x others.ctx by (metis prod.collapse)
  from stay_spoken [OF this ex] obtain g' b' p v k where ctx: "lodgingContext S (Some (gj_cache G)) (w2\<lparr>w_ext := x\<rparr>) = (Ret (g', b', p), v)"
    and w4: "spokenIs frames payloadOf (L @ stayScript k (nat (stayNights p))) w4"
    unfolding plan_script by blast
  have "SelectedPeriod b = Some p" using booked_period [OF _ j x ctx] sys(1) by (simp add: systemLaws_def)
  then have "stayNights p = 3" by (rule three_nights [OF b])
  with w4 have "spokenIs frames payloadOf (L @ stayScript k 3) w3" by (simp add: end_of_flow)
  from keepsD [OF said.cleanup this clean] show ?thesis by blast
qed

end

end
