(* ===== verification/Typed.thy ===== *)
theory Typed
  imports Completion
begin

text \<open>
  The type of the store: every document a journey leaves in Redis is a journey of
  internal/domain/cache.go whose times have a JSON form, so that it can be read and written
  again. This holds after any number of steps of a journey and whatever fails.
\<close>

definition typedEntry :: "json \<Rightarrow> bool" where
  "typedEntry j = (case unmarshalCache j of None \<Rightarrow> False | Some v \<Rightarrow> cacheable v)"

definition typedStore :: "('x \<Rightarrow> string \<Rightarrow> json option) \<Rightarrow> ('x, 'z) World_scheme \<Rightarrow> bool" where
  "typedStore content w \<longleftrightarrow> (\<forall>k j. content (w_ext w) k = Some j \<longrightarrow> typedEntry j)"

lemma typed_content: "(\<And>m. keeps (contentIs content m) f) \<Longrightarrow> keeps (typedStore content) f"
  using keeps_on_content [of content f "\<lambda>m. \<forall>k j. m k = Some j \<longrightarrow> typedEntry j"] unfolding typedStore_def by blast

lemma typed_state [simp]: "typedStore content (w\<lparr>w_state := st\<rparr>) = typedStore content w"
  by (simp add: typedStore_def)

lemma typed_rabbit [simp]: "typedStore content (w\<lparr>rabbit := r\<rparr>) = typedStore content w"
  by (simp add: typedStore_def)

lemma typed_parts [simp]:
  "typedStore content (w\<lparr>bus := b\<rparr>) = typedStore content w" "typedStore content (w\<lparr>hub := h\<rparr>) = typedStore content w"
  "typedStore content (w\<lparr>chat := c\<rparr>) = typedStore content w" "typedStore content (w\<lparr>sched := as\<rparr>) = typedStore content w"
  by (simp_all add: typedStore_def)

lemma typed_calls:
  "(\<And>x. content (snd (f x)) = content x) \<Longrightarrow> keeps (typedStore content) (ext f)"
  "(\<And>x. content (snd (g x)) = content x) \<Longrightarrow> keeps (typedStore content) (extV g)"
  by (intro typed_content keeps_content; simp)+

lemma typed_setState: "keeps (typedStore content) (setState h)"
  by (auto intro!: keepsI simp: setState_def split: option.splits)

lemma typed_EnsureKey: "keeps (typedStore content) EnsureKey"
  by (auto intro!: keepsI dest!: EnsureKey_world)

lemma typed_Del:
  assumes "redisLaws E content"
  shows "keeps (typedStore content) (ext (redisDel E k))"
proof (rule keepsI)
  fix w r w'
  assume w: "typedStore content w" and run: "ext (redisDel E k) w = (r, w')"
  then obtain x where x: "redisDel E k (w_ext w) = (r, x)" "w' = w\<lparr>w_ext := x\<rparr>" by (auto simp: ext_Ret_iff)
  with w redisLawsD(14) [OF assms x(1)] show "typedStore content w'" by (auto simp: typedStore_def split: if_splits)
qed

lemma typed_Save:
  fixes E :: "'a External"
  assumes "redisLaws E content" and "cacheable v"
  shows "keeps (typedStore content) (Save E c v :: (('a, 'b) World_scheme, unit) go)"
proof -
  obtain j where j: "marshalCache v = Some j" "unmarshalCache j = Some v" using unmarshal_marshal_cache [OF assms(2)] by blast
  have "keeps (typedStore content) (ext (redisSet E k j) :: (('a, 'b) World_scheme, unit) go)" for k
  proof (rule keepsI)
    fix w r w'
    assume w: "typedStore content w" and run: "ext (redisSet E k j) w = (r, w')"
    then obtain x where x: "redisSet E k j (w_ext w) = (r, x)" "w' = w\<lparr>w_ext := x\<rparr>" by (auto simp: ext_Ret_iff)
    with w redisLawsD(13) [OF assms(1) x(1)] show "typedStore content w'"
      using j(2) assms(2) by (auto simp: typedStore_def typedEntry_def split: if_splits)
  qed
  then show ?thesis by (auto simp: Save_def CacheSet_def j intro!: go_keeps typed_EnsureKey)
qed

lemma typed_Load:
  assumes "redisLaws E content" and "typedStore content w" and "Load E c w = (Ret v, w')"
  shows "cacheable v"
  using Load_cached(1) [OF assms(1,3)] assms(2)
  by (auto simp: cached_def typedStore_def typedEntry_def split: option.splits bind_splits)

locale typed_world =
  fixes S :: "'x System" and content :: "'x \<Rightarrow> string \<Rightarrow> json option"
  assumes sys: "systemLaws S content" and amqp: "amqpLaws (sysA S) content"
begin

lemma redis: "redisLaws (sysE S) content" and net: "netLaws (sysN S) content"
  using sys by (simp_all add: systemLaws_def)

lemma services:
  "keeps (typedStore content) (ext (redisGet (sysE S) k))" "keeps (typedStore content) (ext (httpDo (sysE S) q))"
  "keeps (typedStore content) (ext (clockNow (sysE S)))" "keeps (typedStore content) (extV (ctxErr (sysE S)))"
  "keeps (typedStore content) (extV (randFloat64 (sysE S)))" "keeps (typedStore content) (extV (randIntn (sysE S) n))"
  "keeps (typedStore content) (extV (fakeName (sysE S)))" "keeps (typedStore content) (extV (fakeSSN (sysE S)))"
  "keeps (typedStore content) (extV (fakeAddress (sysE S)))"
  using redis by (auto simp: redisLaws_def clockNow_outcome intro!: typed_calls)

lemma network:
  "keeps (typedStore content) (ext (wsDial (sysN S) url))" "keeps (typedStore content) (ext (wsClose (sysN S)))"
  "keeps (typedStore content) (extV (uuidNewString (sysN S)))" "keeps (typedStore content) (chatWrite (sysN S) msg)"
  "keeps (typedStore content) (sendAck (sysN S) m)"
  using net by (auto simp: netLaws_def sendAck_def chatWrite_def intro!: go_keeps typed_calls)

lemma broker:
  "keeps (typedStore content) (DeclareQueue (sysA S) q)" "keeps (typedStore content) (BindQueue (sysA S) b)"
  "keeps (typedStore content) (Consume (sysA S))" "keeps (typedStore content) (CloseChannel (sysA S))"
  "keeps (typedStore content) (openChannel (sysA S))"
  using amqp by (intro typed_content amqp_store.consumer amqp_store.channel; simp add: amqp_store_def)+

end

sublocale typed_world \<subseteq> others: env_frame S "typedStore content"
  by unfold_locales (simp_all add: services network)

sublocale typed_world \<subseteq> stored: journey_frame S "typedStore content" cacheable
  by unfold_locales
    (auto intro!: services broker typed_Del [OF redis] typed_Save [OF redis] typed_EnsureKey typed_setState others.loop others.preempted
      dest: typed_Load [OF redis])

sublocale typed_world \<subseteq> stayed: stay_frame S "typedStore content"
  by unfold_locales (simp_all add: services network typed_EnsureKey others.chat_waits others.hour_wait)

context typed_world
begin

lemma build: "keeps (typedStore content) (buildGuestJourney S C cfg host port)"
proof -
  have "keeps (typedStore content) (setRabbit h)" for h by (auto intro!: keepsI simp: setRabbit_def)
  then have "keeps (typedStore content) (NewRabbitmqConsumer (sysA S) cfg')" for cfg'
    unfolding NewRabbitmqConsumer_def by (intro go_keeps broker)
  note this [go_keeps]
  show ?thesis unfolding buildGuestJourney_def by (intro go_keeps) simp_all
qed

lemma journey: "keeps (typedStore content) (Start_journey S G fuel)"
  unfolding Start_journey_def onErrorJoin_def journeyBody_def
  by (intro go_keeps stored.prepare stayed.stay stored.cleanup)

end

end
