(* ===== verification/Memory.thy ===== *)
theory Memory
  imports Program Speech Typed
begin

text \<open>
  A system in memory: the store of theory \<open>Cache\<close> with a scripted broker, network and
  runtime. It shows that the contracts of the outside can hold together, and a journey
  runs on it from registration to check-in.
\<close>

subsection \<open>The system\<close>

text \<open>The frames the guest manager sends over the chat, by one-letter payloads.\<close>

definition systemMessage :: "Payload \<Rightarrow> ChatMessage" where
  "systemMessage p = \<lparr>cm_MessageId = ''m'', cm_CorrelationId = ''c'', cm_Sender = SENDER_SYSTEM,
     cm_ProtocolVersion = protocolVersion, cm_TraceContext = [], cm_Payload = p\<rparr>"

definition memFrames :: "string \<Rightarrow> ChatMessage option" where
  "memFrames s = map_option systemMessage (map_of
     [(''a'', P_Ack \<lparr>ak_AcknowledgedMessageId = ''id-1'', ak_Status = ACK_STATUS_ACCEPTED, ak_Code = ERROR_CODE_NONE\<rparr>),
      (''r'', P_Ack \<lparr>ak_AcknowledgedMessageId = ''id-1'', ak_Status = ACK_STATUS_REJECTED, ak_Code = ERROR_CODE_NONE\<rparr>),
      (''i'', P_SystemNotification CHECK_IN_COMPLETE), (''g'', P_SystemRequest GIVE_COTTAGE_KEY),
      (''d'', P_SystemNotification DINNER_READY), (''b'', P_SystemNotification BREAKFAST_READY),
      (''k'', P_SystemRequest REQUEST_COTTAGE_KEY), (''o'', P_SystemNotification CHECK_OUT_COMPLETE)] s)"

text \<open>The frames the guest writes: a letter and, for answers and acknowledgements, what they are about.\<close>

definition memCodes :: "(GuestAction \<times> string) list" where
  "memCodes = [(SHOW_FOR_CHECKIN, ''1''), (TAKE_COTTAGE_KEY, ''2''), (ENTER_COTTAGE, ''3''), (GO_FOR_A_BATH, ''4''), (GO_FOR_DINNER, ''5''),
     (GO_TO_SLEEP, ''6''), (WAKEUP, ''7''), (GO_FOR_BREAKFAST, ''8''), (LEAVE_CLEANUP_NOTIFICATION, ''9''), (ENJOY_RESORT, ''e''),
     (LEAVE_COTTAGE, ''l''), (PROCEED_TO_CHECKOUT, ''p''), (RETURN_COTTAGE_KEY, ''r'')]"

fun memEncode :: "Payload \<Rightarrow> string option" where
  "memEncode (P_GuestAction a) = map_of memCodes a"
| "memEncode (P_GuestResponse (ShowDocument s)) = Some (CHR ''D'' # s)"
| "memEncode (P_GuestResponse (ShowBookingNumber s)) = Some (CHR ''B'' # s)"
| "memEncode (P_GuestResponse (ReceiveCottageKey s)) = Some (CHR ''R'' # s)"
| "memEncode (P_GuestResponse (ReturnCottageKey s)) = Some (CHR ''T'' # s)"
| "memEncode (P_Ack a) = (if ak_Status a = ACK_STATUS_ACCEPTED \<and> ak_Code a = ERROR_CODE_NONE
     then Some (CHR ''K'' # ak_AcknowledgedMessageId a) else None)"
| "memEncode _ = None"

definition memDecode :: "string \<Rightarrow> Payload option" where
  "memDecode f = (case f of [] \<Rightarrow> None | c # s \<Rightarrow>
     if c = CHR ''D'' then Some (P_GuestResponse (ShowDocument s))
     else if c = CHR ''B'' then Some (P_GuestResponse (ShowBookingNumber s))
     else if c = CHR ''R'' then Some (P_GuestResponse (ReceiveCottageKey s))
     else if c = CHR ''T'' then Some (P_GuestResponse (ReturnCottageKey s))
     else if c = CHR ''K'' then Some (P_Ack \<lparr>ak_AcknowledgedMessageId = s, ak_Status = ACK_STATUS_ACCEPTED, ak_Code = ERROR_CODE_NONE\<rparr>)
     else map_option P_GuestAction (map_of (map (\<lambda>(a, b). (b, a)) memCodes) f))"

definition memNet :: "Mem Net" where
  "memNet = \<lparr>wsDial = (\<lambda>_ x. (Ret (), x)), wsSetWriteDeadline = (\<lambda>x. (Ret (), x)),
     wsWriteMessage = (\<lambda>f x. (Ret (), x\<lparr>mem_log := mem_log x @ [f]\<rparr>)), wsClose = (\<lambda>x. (Ret (), x)), uuidNewString = (\<lambda>x. (''id-1'', x)),
     traceInject = (\<lambda>x. ([], x)), protojsonMarshal = (\<lambda>m. memEncode (cm_Payload m)), protojsonUnmarshal = memFrames\<rparr>"

definition memAmqp :: "Mem Amqp" where
  "memAmqp = \<lparr>amqpDial = (\<lambda>x. (Ret 0, x)), connIsClosed = (\<lambda>_ x. (False, x)), connClose = (\<lambda>_ x. (Ret (), x)),
     connChannel = (\<lambda>_ x. (Ret 0, x)), chanIsClosed = (\<lambda>_ x. (False, x)), chanClose = (\<lambda>_ x. (Ret (), x)),
     queueDeclare = (\<lambda>_ q x. (Ret (q_Name q), x)), queueBind = (\<lambda>_ _ _ x. (Ret (), x)),
     consumeWithContext = (\<lambda>_ _ _ x. (Ret (), x))\<rparr>"

text \<open>The hour events all report the tenth of June 2025, 00:00 UTC.\<close>

definition memSystem :: "Runtime \<Rightarrow> Mem System" where
  "memSystem R = \<lparr>sysE = memExternal, sysN = memNet, sysR = R, sysTime = (\<lambda>_. Some \<lparr>te_Time = Some \<lparr>seconds = 1749513600, nanos = 0\<rparr>\<rparr>), sysA = memAmqp\<rparr>"

lemma memSystem_simps [simp]:
  "sysE (memSystem R) = memExternal" "sysN (memSystem R) = memNet" "sysR (memSystem R) = R" "sysA (memSystem R) = memAmqp"
  by (simp_all add: memSystem_def)

text \<open>A runtime that decodes one message of each kind and ranges over maps in insertion order.\<close>

definition memRuntime :: "PaymentRequest \<Rightarrow> BookingConfirmedNotificationEvent \<Rightarrow> CheckInTodayNotification \<Rightarrow> Runtime" where
  "memRuntime p b c = \<lparr>protoPaymentRequest = (\<lambda>s. if s = ''p'' then Some p else None),
     protoBookingConfirmed = (\<lambda>s. if s = ''b'' then Some b else None),
     protoCheckInToday = (\<lambda>s. if s = ''c'' then Some c else None), mapOrder = id\<rparr>"

lemma memRuntime_order [simp]: "mapOrder (memRuntime p b c) = id"
  by (simp add: memRuntime_def)

lemma mem_system: "systemLaws (memSystem (memRuntime p b c)) mem_store"
  by (simp add: systemLaws_def mem_laws netLaws_def memNet_def iterationOrder_def)

lemma mem_amqp: "amqpLaws memAmqp mem_store"
  by (simp add: amqpLaws_def memAmqp_def)

lemma memDecode_memEncode: "memEncode p = Some f \<Longrightarrow> memDecode f = Some p"
proof (cases p)
  case (P_GuestAction a)
  assume "memEncode p = Some f"
  then show ?thesis using P_GuestAction by (cases a) (auto simp: memCodes_def memDecode_def)
next
  case (P_GuestResponse r)
  assume "memEncode p = Some f"
  then show ?thesis using P_GuestResponse by (cases r) (auto simp: memDecode_def)
qed (auto simp: memDecode_def split: if_splits)

lemma mem_wire: "wireLaws (memSystem R) mem_log memDecode"
  by (auto simp: wireLaws_def memNet_def memExternal_def memDecode_memEncode split: option.splits)

lemma mem_chatOnly: "chatOnly (memSystem R) mem_log"
  by (simp add: chatOnly_def amqpLaws_def memExternal_def memAmqp_def split: list.splits)

interpretation memWire: chat_only "memSystem R" mem_log memDecode for R
  by unfold_locales (rule mem_wire mem_chatOnly)+

interpretation memTyped: typed_world "memSystem (memRuntime mp mb mc)" mem_store for mp mb mc
  by unfold_locales (simp_all add: mem_system mem_amqp)

interpretation memAmqp: amqp_store memAmqp mem_store
  by unfold_locales (rule mem_amqp)

interpretation memJourney: journey_world "memSystem (memRuntime mp mb mc)" mem_store "\<lparr>redis = True\<rparr>" for mp mb mc
  by unfold_locales (simp_all add: mem_system mem_amqp mem_live)

subsection \<open>A scripted journey\<close>

abbreviation answer :: "json \<Rightarrow> Response res" where
  "answer j \<equiv> Ret \<lparr>rs_code = 200, rs_status = ''200 OK'', rs_error = [], rs_body = Some j\<rparr>"

text \<open>The cottage is free in June 2025.\<close>

definition demoFree :: Period where
  "demoFree = \<lparr>Start = \<lparr>ns = 1748736000 * Second, off = 0\<rparr>, End = \<lparr>ns = 1751328000 * Second, off = 0\<rparr>\<rparr>"

definition demoHttp :: "Request \<Rightarrow> Response res" where
  "demoHttp r =
     (if rq_path r = ''/guest'' then answer (JStr ''g1'')
      else if rq_path r = ''/cottages'' then answer (JArr [JObj [(''name'', JStr ''Pine'')]])
      else if rq_path r = ''/cottage/Pine/available-dates''
      then answer (JObj [(''available_periods'', JArr [JObj [(''check_in'', JStr (the (timeMarshal (Start demoFree)))),
             (''check_out'', JStr (the (timeMarshal (End demoFree))))]])])
      else if rq_path r = ''/cottage/Pine/booking'' then answer (JObj [(''bookingId'', JStr ''b1'')])
      else if rq_path r = ''/v1/payments/invoice/i1''
      then answer (JObj [(''receiptNumber'', JStr ''r1''), (''status'', JStr ''PAYMENT_STATUS_SUCCEEDED'')])
      else answer JNull)"

definition demoPayment :: PaymentRequest where
  "demoPayment = \<lparr>pr_InvoiceNumber = ''i1'', pr_Description = [], pr_Total = Some \<lparr>mn_Amount = 30000, mn_Currency = ''EUR''\<rparr>,
     pr_IssuedAt = None, pr_ExpiresAt = None,
     pr_Booking = Some \<lparr>bs_CottageName = ''Pine'', bs_Nights = 3, bs_NumberOfGuests = 1\<rparr>,
     pr_Payer = Some \<lparr>ps_Name = ''Ann Bell'', ps_Email = ''ann.bell@test.com''\<rparr>, pr_Options = []\<rparr>"

definition demoConfirmation :: BookingConfirmedNotificationEvent where
  "demoConfirmation = \<lparr>be_Id = ''e1'', be_BookingId = ''b1'', be_BookingStatus = BOOKING_STATUS_CONFIRMED,
     be_Guest = Some \<lparr>gs_GuestId = ''g1'', gs_Name = ''Ann Bell'', gs_Email = ''ann.bell@test.com'', gs_Phone = []\<rparr>,
     be_Booking = None, be_ConfirmedAt = None\<rparr>"

text \<open>1749168000 is the sixth of June 2025, five days after the clock of the journey.\<close>

definition demoCheckin :: CheckInTodayNotification where
  "demoCheckin = \<lparr>ci_BookingId = ''b1'', ci_GuestId = ''g1'', ci_CottageName = ''Pine'',
     ci_CheckIn = Some \<lparr>seconds = 1749168000, nanos = 0\<rparr>, ci_CheckOut = None, ci_NumberOfGuests = 1,
     ci_NotificationDay = None\<rparr>"

abbreviation demoSystem :: "Mem System" where
  "demoSystem \<equiv> memSystem (memRuntime demoPayment demoConfirmation demoCheckin)"

definition demoDelivery :: "string \<Rightarrow> string \<Rightarrow> Delivery" where
  "demoDelivery kind body = \<lparr>Headers = Some [(''message_type'', HString kind)], DeliveryBody = body, DeliveryRoutingKey = ''guest.g1''\<rparr>"

text \<open>
  The schedule of the stay: \<open>acked\<close> is an acknowledgement that arrives and is read,
  \<open>told f\<close> a system message, \<open>hour\<close> a wait for an hour that has passed.
\<close>

abbreviation acked :: "Action list" where
  "acked \<equiv> [Env (ReadFrame (Inr ''a'')), Env ReadPut, Go FromAck]"

abbreviation told :: "string \<Rightarrow> Action list" where
  "told f \<equiv> [Env (ReadFrame (Inr f)), Env ReadPut, Go FromChan]"

abbreviation hour :: "Action list" where
  "hour \<equiv> [Go CtxDone]"

definition demoStaySched :: "Action list" where
  "demoStaySched = Env (HubStarted True) # Env (HubReceive ''t'') # hour @ acked @ told ''i'' @ told ''g'' @ acked @ acked
     @ acked @ hour @ acked @ hour @ told ''d'' @ acked @ hour @ acked
     @ hour @ acked @ hour @ told ''b'' @ acked @ hour @ acked @ hour @ acked @ hour @ acked @ hour @ told ''d'' @ acked @ hour @ acked
     @ hour @ acked @ hour @ acked @ acked @ told ''k'' @ acked @ acked @ told ''o''"

definition demoSched :: "Action list" where
  "demoSched =
     [Go CtxDone, Env (BusDeliver (demoDelivery paymentRequestMessageType ''p'')), Go CtxDone, Go FromChan,
      Go CtxDone, Env (BusDeliver (demoDelivery bookingConfirmationMessageType ''b'')), Go CtxDone, Go FromChan,
      Go CtxDone, Env (BusDeliver (demoDelivery checkinTodayMessageType ''c'')), Go CtxDone, Go FromChan] @ demoStaySched"

definition memStart :: Mem where
  "memStart = \<lparr>mem_store = (\<lambda>_. None), mem_http = demoHttp, mem_now = \<lparr>ns = 1748779200 * Second, off = 0\<rparr>,
     mem_floats = [0, 0, 0, 0, 7/10], mem_log = []\<rparr>"

definition demoConsume :: ConsumeConfig where
  "demoConsume = \<lparr>c_Consumer = [], c_AutoAck = False, c_Exclusive = False, c_NoLocal = False, c_NoWait = False\<rparr>"

definition demoWorld :: "Mem JWorld" where
  "demoWorld = \<lparr>w_state = Some zeroState, w_ext = memStart,
     rabbit = \<lparr>conn = None, connClosed = False, channel = None, queueName = [], consumeConfig = demoConsume\<rparr>,
     bus = NewGuestCommunicationBus, hub = NewTimeEventService, chat = newClient, sched = demoSched\<rparr>"

definition demoConfig :: RabbitMqConsumerConfig where
  "demoConfig = \<lparr>cfg_Queue = \<lparr>q_Name = [], q_Durable = False, q_AutoDelete = True, q_Exclusive = False, q_NoWait = False\<rparr>,
     cfg_Binding = \<lparr>b_ExchangeName = [], b_RoutingKey = [], b_NoWait = False\<rparr>, cfg_Consume = demoConsume\<rparr>"

definition demoJourney :: GuestJourney where
  "demoJourney = \<lparr>gj_cache = \<lparr>redis = True\<rparr>, gj_cacheService = Some (Some \<lparr>redis = True\<rparr>),
     gj_communicationCfg = demoConfig, gj_chatURL = ''ws://guest-manager:8081/lodging/chat''\<rparr>"

end
