(* ===== verification/Demo.thy ===== *)
theory Demo
  imports Memory Staying
begin

text \<open>
  One guest's journey, run to the end of its preparation on the in-memory services of theory
  \<open>Memory\<close>: the guest is created and registered, the queue is set up, the cottage is booked,
  the payment request is awaited and paid, the booking is confirmed and the check-in day is
  announced. Each lemma evaluates one phase on the state the previous one left, so
  \<open>demo_prepare\<close> is a computed run of the whole preparation; the theorems on journeys are
  applied to it.
\<close>

definition demoGuest :: Guest where
  "demoGuest = \<lparr>DocumentId = ''123456789'', GivenNames = ''Ann'', Surname = ''Bell'', Email = ''Ann.Bell@test.com'',
     BillingAddress = ''1 Main St''\<rparr>"

definition demoKey :: string where
  "demoKey = ''guest.pending.123456789''"

definition demoAt :: "State \<Rightarrow> GuestJourneyCacheValue \<Rightarrow> rat list \<Rightarrow> RabbitmqConsumer \<Rightarrow> GuestCommunicationBus \<Rightarrow> Action list \<Rightarrow> Mem JWorld" where
  "demoAt st v fl r b as = demoWorld\<lparr>w_state := Some st, w_ext := memStart\<lparr>mem_store := [demoKey \<mapsto> the (marshalCache v)],
     mem_floats := fl\<rparr>, rabbit := r, bus := b, sched := as\<rparr>"

lemma demoAt_simps [simp]:
  "w_state (demoAt st v fl r b as) = Some st" "rabbit (demoAt st v fl r b as) = r" "bus (demoAt st v fl r b as) = b"
  "sched (demoAt st v fl r b as) = as"
  "(demoAt st v fl r b as)\<lparr>w_state := Some st'\<rparr> = demoAt st' v fl r b as"
  "(demoAt st v fl r b as)\<lparr>rabbit := r'\<rparr> = demoAt st v fl r' b as"
  "(demoAt st v fl r b as)\<lparr>bus := b'\<rparr> = demoAt st v fl r b' as"
  "(demoAt st v fl r b as)\<lparr>sched := as'\<rparr> = demoAt st v fl r b as'"
  "(demoAt st v fl r b as)\<lparr>w_ext := (w_ext (demoAt st v fl r b as))\<rparr> = demoAt st v fl r b as"
  "mem_http (w_ext (demoAt st v fl r b as)) = demoHttp" "mem_floats (w_ext (demoAt st v fl r b as)) = fl"
  "mem_now (w_ext (demoAt st v fl r b as)) = mem_now memStart"
  "(demoAt st v fl r b as)\<lparr>w_ext := (w_ext (demoAt st v fl r b as))\<lparr>mem_floats := fl'\<rparr>\<rparr> = demoAt st v fl' r b as"
  by (simp_all add: demoAt_def demoWorld_def memStart_def)

abbreviation demoCache :: Cache where
  "demoCache \<equiv> \<lparr>redis = True\<rparr>"

lemma marshal_the: "cacheable v \<Longrightarrow> marshalCache v = Some (the (marshalCache v)) \<and> unmarshalCache (the (marshalCache v)) = Some v"
  using unmarshal_marshal_cache by fastforce

lemma demo_Load [simp]:
  assumes "RedisKey st = demoKey" and "cacheable v"
  shows "Load memExternal demoCache (demoAt st v fl r b as) = (Ret v, demoAt st v fl r b as)"
proof -
  obtain j where "marshalCache v = Some j" "unmarshalCache j = Some v" using unmarshal_marshal_cache [OF assms(2)] by blast
  with assms show ?thesis
    by (simp add: Load_def EnsureKey_def bindE_def Get_def ext_def memExternal_def demoAt_def demoKey_def)
qed

lemma demo_Save [simp]:
  assumes "RedisKey st = demoKey" and "cacheable v'"
  shows "Save memExternal demoCache v' (demoAt st v fl r b as) = (Ret (), demoAt st v' fl r b as)"
proof -
  obtain j where "marshalCache v' = Some j" "unmarshalCache j = Some v'" using unmarshal_marshal_cache [OF assms(2)] by blast
  with assms show ?thesis
    by (simp add: Save_def EnsureKey_def bindE_def CacheSet_def ext_def memExternal_def demoAt_def demoKey_def)
qed

lemma demo_outside [simp]:
  "ctxErr memExternal x = (None, x)" "httpDo memExternal q x = (mem_http x q, x)" "clockNow memExternal x = (Ret (UTC (mem_now x)), x)"
  "randIntn memExternal n x = (0, x)" "float64 memExternal = id"
  by (simp_all add: memExternal_def clockNow_def AsTime_def UTC_def)

lemma demo_rand [simp]: "extV (randFloat64 memExternal) (demoAt st v fl r b as) = (Ret (case fl of [] \<Rightarrow> 0 | q # _ \<Rightarrow> q), demoAt st v (tl fl) r b as)"
  by (cases fl) (simp_all add: extV_def memExternal_def)

lemmas demo_run = bindE_False bindE_run(1) thenE_run Let_def onCache_def httpCall_def

lemma demo_calls [simp]:
  "ext (httpDo memExternal q) (demoAt st v fl r b as) = (demoHttp q, demoAt st v fl r b as)"
  "ext (clockNow memExternal) (demoAt st v fl r b as) = (Ret (mem_now memStart), demoAt st v fl r b as)"
  "extV (ctxErr memExternal) (demoAt st v fl r b as) = (Ret None, demoAt st v fl r b as)"
  "extV (randIntn memExternal n) (demoAt st v fl r b as) = (Ret 0, demoAt st v fl r b as)"
  "setState f (demoAt st v fl r b as) = (Ret (), demoAt (f st) v fl r b as)"
  "deref (demoAt st v fl r b as) = (Ret st, demoAt st v fl r b as)"
  by (simp_all add: ext_def extV_def setState_def deref_def UTC_def memStart_def)

lemma cacheable_booking [simp]:
  "cacheable (v\<lparr>Booking := Some x\<rparr>) = (case SelectedPeriod x of None \<Rightarrow> True | Some p \<Rightarrow> jsonTime (Start p) \<and> jsonTime (End p))"
  by (simp add: cacheable_def)

lemma cacheable_zero [simp]: "cacheable zeroCacheValue" by (simp add: cacheable_def zeroCacheValue_def)

definition demoCreated :: State where
  "demoCreated = zeroState\<lparr>StGuest := Some demoGuest, RedisKey := demoKey\<rparr>"
definition demoFresh :: GuestJourneyCacheValue where
  "demoFresh = zeroCacheValue\<lparr>PersonalInfo := Some demoGuest\<rparr>"

text \<open>The journey is built: a state, a channel of its own and a fresh bus.\<close>

definition demoBuilt :: "Mem JWorld" where
  "demoBuilt = demoWorld\<lparr>rabbit := \<lparr>conn = Some 0, connClosed = False, channel = Some 0, queueName = [],
     consumeConfig = demoConsume\<rparr>\<rparr>"

lemma demo_build:
  "buildGuestJourney demoSystem (Some demoCache) demoConfig ''guest-manager'' 8081 demoWorld = (Ret demoJourney, demoBuilt)"
proof -
  have "chatURL ''guest-manager'' 8081 = ''ws://guest-manager:8081/lodging/chat''"
    by (simp add: chatURL_def show_int_def show_nat.simps char_of_def bit_0)
  then show ?thesis
    by (simp add: buildGuestJourney_def NewRabbitmqConsumer_def NewGuestJourney_def NewJourneyCacheService_def thenE_def
      bindE_def setRabbit_def openChannel_def openConnection_def reconnectLocked_def rabbitDialAttempts_def numeral_eq_Suc
      currentConn_def tryE_def ext_def extV_def memAmqp_def demoWorld_def demoBuilt_def demoConfig_def demoJourney_def demoConsume_def)
qed

lemma demo_create: "createGuest memExternal (Some (Some demoCache)) demoBuilt = (Ret (), demoAt demoCreated demoFresh (mem_floats memStart) (rabbit demoBuilt) NewGuestCommunicationBus demoSched)"
proof -
  have f: "split_on (CHR '' '') ''Ann Bell'' = [''Ann'', ''Bell'']" "ToLower id ''123456789'' = ''123456789''" by code_simp+
  have "cacheable demoFresh" by (simp add: demoFresh_def cacheable_def zeroCacheValue_def)
  then obtain j where "marshalCache demoFresh = Some j" using unmarshal_marshal_cache by blast
  with f show ?thesis
  by (simp add: createGuest_def bindE_def thenE_def extV_def memExternal_def demoBuilt_def demoWorld_def fakeGuest_def setState_def
    InitializeStateCache_def Save_def EnsureKey_def CacheSet_def ext_def demoAt_def demoCreated_def demoFresh_def demoGuest_def demoKey_def zeroState_def
     cacheable_def memStart_def)
qed

definition demoRegistered :: State where
  "demoRegistered = demoCreated\<lparr>GuestId := ''g1''\<rparr>"
definition demoKnown :: GuestJourneyCacheValue where
  "demoKnown = demoFresh\<lparr>GuestID := ''g1''\<rparr>"

lemma demo_steps [simp]: "RedisKey demoCreated = demoKey" "RedisKey demoRegistered = demoKey" "cacheable demoFresh" "cacheable demoKnown" "PersonalInfo demoFresh = Some demoGuest" "GuestId demoRegistered = ''g1''"
 by (simp_all add: demoCreated_def demoRegistered_def demoFresh_def demoKnown_def cacheable_def zeroCacheValue_def)

lemma demo_pick [simp]:
  "pickWeighted id (case fl of [] \<Rightarrow> 0 | q # _ \<Rightarrow> q) xs = Some t \<Longrightarrow>
     PickRandomWeighted memExternal xs (demoAt st v fl r b as) = (Ret t, demoAt st v (tl fl) r b as)"
  by (simp add: PickRandomWeighted_def demo_run)

lemma demo_picks [simp]:
  "pickWeighted id 0 [tup SelectCottage (4/5), tup BookingEnd (1/5)] = Some SelectCottage"
  "pickWeighted id 0 [tup SelectPeriod (3/5), tup ListCottages (3/10), tup BookingEnd (1/10)] = Some SelectPeriod"
  "pickWeighted id (7/10) [tup SelectPeriod (3/10), tup SelectCottage (1/5), tup ListCottages (1/20),
     tup BookCottage (2/5), tup BookingEnd (1/20)] = Some BookCottage"
  by (simp_all add: pickWeighted_def weightTotal_def)

lemma demo_register: "GuestRegisterFlow_Start memExternal (Some demoCache) 3 (demoAt demoCreated demoFresh [0, 0, 0, 0, 7/10] r b as) = (Ret (), demoAt demoRegistered demoKnown [0, 0, 7/10] r b as)"
  by (simp add: GuestRegisterFlow_Start_def runStepGraph_def numeral_3_eq_3 demo_run
     register_defs decodeBody_def pickWeighted_single
     registerRequest_def retrieveRequest_def demoHttp_def IsError_def unmarshalGuestId_def decString_def
     demoRegistered_def demoCreated_def demoFresh_def demoKnown_def zeroState_def zeroCacheValue_def cacheable_def)

definition demoConnected :: State where
  "demoConnected = demoRegistered\<lparr>QueueName := ''q.guest.g1'', RoutingKey := ''guest.g1''\<rparr>"
definition demoConsumer :: RabbitmqConsumer where
  "demoConsumer = \<lparr>conn = Some 0, connClosed = False, channel = Some 0, queueName = ''q.guest.g1'', consumeConfig = demoConsume\<rparr>"
definition demoBus :: GuestCommunicationBus where
  "demoBus = StartBus ((Reset NewGuestCommunicationBus)\<lparr>Consumer := True\<rparr>)"

lemma demo_ext: "(\<And>x. f x = (res, x)) \<Longrightarrow> ext f (demoAt st v fl r b as) = (res, demoAt st v fl r b as)"
  "(\<And>x. g x = (a, x)) \<Longrightarrow> extV g (demoAt st v fl r b as) = (Ret a, demoAt st v fl r b as)"
  by (simp_all add: ext_def extV_def)

lemma demo_amqp [simp]:
  "ext (amqpDial memAmqp) (demoAt st v fl r b as) = (Ret 0, demoAt st v fl r b as)"
  "ext (connChannel memAmqp k) (demoAt st v fl r b as) = (Ret 0, demoAt st v fl r b as)"
  "extV (connIsClosed memAmqp k) (demoAt st v fl r b as) = (Ret False, demoAt st v fl r b as)"
  "extV (chanIsClosed memAmqp k) (demoAt st v fl r b as) = (Ret False, demoAt st v fl r b as)"
  "ext (queueDeclare memAmqp k q) (demoAt st v fl r b as) = (Ret (q_Name q), demoAt st v fl r b as)"
  "ext (queueBind memAmqp k n bc) (demoAt st v fl r b as) = (Ret (), demoAt st v fl r b as)"
  "ext (consumeWithContext memAmqp k n cc) (demoAt st v fl r b as) = (Ret (), demoAt st v fl r b as)"
  by (simp_all add: demo_ext memAmqp_def)

lemma demo_channel:
  "channel r = Some k \<Longrightarrow> ensureChannel memAmqp (demoAt st v fl r b as) = (Ret k, demoAt st v fl r b as)"
  by (simp add: ensureChannel_def channelGone_def demo_run)

lemma demo_orClose: "m w = (Ret a, w') \<Longrightarrow> orClose A m w = (Ret a, w')" by (simp add: orClose_def bindE_run tryE_run)
lemma demo_wrapErr: "m w = (Ret a, w') \<Longrightarrow> wrapErr s m w = (Ret a, w')" by (simp add: wrapErr_def bindE_run tryE_run)

lemma demo_declare: "channel r = Some k \<Longrightarrow>
  DeclareQueue memAmqp q (demoAt st v fl r b as) = (Ret (), demoAt st v fl (r\<lparr>queueName := q_Name q\<rparr>) b as)"
  by (simp add: DeclareQueue_def demo_run demo_channel demo_wrapErr setRabbit_def)

lemma demo_bind: "channel r = Some k \<Longrightarrow> queueName r \<noteq> [] \<Longrightarrow>
  BindQueue memAmqp q (demoAt st v fl r b as) = (Ret (), demoAt st v fl r b as)"
  "channel r = Some k \<Longrightarrow> Consume memAmqp (demoAt st v fl r b as) = (Ret (), demoAt st v fl r b as)"
  by (simp_all add: BindQueue_def Consume_def demo_run demo_channel demo_wrapErr)

lemma demo_setup: "SetupCommunication demoSystem demoConfig True True (demoAt demoRegistered v fl (rabbit demoBuilt) NewGuestCommunicationBus as) = (Ret (), demoAt demoConnected v fl demoConsumer demoBus as)"
  by (simp add: SetupCommunication_def demo_run demo_orClose demo_declare demo_bind demoBuilt_def demoConsume_def
   guestQueue_def guestQueuePrefix_def guestRoutingKeyPrefix_def demoRegistered_def demoConnected_def demoConsumer_def demoBus_def)

definition demoPeriod :: Period where
  "demoPeriod = \<lparr>Start = \<lparr>ns = 1749168000 * Second, off = 0\<rparr>, End = \<lparr>ns = (1749168000 + 3 * 86400) * Second, off = 0\<rparr>\<rparr>"
definition demoBooking :: GuestJourneyBooking where
  "demoBooking = \<lparr>BookingID = ''b1'', SelectedCottage = ''Pine'', SelectedPeriod = Some demoPeriod\<rparr>"
definition demoStay :: stayCandidate where
  "demoStay = \<lparr>cottageName = ''Pine'', period = demoPeriod, distance = 388800 * Second, nights = 3\<rparr>"

lemma demo_free: "jsonTime (Start demoFree)" "jsonTime (End demoFree)" by code_simp+

lemma demo_times: "timeUnmarshal (the (timeMarshal (Start demoFree))) = Some (Start demoFree)"
  "timeUnmarshal (the (timeMarshal (End demoFree))) = Some (End demoFree)"
  using demo_free by (simp_all add: timeMarshal_Some timeUnmarshal_print [simplified])

lemma demo_fit: "firstFit ''Pine'' (mem_now memStart) [demoFree] (sort numberOfNights) = Some demoStay" by code_simp
lemma demo_unique: "uniqueStayCandidates (SliceStable stayLess (replicate 7 demoStay)) = [demoStay]"
  by (simp add: numeral_eq_Suc SliceStable_def stayLess_def uniqueStayCandidates_def)
lemma demo_jsonTime [simp]: "jsonTime (Start demoPeriod)" "jsonTime (End demoPeriod)" by code_simp+

definition demoListed :: State where
  "demoListed = demoConnected\<lparr>CottageNames := Some [''Pine'']\<rparr>"
definition demoBooked :: GuestJourneyCacheValue where
  "demoBooked = demoKnown\<lparr>Booking := Some demoBooking\<rparr>"

lemma demo_load_periods: "loadAvailablePeriods memExternal True ''Pine'' now d (demoAt st v fl r b as) = (Ret [demoFree], demoAt st v fl r b as)"
  by (simp add: loadAvailablePeriods_def demo_run availableRequest_def demoHttp_def IsError_def decodeBody_def unmarshalAvailable_def
    availableFields_def lookupField_def decSlice_def periodDTOFields_def decTime_def demo_times ToPeriods_def)

lemma demo_collect: "collectStayCandidates memExternal True (mem_now memStart) (sort numberOfNights) (demoAt demoListed v fl r b as) = (Ret [demoStay], demoAt demoListed v fl r b as)"
  using demo_unique
  by (simp add: collectStayCandidates_def demo_run cottageList_def demoListed_def searchWindows_def demo_load_periods demo_fit numeral_eq_Suc)

lemma demo_booking: "BookingFlow_Start memExternal (Some demoCache) 6 (demoAt demoConnected demoKnown [0, 0, 7/10] r b as) = (Ret (), demoAt demoListed demoBooked [] r b as)"
proof -
  have cottages: "cottageList demoListed = [''Pine'']" "RedisKey demoListed = demoKey" "GuestId demoListed = ''g1''" "CottageNames demoListed = Some [''Pine'']"
    by (simp_all add: demoListed_def demoConnected_def cottageList_def)
  have cc: "PersonalInfo demoKnown = Some demoGuest"
    by (simp add: demoKnown_def)
  note [simp] = cottages
  let ?loop = "stepLoop memExternal (booking_Validate (Some demoCache)) (booking_Execute memExternal (Some demoCache)) bookingMap"
  have 1: "?loop (Suc n) ListCottages (demoAt demoConnected demoKnown [0, 0, 7/10] r b as) = ?loop n SelectCottage (demoAt demoListed demoKnown [0, 7/10] r b as)" for n
    by (simp add: demo_run ListCottagesStep_Validate_def ListCottagesStep_Execute_def cottagesRequest_def demoHttp_def IsError_def decodeBody_def
      unmarshalCottages_def decSlice_def cottageFields_def lookupField_def decString_def zeroCottage_def demoListed_def)
  have 2: "?loop (Suc n) SelectCottage (demoAt demoListed demoKnown [0, 7/10] r b as) = ?loop n SelectPeriod (demoAt demoListed (demoKnown\<lparr>Booking := Some (zeroBooking\<lparr>SelectedCottage := ''Pine''\<rparr>)\<rparr>) [7/10] r b as)" for n
    by (simp add: demo_run SelectCottageStep_Validate_def SelectCottageStep_Execute_def cottageList_def Intn_def demoListed_def demoConnected_def demoKnown_def demoFresh_def zeroCacheValue_def cacheable_def zeroBooking_def)
  have 3: "?loop (Suc n) SelectPeriod (demoAt demoListed (demoKnown\<lparr>Booking := Some (zeroBooking\<lparr>SelectedCottage := ''Pine''\<rparr>)\<rparr>) [7/10] r b as) = ?loop n BookCottage (demoAt demoListed (demoKnown\<lparr>Booking := Some (demoBooking\<lparr>BookingID := []\<rparr>)\<rparr>) [] r b as)" for n
    by (simp add: demo_run SelectPeriodStep_Validate_def SelectPeriodStep_Execute_def demo_collect maxPeriodAttempts_def cottages cc demoBooking_def demoStay_def zeroBooking_def)
  have 4: "?loop (Suc n) BookCottage (demoAt demoListed (demoKnown\<lparr>Booking := Some (demoBooking\<lparr>BookingID := []\<rparr>)\<rparr>) [] r b as) = ?loop n BookingEnd (demoAt demoListed demoBooked [] r b as)" for n
    by (simp add: demo_run BookCottageStep_Validate_def BookCottageStep_Execute_def bookingRequest_def demoHttp_def IsError_def decodeBody_def
     unmarshalConfirmation_def lookupField_def decString_def pickWeighted_single demoBooking_def demoBooked_def cc)
  have 5: "?loop (Suc n) BookingEnd w = (Ret (), w)" if "w = demoAt demoListed demoBooked [] r b as" for w n
    by (simp add: that demo_run EndStep_Validate_def EndStep_Execute_def)
  show ?thesis by (simp add: BookingFlow_Start_def runStepGraph_def noopStep_Execute_def numeral_eq_Suc 1 2 3 4 5 Let_def del: stepLoop.simps)
qed

definition demoInvoiced :: GuestJourneyCacheValue where
  "demoInvoiced = demoBooked\<lparr>Invoice := Some \<lparr>InvoiceNumber = ''i1'', ReceiptNumber = []\<rparr>\<rparr>"
definition demoPaid :: GuestJourneyCacheValue where
  "demoPaid = demoBooked\<lparr>Invoice := Some \<lparr>InvoiceNumber = ''i1'', ReceiptNumber = ''r1''\<rparr>\<rparr>"

lemma demo_sync: "RedisKey st = demoKey \<Longrightarrow> GuestId st = GuestID v \<Longrightarrow> GuestID v \<noteq> [] \<Longrightarrow> StGuest st = Some g \<Longrightarrow> PersonalInfo v = Some g \<Longrightarrow> cacheable v \<Longrightarrow>
  SyncStateCache memExternal (Some (Some demoCache)) (demoAt st v fl r b as) = (Ret (), demoAt st v fl r b as)"
  by (cases v) (simp add: SyncStateCache_run [where st = st] demo_run synced_def)

lemma demo_trim: "TrimSpace ''i1'' = ''i1''" "TrimSpace ''EUR'' = ''EUR''" "TrimSpace ''Pine'' = ''Pine''" 
  "TrimSpace ''ann.bell@test.com'' = ''ann.bell@test.com''" "TrimSpace ''Ann.Bell@test.com'' = ''Ann.Bell@test.com''"
  "TrimSpace ''Ann Bell'' = ''Ann Bell''"
  by (simp_all add: TrimSpace_plain plain_def)

lemma demo_fold: "EqualFold (uniFold memExternal) ''ann.bell@test.com'' ''Ann.Bell@test.com''"
proof -
  have "ascii ''ann.bell@test.com'' \<and> ascii ''Ann.Bell@test.com'' \<and> lower_ascii ''ann.bell@test.com'' = lower_ascii ''Ann.Bell@test.com''"
    by code_simp
  then show ?thesis by (simp add: EqualFold_def)
qed

lemma demo_noInvoice: "Invoice zeroCacheValue = None" by (simp add: zeroCacheValue_def)
lemma demo_start: "ns (Start demoPeriod) = 1749168000 * Second" by (simp add: demoPeriod_def)

lemma demo_match1: "matchPaymentRequest memExternal (Some demoCache) (Some demoPayment) (demoAt demoListed demoBooked fl r b as) = (Ret (), demoAt demoListed demoInvoiced fl r b as)"
  by (simp add: matchPaymentRequest_def demo_run demoPayment_def demo_trim demo_fold demoBooked_def demoInvoiced_def demoKnown_def demoFresh_def demoBooking_def demoGuest_def zeroInvoice_def demoListed_def demoConnected_def demo_noInvoice)

lemma demo_match2: "matchBookingConfirmation memExternal (Some demoCache) (Some demoConfirmation) (demoAt demoListed demoPaid fl r b as) = (Ret (), demoAt demoListed demoPaid fl r b as)"
  by (simp add: matchBookingConfirmation_def demo_run demoConfirmation_def demoBooked_def demoPaid_def demoKnown_def demoFresh_def demoBooking_def demoListed_def demoConnected_def)

lemma demo_match3: "matchCheckinToday memExternal (Some demoCache) (Some demoCheckin) (demoAt demoListed demoPaid fl r b as) = (Ret (), demoAt demoListed demoPaid fl r b as)"
  by (simp add: matchCheckinToday_def demo_run demoCheckin_def demoBooked_def demoPaid_def demoKnown_def demoFresh_def demoBooking_def demoListed_def demoConnected_def TimeEqual_def AsTime_def UTC_def demo_start)

lemma demo_payment: "PaymentFlow_Start memExternal (Some demoCache) 2 (demoAt demoListed demoInvoiced [] r b as) = (Ret (), demoAt demoListed demoPaid [] r b as)"
  by (simp add: PaymentFlow_Start_def runStepGraph_def noopStep_Execute_def numeral_2_eq_2 demo_run PayInvoiceStep_Validate_def PayInvoiceStep_Execute_def
    EndStep_Validate_def EndStep_Execute_def payChecks_def payRequest_def demoHttp_def IsError_def decodeBody_def unmarshalPayResponse_def payResponseFields_def
    lookupField_def decString_def pickWeighted_single
    demoBooked_def demoInvoiced_def demoPaid_def demoKnown_def demoFresh_def demoBooking_def demoGuest_def demoListed_def demoConnected_def)

definition demoTopic :: "nat \<Rightarrow> 'm Topic" where
  "demoTopic n = newTopic\<lparr>nextChan := n\<rparr>"
definition demoBusInvoiced :: GuestCommunicationBus where
  "demoBusInvoiced = demoBus\<lparr>settled := [(demoDelivery paymentRequestMessageType ''p'', True)], paymentRequests := demoTopic 1\<rparr>"

lemma demo_bus: "pumps demoBus = [2]" "closedDone demoBus = []" "paymentRequests demoBus = demoTopic 0" "bookingConfirmations demoBus = demoTopic 0" "checkinToday demoBus = demoTopic 0" "settled demoBus = []"
  by (simp_all add: demoBus_def StartBus_def makeDone_def Reset_def NewGuestCommunicationBus_def newTopic_def resetTopic_def demoTopic_def NewSet_def Let_def)

lemmas demo_wait = waitMessage_def await_def makeChan_def subscribe_def unsubscribe_def Add_def Remove_def
  pumpDeliver_def handleDelivery_def deliveryHeader_def demoDelivery_def memRuntime_def publish_def Values_def
  takePending_def receive_def tryMatch_def Let_def demoTopic_def newTopic_def NewSet_def fun_upd_def

lemma demo_wait1: "WaitPaymentRequestMessage demoSystem (Some demoCache) (demoAt demoListed demoBooked fl r demoBus (tl demoSched)) = (Ret (), demoAt demoListed demoInvoiced fl r demoBusInvoiced (drop 4 demoSched))"
  by (simp add: WaitPaymentRequestMessage_def demo_wait o_def demo_bus demo_match1 demoSched_def demoBusInvoiced_def cong: if_cong)

definition demoBusConfirmed :: GuestCommunicationBus where
  "demoBusConfirmed = demoBusInvoiced\<lparr>settled := (demoDelivery bookingConfirmationMessageType ''b'', True) # settled demoBusInvoiced, bookingConfirmations := demoTopic 1\<rparr>"
definition demoBusCheckedIn :: GuestCommunicationBus where
  "demoBusCheckedIn = demoBusConfirmed\<lparr>settled := (demoDelivery checkinTodayMessageType ''c'', True) # settled demoBusConfirmed, checkinToday := demoTopic 1\<rparr>"

lemma demo_wait2: "WaitBookingConfirmationMessage demoSystem (Some demoCache) (demoAt demoListed demoPaid fl r demoBusInvoiced (drop 5 demoSched)) = (Ret (), demoAt demoListed demoPaid fl r demoBusConfirmed (drop 8 demoSched))"
  by (simp add: WaitBookingConfirmationMessage_def demo_wait o_def demo_bus demo_match2 demoSched_def demoBusInvoiced_def demoBusConfirmed_def cong: if_cong)

lemma demo_wait3: "WaitCheckinTodayMessage demoSystem (Some demoCache) (demoAt demoListed demoPaid fl r demoBusConfirmed (drop 9 demoSched)) = (Ret (), demoAt demoListed demoPaid fl r demoBusCheckedIn demoStaySched)"
  by (simp add: WaitCheckinTodayMessage_def demo_wait o_def demo_bus demo_match3 demoSched_def demoBusInvoiced_def demoBusConfirmed_def demoBusCheckedIn_def cong: if_cong)

lemma demo_others:
  "afterOthers demoSystem m (demoAt st v fl r b demoSched) = m (demoAt st v fl r b (tl demoSched))"
  "afterOthers demoSystem m (demoAt st v fl r b (drop 4 demoSched)) = m (demoAt st v fl r b (drop 5 demoSched))"
  "afterOthers demoSystem m (demoAt st v fl r b (drop 8 demoSched)) = m (demoAt st v fl r b (drop 9 demoSched))"
  by (simp_all add: afterOthers_def thenE_def bindE_def preempt_def demoSched_def demoAt_def)

lemma demo_prepare: "prepareStay demoSystem demoJourney 6 demoBuilt = (Ret (), demoAt demoListed demoPaid [] demoConsumer demoBusCheckedIn demoStaySched)"
proof -
  have s: "RedisKey demoListed = demoKey" "GuestId demoListed = ''g1''" "StGuest demoListed = Some demoGuest" by (simp_all add: demoListed_def demoConnected_def demoRegistered_def demoCreated_def)
  have c: "cacheable demoBooked" "cacheable demoPaid" "GuestID demoBooked = ''g1''" "PersonalInfo demoBooked = Some demoGuest" "GuestID demoPaid = ''g1''" "PersonalInfo demoPaid = Some demoGuest"
   "Booking demoBooked = Some demoBooking" "BookingID demoBooking = ''b1''"
    by (simp_all add: demoBooked_def demoPaid_def demoKnown_def demoFresh_def demoBooking_def)
  have f: "mem_floats memStart = [0, 0, 0, 0, 7/10]" by (simp add: memStart_def)
  show ?thesis
    by (simp add: prepareStay_def demo_others demoJourney_def demo_run demo_create demo_register demo_setup demo_booking demo_payment demo_sync demo_wait1 demo_wait2 demo_wait3 s c f del: drop_Suc_Cons)
qed

text \<open>The same journey without a chat URL: the stay is refused, and the journey cleans up.\<close>

definition strandedJourney :: GuestJourney where
  "strandedJourney = demoJourney\<lparr>gj_chatURL := []\<rparr>"

abbreviation strandedAt :: "Mem JWorld" where
  "strandedAt \<equiv> demoAt demoListed demoPaid [] demoConsumer demoBusCheckedIn demoStaySched"

lemma stranded_cleanup: "fst (cleanupGuestJourney demoSystem strandedJourney strandedAt) = Ret ()"
  by (simp add: cleanupGuestJourney_def CleanupState_def LogStateCache_def DeleteStateCache_def CloseCommunication_def
    CloseChannel_def strandedJourney_def demoJourney_def thenE_def bindE_def Get_def Del_def ext_def extV_def
    memExternal_def memAmqp_def demoAt_def demoKey_def demoListed_def demoConnected_def demoRegistered_def demoCreated_def
    demoConsumer_def)

lemma prepareStay_url: "prepareStay S (G\<lparr>gj_chatURL := u\<rparr>) n = prepareStay S G n"
  unfolding prepareStay_def by (simp cong: if_cong)

lemma demo_cancelled: "(demoAt st v fl r b as)\<lparr>hub := cancelNotifiers (hub (demoAt st v fl r b as))\<rparr> = demoAt st v fl r b as"
  by (simp add: demoAt_def demoWorld_def cancelNotifiers_def NewTimeEventService_def)

lemma stranded_stay: "\<exists>msg. RunLodgingStayFlow demoSystem True [] (Some demoCache) strandedAt = (Err (Errorf msg), strandedAt)"
  by (simp add: RunLodgingStayFlow_def cancelling_def runStepGraph_def noopStep_Execute_def demo_run RunLodgingStep_Validate_def
    thenE_def bindE_def demo_cancelled del: demoAt_simps)

lemma stranded_run: "\<exists>e. Start_journey demoSystem strandedJourney 6 demoBuilt =
    (Err e, snd (cleanupGuestJourney demoSystem strandedJourney strandedAt)) \<and> (\<nexists>a b. e = Joined a b)"
proof -
  have "prepareStay demoSystem strandedJourney 6 demoBuilt = (Ret (), strandedAt)"
    using demo_prepare by (simp only: strandedJourney_def prepareStay_url)
  moreover obtain w1 where "cleanupGuestJourney demoSystem strandedJourney strandedAt = (Ret (), w1)"
    using stranded_cleanup by (cases "cleanupGuestJourney demoSystem strandedJourney strandedAt") auto
  moreover obtain msg where "RunLodgingStayFlow demoSystem True (gj_chatURL strandedJourney) (Some (gj_cache strandedJourney)) strandedAt
      = (Err (Errorf msg), strandedAt)"
    using stranded_stay by (auto simp: strandedJourney_def demoJourney_def)
  ultimately show ?thesis
    by (simp add: Start_journey_def onErrorJoin_def journeyBody_def thenE_def bindE_def tryE_def)
qed

end
