(* ===== verification/Encoding.thy ===== *)
theory Encoding
  imports Domain
begin

text \<open>
  What \<open>json.Marshal\<close> does to the text of a cache entry (infra/redis/cache.go \<open>Save\<close>). A Go string is a
  sequence of bytes; the encoder reads it rune by rune (\<open>utf8.DecodeRuneInString\<close>) and writes the
  replacement character U+FFFD for every byte that starts no UTF-8 sequence. Domain's \<open>marshalCache\<close>
  puts strings into the document as they are; \<open>encodeCache\<close> is the encoder on any bytes, and
  \<open>encode_valid\<close> says that the two are the same on valid text, which is the only text a journey
  stores (names made by gofakeit, fields of decoded JSON documents and of proto3 messages).
\<close>

section \<open>UTF-8\<close>

text \<open>The bytes that must follow a first byte, as ranges: \<open>unicode/utf8\<close>'s table of sequences.\<close>

definition byteRanges :: "nat \<Rightarrow> (nat \<times> nat) list option" where
  "byteRanges b =
     (let cont = (0x80, 0xBF) in
      if b < 0x80 then Some []
      else if b < 0xC2 then None
      else if b < 0xE0 then Some [cont]
      else if b = 0xE0 then Some [(0xA0, 0xBF), cont]
      else if b = 0xED then Some [(0x80, 0x9F), cont]
      else if b < 0xF0 then Some [cont, cont]
      else if b = 0xF0 then Some [(0x90, 0xBF), cont, cont]
      else if b < 0xF4 then Some [cont, cont, cont]
      else if b = 0xF4 then Some [(0x80, 0x8F), cont, cont]
      else None)"

fun inRanges :: "(nat \<times> nat) list \<Rightarrow> string \<Rightarrow> bool" where
  "inRanges [] s = True"
| "inRanges (r # rs) [] = False"
| "inRanges (r # rs) (c # s) = (fst r \<le> of_char c \<and> of_char c \<le> snd r \<and> inRanges rs s)"

text \<open>The length of the rest of the sequence that the byte starts, if it starts one.\<close>

definition runeRest :: "char \<Rightarrow> string \<Rightarrow> nat option" where
  "runeRest c s =
     (case byteRanges (of_char c) of
        None \<Rightarrow> None
      | Some rs \<Rightarrow> if inRanges rs s then Some (length rs) else None)"

fun validUTF8 :: "string \<Rightarrow> bool" where
  "validUTF8 [] = True"
| "validUTF8 (c # s) = (case runeRest c s of None \<Rightarrow> False | Some n \<Rightarrow> validUTF8 (drop n s))"

definition runeError :: string where
  "runeError = [CHR 0xEF, CHR 0xBF, CHR 0xBD]"

fun toValidUTF8 :: "string \<Rightarrow> string" where
  "toValidUTF8 [] = []"
| "toValidUTF8 (c # s) =
     (case runeRest c s of
        None \<Rightarrow> runeError @ toValidUTF8 s
      | Some n \<Rightarrow> c # take n s @ toValidUTF8 (drop n s))"

lemma inRanges_length: "inRanges rs s \<Longrightarrow> length rs \<le> length s"
  by (induction rs s rule: inRanges.induct) auto

lemma inRanges_take: "inRanges rs s \<Longrightarrow> inRanges rs (take (length rs) s @ t)"
  by (induction rs s rule: inRanges.induct) auto

lemma runeRest_length: "runeRest c s = Some n \<Longrightarrow> n \<le> length s"
  by (auto simp: runeRest_def inRanges_length split: option.splits if_splits)

lemma runeRest_take: "runeRest c s = Some n \<Longrightarrow> runeRest c (take n s @ t) = Some n"
  by (auto simp: runeRest_def inRanges_take split: option.splits if_splits)

lemma runeRest_error: "runeRest (CHR 0xEF) (CHR 0xBF # CHR 0xBD # t) = Some 2"
  by (simp add: runeRest_def byteRanges_def Let_def)

lemma validUTF8_error: "validUTF8 (runeError @ t) = validUTF8 t"
  by (simp add: runeError_def runeRest_error)

lemma toValidUTF8_length: "length s \<le> length (toValidUTF8 s)"
  by (induction s rule: toValidUTF8.induct)
    (auto simp: runeError_def dest: runeRest_length split: option.splits)

lemma toValidUTF8_valid: "validUTF8 (toValidUTF8 s)"
proof (induction s rule: toValidUTF8.induct)
  case (2 c s)
  show ?case
  proof (cases "runeRest c s")
    case None
    then show ?thesis using 2 by (simp add: validUTF8_error)
  next
    case (Some n)
    with 2 show ?thesis by (simp add: runeRest_take runeRest_length)
  qed
qed simp

text \<open>The encoder keeps valid text, and only valid text, as it is.\<close>

lemma toValidUTF8_id: "toValidUTF8 s = s \<longleftrightarrow> validUTF8 s"
proof (induction s rule: toValidUTF8.induct)
  case (2 c s)
  show ?case
  proof (cases "runeRest c s")
    case None
    have "length (toValidUTF8 (c # s)) \<noteq> length (c # s)"
      using None toValidUTF8_length [of s] by (simp add: runeError_def)
    then show ?thesis using None by (metis option.simps(4) validUTF8.simps(2))
  next
    case (Some n)
    have "take n s @ toValidUTF8 (drop n s) = s \<longleftrightarrow> toValidUTF8 (drop n s) = drop n s"
      by (metis append_take_drop_id same_append_eq)
    with 2 Some show ?thesis by simp
  qed
qed simp

section \<open>The text of a cache entry\<close>

definition coerceGuest :: "Guest \<Rightarrow> Guest" where
  "coerceGuest g =
     g\<lparr>DocumentId := toValidUTF8 (DocumentId g), GivenNames := toValidUTF8 (GivenNames g),
       Surname := toValidUTF8 (Surname g), Email := toValidUTF8 (Email g),
       BillingAddress := toValidUTF8 (BillingAddress g)\<rparr>"

definition coerceBooking :: "GuestJourneyBooking \<Rightarrow> GuestJourneyBooking" where
  "coerceBooking b =
     b\<lparr>BookingID := toValidUTF8 (BookingID b), SelectedCottage := toValidUTF8 (SelectedCottage b)\<rparr>"

definition coerceInvoice :: "GuestJourneyInvoice \<Rightarrow> GuestJourneyInvoice" where
  "coerceInvoice i =
     i\<lparr>InvoiceNumber := toValidUTF8 (InvoiceNumber i), ReceiptNumber := toValidUTF8 (ReceiptNumber i)\<rparr>"

definition coerceCache :: "GuestJourneyCacheValue \<Rightarrow> GuestJourneyCacheValue" where
  "coerceCache v =
     v\<lparr>GuestID := toValidUTF8 (GuestID v), PersonalInfo := map_option coerceGuest (PersonalInfo v),
       Booking := map_option coerceBooking (Booking v), Invoice := map_option coerceInvoice (Invoice v)\<rparr>"

text \<open>\<open>json.Marshal(value)\<close>: the document with the coerced text.\<close>

definition encodeCache :: "GuestJourneyCacheValue \<Rightarrow> json option" where
  "encodeCache v = marshalCache (coerceCache v)"

text \<open>All strings of the entry are valid text.\<close>

definition cacheTexts :: "GuestJourneyCacheValue \<Rightarrow> string list" where
  "cacheTexts v =
     GuestID v
     # (case PersonalInfo v of None \<Rightarrow> []
        | Some g \<Rightarrow> [DocumentId g, GivenNames g, Surname g, Email g, BillingAddress g])
     @ (case Booking v of None \<Rightarrow> [] | Some b \<Rightarrow> [BookingID b, SelectedCottage b])
     @ (case Invoice v of None \<Rightarrow> [] | Some i \<Rightarrow> [InvoiceNumber i, ReceiptNumber i])"

lemma coerce_texts: "cacheTexts (coerceCache v) = map toValidUTF8 (cacheTexts v)"
  by (simp add: cacheTexts_def coerceCache_def coerceGuest_def coerceBooking_def coerceInvoice_def
      split: option.splits)

lemma coerceGuest_id: "coerceGuest g = g \<longleftrightarrow> list_all validUTF8 [DocumentId g, GivenNames g, Surname g, Email g, BillingAddress g]"
  by (cases g) (simp add: coerceGuest_def toValidUTF8_id)

lemma coerceBooking_id: "coerceBooking b = b \<longleftrightarrow> list_all validUTF8 [BookingID b, SelectedCottage b]"
  by (cases b) (simp add: coerceBooking_def toValidUTF8_id)

lemma coerceInvoice_id: "coerceInvoice i = i \<longleftrightarrow> list_all validUTF8 [InvoiceNumber i, ReceiptNumber i]"
  by (cases i) (simp add: coerceInvoice_def toValidUTF8_id)

lemma coerceCache_id: "coerceCache v = v \<longleftrightarrow> list_all validUTF8 (cacheTexts v)"
proof -
  have "coerceCache v = v \<longleftrightarrow> toValidUTF8 (GuestID v) = GuestID v
      \<and> map_option coerceGuest (PersonalInfo v) = PersonalInfo v
      \<and> map_option coerceBooking (Booking v) = Booking v \<and> map_option coerceInvoice (Invoice v) = Invoice v"
    by (cases v) (simp add: coerceCache_def)
  then show ?thesis
    by (simp add: cacheTexts_def toValidUTF8_id coerceGuest_id coerceBooking_id coerceInvoice_id
        split: option.splits)
qed

lemma encode_valid: "list_all validUTF8 (cacheTexts v) \<Longrightarrow> encodeCache v = marshalCache v"
  by (simp add: encodeCache_def coerceCache_id [THEN iffD2])

lemma coerce_cacheable: "cacheable (coerceCache v) = cacheable v"
  by (simp add: cacheable_def coerceCache_def coerceBooking_def split: option.splits)

lemma unmarshal_encode:
  assumes "cacheable v"
  shows "Option.bind (encodeCache v) unmarshalCache = Some (coerceCache v)"
  using unmarshal_marshal_cache [of "coerceCache v"] assms by (auto simp: encodeCache_def coerce_cacheable)

end
