(* ===== verification/Data_properties.thy ===== *)
theory Data_properties
  imports Demo Encoding
begin

text \<open>What the data layer promises: times, the JSON of the cache entry, the cache and its service, the subscriber set.\<close>

section \<open>The cache entry\<close>

text \<open>
  C33. What the cache writes it reads back: for every cache value whose times Go can print,
  unmarshalling the JSON that \<open>json.Marshal\<close> makes of it gives the value with every byte that is not
  part of a UTF-8 sequence replaced by U+FFFD. The strings read back are valid UTF-8, the value read
  back is the very value exactly when all its strings were, and it round trips from then on.
\<close>

theorem cache_value_roundtrip:
  assumes "cacheable v"
  shows "Option.bind (encodeCache v) unmarshalCache = Some (coerceCache v)
    \<and> list_all validUTF8 (cacheTexts (coerceCache v))
    \<and> (coerceCache v = v \<longleftrightarrow> list_all validUTF8 (cacheTexts v))
    \<and> Option.bind (encodeCache (coerceCache v)) unmarshalCache = Some (coerceCache v)"
proof -
  have valid: "list_all validUTF8 (cacheTexts (coerceCache v))"
    by (simp add: coerce_texts list_all_iff toValidUTF8_valid)
  then have "coerceCache (coerceCache v) = coerceCache v" by (simp only: coerceCache_id)
  with valid show ?thesis
    using unmarshal_encode [OF assms] unmarshal_encode [of "coerceCache v"] assms
    by (simp add: coerceCache_id [of v] coerce_cacheable)
qed

theorem cache_value_roundtrip_witness:
  "Option.bind (encodeCache demoPaid) unmarshalCache = Some demoPaid
   \<and> Option.bind (encodeCache (demoPaid\<lparr>GuestID := [CHR 0x67, CHR 0xC3]\<rparr>)) unmarshalCache
     = Some (demoPaid\<lparr>GuestID := [CHR 0x67, CHR 0xEF, CHR 0xBF, CHR 0xBD]\<rparr>)"
proof -
  have ok: "cacheable demoPaid" by (simp add: demoPaid_def demoBooked_def demoBooking_def)
  have "list_all validUTF8 (cacheTexts demoPaid)" by code_simp
  with cache_value_roundtrip [OF ok] have same: "coerceCache demoPaid = demoPaid" by blast
  have "toValidUTF8 [CHR 0x67, CHR 0xC3] = [CHR 0x67, CHR 0xEF, CHR 0xBF, CHR 0xBD]" by code_simp
  then have other: "coerceCache (demoPaid\<lparr>GuestID := [CHR 0x67, CHR 0xC3]\<rparr>)
      = (coerceCache demoPaid)\<lparr>GuestID := [CHR 0x67, CHR 0xEF, CHR 0xBF, CHR 0xBD]\<rparr>"
    by (simp add: coerceCache_def)
  show ?thesis
    using cache_value_roundtrip [OF ok] cache_value_roundtrip [of "demoPaid\<lparr>GuestID := [CHR 0x67, CHR 0xC3]\<rparr>"]
      ok same other by simp
qed

text \<open>
  A Load after a successful Save returns the saved value, and the two calls change no other key
  of the store, whatever the Redis client does besides storing.
\<close>

theorem save_then_load:
  assumes laws: "redisLaws E content" and "cacheable v" and save: "Save E c v w = (Ret (), w1)"
    and load: "Load E c w1 = (Ret v', w2)"
  shows "v' = v \<and> (\<exists>st. w_state w = Some st \<and> (\<forall>k. k \<noteq> keyOf st \<longrightarrow> content (w_ext w2) k = content (w_ext w) k))"
proof -
  have rs: "redis_store E content" using laws by unfold_locales
  have "v' = v" using redis_store.save_then_load [OF rs \<open>cacheable v\<close> save load] .
  moreover obtain st where "w_state w = Some st" "\<forall>k. k \<noteq> keyOf st \<longrightarrow> content (w_ext w1) k = content (w_ext w) k"
    using Save_cached(2) [OF laws \<open>cacheable v\<close> save] by blast
  moreover have "content (w_ext w2) = content (w_ext w1)" using Load_cached(3) [OF laws load] .
  ultimately show ?thesis by simp
qed

theorem save_then_load_witness:
  "fst (Load memExternal demoCache (demoAt demoListed demoPaid [] demoConsumer demoBus [])) = Ret demoPaid
   \<and> (\<exists>st. w_state (demoAt demoListed demoBooked [] demoConsumer demoBus []) = Some st
      \<and> (\<forall>k. k \<noteq> keyOf st \<longrightarrow> mem_store (w_ext (demoAt demoListed demoPaid [] demoConsumer demoBus [])) k
           = mem_store (w_ext (demoAt demoListed demoBooked [] demoConsumer demoBus [])) k))"
proof -
  have key: "RedisKey demoListed = demoKey" and ok: "cacheable demoPaid"
    by (simp_all add: demoListed_def demoConnected_def demoPaid_def demoBooked_def demoBooking_def)
  show ?thesis
    using save_then_load [OF mem_laws ok demo_Save [OF key ok] demo_Load [OF key ok], of demoBooked "[]" demoConsumer demoBus "[]"]
      key ok by simp
qed

text \<open>
  SyncStateCache copies the guest id and, when the journey has one, the guest of the in-memory
  state into the cache entry and leaves its booking and its invoice alone; it succeeds only with a
  guest id.
\<close>

theorem sync_refreshes_guest:
  assumes "redisLaws E content" and "SyncStateCache E (Some (Some c)) w = (Ret (), w')"
    and "cached content w = Some v" and "cacheable v"
  shows "\<exists>st v'. w_state w = Some st \<and> GuestId st \<noteq> [] \<and> cached content w' = Some v'
    \<and> GuestID v' = GuestId st \<and> Booking v' = Booking v \<and> Invoice v' = Invoice v
    \<and> PersonalInfo v' = (case StGuest st of None \<Rightarrow> PersonalInfo v | Some g \<Rightarrow> Some g)"
proof -
  have "redis_store E content" using assms(1) by unfold_locales
  from redis_store.sync_cached [OF this assms(2)] assms(3,4) obtain st where
    "w_state w = Some st" "GuestId st \<noteq> []" "cached content w' = Some (synced st v)" by auto
  then show ?thesis by (auto simp: synced_def split: option.splits)
qed

theorem sync_refreshes_guest_witness:
  "\<exists>st v'. w_state (demoAt demoListed demoBooked [] demoConsumer demoBus []) = Some st
    \<and> cached mem_store (snd (SyncStateCache memExternal (Some (Some demoCache)) (demoAt demoListed demoBooked [] demoConsumer demoBus []))) = Some v'
    \<and> GuestID v' = GuestId st \<and> Booking v' = Booking demoBooked"
proof -
  let ?w = "demoAt demoListed demoBooked [] demoConsumer demoBus []"
  have key: "RedisKey demoListed = demoKey" "GuestId demoListed = ''g1''" "StGuest demoListed = Some demoGuest"
    "GuestID demoBooked = ''g1''" "PersonalInfo demoBooked = Some demoGuest" and ok: "cacheable demoBooked"
    by (simp_all add: demoListed_def demoConnected_def demoRegistered_def demoCreated_def demoBooked_def demoBooking_def demoKnown_def demoFresh_def)
  have run: "SyncStateCache memExternal (Some (Some demoCache)) ?w = (Ret (), ?w)"
    using key ok by (simp add: demo_sync)
  have "cached mem_store ?w = Some demoBooked"
    using Load_cached(1) [OF mem_laws demo_Load [OF key(1) ok]] .
  from sync_refreshes_guest [OF mem_laws run this ok] run show ?thesis by auto
qed

text \<open>
  Every operation of the state cache service answers a journey with no state, a missing service
  or a service with no cache by an error, and changes nothing.
\<close>

theorem service_refuses:
  assumes "w_state w = None \<or> Option.bind svc id = None"
    and "operation \<in> {InitializeStateCache E svc, SyncStateCache E svc, LogStateCache E svc, DeleteStateCache E svc}"
  shows "\<exists>msg. operation w = (Err (Errorf msg), w)"
  using assms service_guards(1) [of w operation E svc] service_guards(2) [of w _ svc operation E] by (cases "w_state w") auto

theorem service_refuses_witness:
  "\<exists>msg. DeleteStateCache memExternal (Some None) demoWorld = (Err (Errorf msg), demoWorld)"
  using service_refuses [of demoWorld "Some None" "DeleteStateCache memExternal (Some None)" memExternal] by simp

text \<open>
  The cache key is chosen once: after EnsureKey has returned a key, changing the guest id of the
  state does not change what EnsureKey answers.
\<close>

theorem key_is_stable:
  assumes "EnsureKey w = (Ret key, w')" and "w_state w' = Some s"
  shows "key \<noteq> [] \<and> EnsureKey (w'\<lparr>w_state := Some (s\<lparr>GuestId := gid\<rparr>)\<rparr>) = (Ret key, w'\<lparr>w_state := Some (s\<lparr>GuestId := gid\<rparr>)\<rparr>)"
proof (rule EnsureKey_Ret [OF assms(1)])
  fix t
  assume "key \<noteq> []" and "w' = w\<lparr>w_state := Some (t\<lparr>RedisKey := key\<rparr>)\<rparr>"
  with assms(2) have "RedisKey s = key" by auto
  with \<open>key \<noteq> []\<close> show ?thesis by (simp add: EnsureKey_def)
qed

theorem key_is_stable_witness:
  "EnsureKey (demoWorld\<lparr>w_state := Some (demoCreated\<lparr>GuestId := ''g1''\<rparr>)\<rparr>) =
     (Ret demoKey, demoWorld\<lparr>w_state := Some (demoCreated\<lparr>GuestId := ''g1''\<rparr>)\<rparr>)"
proof -
  have "EnsureKey (demoWorld\<lparr>w_state := Some demoCreated\<rparr>) = (Ret demoKey, demoWorld\<lparr>w_state := Some demoCreated\<rparr>)"
    by (simp add: EnsureKey_def) (simp add: demoKey_def)
  from key_is_stable [OF this, of demoCreated "''g1''"] show ?thesis by simp
qed

text \<open>
  The generic set of the bus is a set: whatever order Go iterates the map in, Values lists every
  member once, and Add and Remove insert and delete exactly the given element.
\<close>

theorem subscriber_set:
  assumes "setInv s" and "iterationOrder o1" and "iterationOrder o2"
  shows "mset (Values o1 s) = mset (Values o2 s) \<and> distinct (Values o1 (Add x s))
    \<and> set (Values o1 (Add x s)) = insert x (set (Values o2 s))
    \<and> set (Values o1 (Remove x s)) = set (Values o2 s) - {x} \<and> setInv (Add x s) \<and> setInv (Remove x s)"
  using gs.order_irrelevant [OF assms] gs.vals_spec [OF assms(1,3)] gs.vals_spec [OF gs.inv_add [OF assms(1)] assms(2)]
    gs.vals_spec [OF gs.inv_remove [OF assms(1)] assms(2)] gs.elems_add [OF assms(1)] gs.elems_remove [OF assms(1)]
    gs.inv_add [OF assms(1)] gs.inv_remove [OF assms(1)]
  by simp

theorem subscriber_set_witness:
  "set (Values rev (Remove (2 :: nat) (Add 1 (Add 2 NewSet)))) = {1}"
proof -
  have rev: "iterationOrder rev" "iterationOrder id" by (auto simp: iterationOrder_def)
  have "setInv (Add (1 :: nat) (Add 2 NewSet))" by (intro gs.inv_add gs.inv_new)
  from subscriber_set [OF this rev, of 2] show ?thesis
    by (simp add: Values_def Add_def NewSet_def)
qed

end
