(* ===== verification/Flow_properties.thy ===== *)
theory Flow_properties
  imports Demo
begin

text \<open>
  What the flows promise: the step graph and its random choice, registration, the search for
  a stay, booking and payment. Each theorem is applied to the computed journey of theory
  \<open>Demo\<close>.
\<close>

section \<open>The step graph\<close>

text \<open>
  C30. In exact arithmetic the weighted random choice gives a value exactly when the random number times the
  total falls into the share of an item with that value: above the sum of the positive weights before
  the item, or anywhere up to its weight for the first positive one (so for the random number 0 too),
  and up to the sum that includes the item. When no weight is positive the last item is taken.
\<close>

theorem weighted_choice:
  assumes "0 \<le> u" and "u < 1" and "list \<noteq> []"
  shows "pickWeighted id u list = Some v \<longleftrightarrow>
    (if \<exists>item \<in> set list. 0 < Weight item
     then \<exists>i < length list. Value (list ! i) = v \<and> 0 < Weight (list ! i)
       \<and> (posSum (take i list) < u * posSum list \<or> posSum (take i list) = 0)
       \<and> u * posSum list \<le> posSum (take (Suc i) list)
     else v = Value (last list))"
proof (cases "\<exists>item \<in> set list. 0 < Weight item")
  case True
  then have "u * posSum list \<le> posSum list" "0 < posSum list"
    using assms by (simp_all add: posSum_pos mult_left_le_one_le posSum_nonneg)
  then have "pickLoop id (u * posSum list) list \<noteq> None" by (intro pickLoop_finds)
  then have "pickWeighted id u list = pickLoop id (u * posSum list) list"
    by (auto simp: pickWeighted_def weightTotal_exact)
  with True show ?thesis by (auto simp: pickLoop_exact inShare_def)
next
  case False
  then have "pickLoop id t list = None" for t
    using pickLoop_in [of id t list] by (cases "pickLoop id t list") auto
  with False assms show ?thesis by (auto simp: pickWeighted_def)
qed

theorem weighted_choice_witness:
  "pickWeighted id (7/10) (the (bookingMap SelectPeriod)) = Some BookCottage
   \<and> pickWeighted id 0 (the (bookingMap SelectPeriod)) = Some SelectPeriod"
  using weighted_choice [of "7/10" "the (bookingMap SelectPeriod)" BookCottage]
    weighted_choice [of 0 "the (bookingMap SelectPeriod)" SelectPeriod]
  by (auto simp: Ex_less_Suc2 numeral_eq_Suc)

text \<open>
  The bound of the step loop is only a bound: a run of the booking flow that ends within n
  rounds is the same run for every larger bound.
\<close>

theorem flow_fuel:
  assumes "fst (BookingFlow_Start E C n w) \<noteq> Blocks" and "n \<le> m"
  shows "BookingFlow_Start E C m w = BookingFlow_Start E C n w"
  using stepLoop_fuel [where k = "m - n" and n = n] assms
  by (simp add: BookingFlow_Start_def runStepGraph_def noopStep_Execute_def Let_def)

theorem flow_fuel_witness:
  "BookingFlow_Start memExternal (Some demoCache) 100 (demoAt demoConnected demoKnown [0, 0, 7/10] demoConsumer demoBus [])
   = (Ret (), demoAt demoListed demoBooked [] demoConsumer demoBus [])"
  using flow_fuel [of memExternal "Some demoCache" 6 "demoAt demoConnected demoKnown [0, 0, 7/10] demoConsumer demoBus []" 100]
    demo_booking by simp

text \<open>
  C28. With services that answer, registration ends within three rounds and payment within two,
  whatever they answer and whatever is drawn: neither flow can hang.
\<close>

theorem flows_return:
  assumes "responsive E"
  shows "noBlock (GuestRegisterFlow_Start E C 3) \<and> noBlock (PaymentFlow_Start E C 2)"
  by (intro conjI register_flow_returns payment_flow_returns assms) simp_all

theorem flows_return_witness:
  "fst (PaymentFlow_Start (memExternal\<lparr>httpDo := (\<lambda>q x. (demoHttp q, x))\<rparr>) None 2 demoWorld) \<noteq> Blocks"
proof -
  have "responsive (memExternal\<lparr>httpDo := (\<lambda>q x. (demoHttp q, x))\<rparr>)"
    by (auto simp: responsive_def memExternal_def demoHttp_def split: option.splits)
  from flows_return [OF this] show ?thesis unfolding noBlock_def by blast
qed

text \<open>
  A cancelled context is no error to the step loop: registration, booking and payment, started
  under it, return nil and have done nothing.
\<close>

theorem cancelled_flow_ends:
  assumes "ctxErr E (w_ext w) = (Some e, x)"
  shows "GuestRegisterFlow_Start E C (Suc n) w = (Ret (), w\<lparr>w_ext := x\<rparr>)
    \<and> BookingFlow_Start E C (Suc n) w = (Ret (), w\<lparr>w_ext := x\<rparr>)
    \<and> PaymentFlow_Start E C (Suc n) w = (Ret (), w\<lparr>w_ext := x\<rparr>)"
  unfolding GuestRegisterFlow_Start_def BookingFlow_Start_def PaymentFlow_Start_def runStepGraph_def noopStep_Execute_def Let_def
  by (simp del: stepLoop.simps add: stepLoop_cancelled [OF assms])

theorem cancelled_flow_ends_witness:
  "PaymentFlow_Start (memExternal\<lparr>ctxErr := (\<lambda>x. (Some ContextCanceled, x))\<rparr>) None 2 demoWorld = (Ret (), demoWorld)"
  using cancelled_flow_ends [of "memExternal\<lparr>ctxErr := (\<lambda>x. (Some ContextCanceled, x))\<rparr>" demoWorld ContextCanceled "w_ext demoWorld" None 1]
  by (simp add: numeral_2_eq_2)

section \<open>Registration\<close>

text \<open>
  C25. When registration returns without an error and the context was not cancelled: the id in the
  journey state is not empty, it is the id the guest service answered to the POST of the guest, the
  service answered the GET of this id without an error, and the cache entry holds the same id and
  the guest as it was made, booking and invoice unchanged.
\<close>

theorem registration:
  assumes "redisLaws E content" and "neverCancelled E" and "cached content w = Some v" and "cacheable v"
    and "PersonalInfo v = Some guest" and "GuestRegisterFlow_Start E (Some c) fuel w = (Ret (), w')"
  shows "\<exists>st guestId v' x resp x'. w_state w' = Some st \<and> GuestId st = guestId \<and> guestId \<noteq> [] \<and> StGuest st = Some guest
    \<and> httpDo E (registerRequest guest) x = (Ret resp, x') \<and> \<not> IsError resp
    \<and> Option.bind (rs_body resp) unmarshalGuestId = Some guestId \<and> knownId E guestId
    \<and> cached content w' = Some v' \<and> GuestID v' = guestId \<and> PersonalInfo v' = Some guest
    \<and> Booking v' = Booking v \<and> Invoice v' = Invoice v"
proof -
  have "initialised content (guest, Booking v, Invoice v) w" using assms(3-5) by (simp add: initialised_def)
  then have "registered E content (guest, Booking v, Invoice v) w'" "withGuestId E w'"
    using live_store.register_flow_end [OF live_storeI [OF assms(1,2)]] assms(6) by blast+
  then show ?thesis unfolding registered_def withGuestId_def givenId_def by force
qed

lemma demo_cached: "RedisKey st = demoKey \<Longrightarrow> cacheable v \<Longrightarrow> cached mem_store (demoAt st v fl r b as) = Some v"
  using Load_cached(1) [OF mem_laws demo_Load] .

theorem registration_witness:
  "\<exists>x resp x'. httpDo memExternal (registerRequest demoGuest) x = (Ret resp, x')
    \<and> Option.bind (rs_body resp) unmarshalGuestId = Some (GuestId demoRegistered)"
proof -
  have "PersonalInfo demoFresh = Some demoGuest" "cacheable demoFresh" "RedisKey demoCreated = demoKey"
    by (simp_all add: demoFresh_def zeroCacheValue_def cacheable_def)
  with registration [OF mem_laws mem_live demo_cached _ _ demo_register] show ?thesis by fastforce
qed

section \<open>The search for a stay\<close>



text \<open>
  C10. The search over cottages, windows and numbers of nights misses nothing: it comes back empty
  only when no free period of any cottage in any window has room for the shortest stay, and
  otherwise its first candidate is one of the nearest stays, of which there is at most one for each
  cottage and window, and ranks before all of them; for a service whose answers do not change meanwhile.
\<close>

theorem search_is_exhaustive:
  assumes free: "availability E now free" and st: "w_state w = Some st"
  shows "\<exists>cs x'. collectStayCandidates E True now (sort numberOfNights) w = (Ret cs, w\<lparr>w_ext := x'\<rparr>)
    \<and> (cs = [] \<longleftrightarrow> (\<forall>ct \<in> set (cottageList st). \<forall>d \<in> set searchWindows. \<forall>p \<in> set (free ct d). \<not> fits now 3 p))
    \<and> (cs \<noteq> [] \<longrightarrow> hd cs \<in> set (stays free now (sort numberOfNights) (cottageList st))
          \<and> (\<forall>c \<in> set (stays free now (sort numberOfNights) (cottageList st)). stayRank (hd cs) \<le> stayRank c))"
proof -
  let ?all = "stays free now (sort numberOfNights) (cottageList st)"
  obtain x' where run: "collectStayCandidates E True now (sort numberOfNights) w =
      (Ret (uniqueStayCandidates (SliceStable stayLess ?all)), w\<lparr>w_ext := x'\<rparr>)"
    using collectStayCandidates_stays [OF assms] by blast
  have utc: "\<forall>c \<in> set ?all. off (Start (period c)) = 0" using stays_midnight goodStay_UTC by blast
  let ?cs = "uniqueStayCandidates (SliceStable stayLess ?all)"
  have "length (SliceStable stayLess ?all) = length ?all" by (simp add: SliceStable_stay [OF utc])
  then have "?cs = [] \<longleftrightarrow> ?all = []" by auto
  moreover have "hd ?cs \<in> set ?all \<and> (\<forall>c \<in> set ?all. stayRank (hd ?cs) \<le> stayRank c)" if nonempty: "?all \<noteq> []"
  proof -
    obtain best rest where "?cs = best # rest" "best \<in> set ?all" "\<forall>c \<in> set ?all. stayRank best \<le> stayRank c"
      using best_first [OF utc nonempty] by blast
    then show ?thesis by simp
  qed
  ultimately show ?thesis
    by (intro exI [of _ ?cs] exI [of _ x'] conjI) (simp_all add: run stays_empty)
qed

definition demoSearch :: "Mem External" where
  "demoSearch = memExternal\<lparr>httpDo := (\<lambda>_ x. (demoHttp (availableRequest ''Pine'' (mem_now memStart) 3), x))\<rparr>"

theorem search_is_exhaustive_witness:
  "\<exists>cs x'. collectStayCandidates demoSearch True (mem_now memStart) (sort numberOfNights)
     (demoAt demoListed demoKnown [] demoConsumer demoBus []) = (Ret cs, (demoAt demoListed demoKnown [] demoConsumer demoBus [])\<lparr>w_ext := x'\<rparr>) \<and> cs \<noteq> []"
proof -
  have "availability demoSearch (mem_now memStart) (\<lambda>_ _. [demoFree])"
    by (simp add: availability_def demoSearch_def availableRequest_def demoHttp_def IsError_def unmarshalAvailable_def
      availableFields_def lookupField_def decSlice_def periodDTOFields_def decTime_def demo_times ToPeriods_def Let_def)
  from search_is_exhaustive [OF this, of "demoAt demoListed demoKnown [] demoConsumer demoBus []"]
  obtain cs x' where "collectStayCandidates demoSearch True (mem_now memStart) (sort numberOfNights)
     (demoAt demoListed demoKnown [] demoConsumer demoBus []) = (Ret cs, (demoAt demoListed demoKnown [] demoConsumer demoBus [])\<lparr>w_ext := x'\<rparr>)"
    and e: "cs = [] \<longleftrightarrow> (\<forall>ct \<in> set (cottageList demoListed). \<forall>d \<in> set searchWindows. \<not> fits (mem_now memStart) 3 demoFree)"
    by auto
  moreover have "fits (mem_now memStart) 3 demoFree" by code_simp
  moreover have "cottageList demoListed = [''Pine'']" "searchWindows \<noteq> []"
    by (simp_all add: demoListed_def cottageList_def searchWindows_def)
  ultimately show ?thesis by (auto simp: neq_Nil_conv)
qed

text \<open>
  Removing duplicate candidates by their printed key keeps one candidate of each cottage and
  period and loses none.
\<close>

theorem unique_candidates:
  assumes "\<forall>c \<in> set cs. printable (Start (period c)) \<and> printable (End (period c))"
  shows "distinct (map (\<lambda>c. (cottageName c, period c)) (uniqueStayCandidates cs))
    \<and> (\<lambda>c. (cottageName c, period c)) ` set (uniqueStayCandidates cs) = (\<lambda>c. (cottageName c, period c)) ` set cs"
proof -
  let ?u = "uniqueStayCandidates cs" and ?k = "\<lambda>c. (cottageName c, period c)"
  have sub: "set ?u \<subseteq> set cs" using uniqueLoop_subset by (auto simp: uniqueStayCandidates_def)
  have inj: "stayKey a = stayKey b \<longleftrightarrow> ?k a = ?k b" if "a \<in> set cs" "b \<in> set cs" for a b
    using stayKey_inject [of a b] assms that by simp
  have keys: "distinct (map stayKey ?u)" "stayKey ` set ?u = stayKey ` set cs"
    by (simp_all add: uniqueStayCandidates_def uniqueLoop_keys)
  have "distinct (map ?k ?u)"
    using keys(1) sub inj unfolding distinct_map inj_on_def by (metis (no_types, lifting) in_mono)
  moreover have "?k ` set cs \<subseteq> ?k ` set ?u"
  proof
    fix z assume "z \<in> ?k ` set cs"
    then obtain a where a: "a \<in> set cs" "z = ?k a" by blast
    then obtain b where "b \<in> set ?u" "stayKey b = stayKey a" using keys(2) by (metis (no_types, opaque_lifting) imageE imageI)
    with a sub inj show "z \<in> ?k ` set ?u" by (metis (mono_tags, lifting) imageI subsetD)
  qed
  ultimately show ?thesis using sub by blast
qed

theorem unique_candidates_witness:
  "distinct (map (\<lambda>c. (cottageName c, period c)) (uniqueStayCandidates [demoStay, demoStay]))"
proof -
  have "printable (Start demoPeriod)" "printable (End demoPeriod)" by code_simp+
  then show ?thesis using unique_candidates [of "[demoStay, demoStay]"] by (simp add: demoStay_def)
qed


section \<open>Booking\<close>

text \<open>
  C27. SelectPeriod writes one cottage of the list and a period into the booking of the cache and
  changes nothing else there; the period starts at midnight, no earlier than the fifth day from now,
  and is three nights long.
\<close>

theorem selected_stay:
  assumes laws: "redisLaws E content" and run: "SelectPeriodStep_Execute E client (Some c) w = (Ret (), w')"
  shows "\<exists>now st v b cottage p. w_state w = Some st \<and> fst (clockNow E (w_ext w)) = Ret now
    \<and> cached content w = Some v \<and> Booking v = Some b \<and> cottage \<in> set (cottageList st)
    \<and> cached content w' = Some (v\<lparr>Booking := Some (b\<lparr>SelectedCottage := cottage, SelectedPeriod := Some p\<rparr>)\<rparr>)
    \<and> midnight (Start p) \<and> End p = AddDate (Start p) 0 0 3 \<and> ns (startOfUTCDay now) + 5 * DayNs \<le> ns (Start p)"
proof -
  from SelectPeriodStep_establishes [OF laws run] obtain now st v b best where
    *: "w_state w = Some st" "fst (clockNow E (w_ext w)) = Ret now" "cached content w = Some v" "Booking v = Some b"
      "offeredBy E now (sort numberOfNights) (cottageList st) best"
      "cached content w' = Some (v\<lparr>Booking := Some (chosen best b)\<rparr>)" by blast
  have "goodStay now (period best)" "cottageName best \<in> set (cottageList st)" using offeredBy_goodStay [OF *(5)] by blast+
  moreover have "ns (searchStart now) = ns (startOfUTCDay now) + 5 * DayNs"
    by (simp add: searchStart_ns startOfUTCDay_ns distrib_right)
  ultimately show ?thesis
    using * by (intro exI [of _ now] exI [of _ st] exI [of _ v] exI [of _ b] exI [of _ "cottageName best"] exI [of _ "period best"])
      (simp add: goodStay_def chosen_def)
qed

abbreviation demoChoosing :: GuestJourneyCacheValue where
  "demoChoosing \<equiv> demoKnown\<lparr>Booking := Some (zeroBooking\<lparr>SelectedCottage := ''Pine''\<rparr>)\<rparr>"

lemma demo_select: "SelectPeriodStep_Execute memExternal True (Some demoCache) (demoAt demoListed demoChoosing fl r b as) =
    (Ret (), demoAt demoListed (demoKnown\<lparr>Booking := Some (demoBooking\<lparr>BookingID := []\<rparr>)\<rparr>) fl r b as)"
proof -
  have cottages: "cottageList demoListed = [''Pine'']" "RedisKey demoListed = demoKey"
    by (simp_all add: demoListed_def demoConnected_def cottageList_def)
  show ?thesis
    by (simp add: demo_run SelectPeriodStep_Execute_def demo_collect maxPeriodAttempts_def cottages demoBooking_def demoStay_def zeroBooking_def)
qed

theorem selected_stay_witness:
  "\<exists>v b p. cached mem_store (snd (SelectPeriodStep_Execute memExternal True (Some demoCache) (demoAt demoListed demoChoosing [] demoConsumer demoBus [])))
     = Some (v\<lparr>Booking := Some (b\<lparr>SelectedCottage := ''Pine'', SelectedPeriod := Some p\<rparr>)\<rparr>) \<and> midnight (Start p)"
proof -
  have "cottageList demoListed = [''Pine'']" by (simp add: demoListed_def cottageList_def)
  with selected_stay [OF mem_laws demo_select, of "[]" demoConsumer demoBus "[]"] show ?thesis
    by (auto simp: demo_select)
qed

text \<open>
  C8. Along every path of the booking graph, repeated and revisited steps and a cancellation between two
  steps included: when the flow returns without an error the guest is the one it started with, and if
  the cached booking has an id (the graph may end without booking), then its cottage and period were
  found together by one search over the answers of the availability service, and the id is the
  service's answer to the request that books this cottage for this period in the guest's name.
\<close>

theorem booking_is_consistent:
  assumes "redisLaws E content" and "cached content w = Some v" and "cacheable v"
    and "\<forall>b. Booking v = Some b \<longrightarrow> BookingID b = []"
    and "BookingFlow_Start E (Some c) fuel w = (Ret (), w')"
  shows "\<exists>v'. cached content w' = Some v'
    \<and> GuestID v' = GuestID v \<and> PersonalInfo v' = PersonalInfo v \<and> Invoice v' = Invoice v
    \<and> (\<forall>b. Booking v' = Some b \<and> BookingID b \<noteq> [] \<longrightarrow>
          SelectedCottage b \<noteq> [] \<and> foundTogether E b \<and> confirmedBy E (PersonalInfo v) b)"
proof -
  have "journeyHas content (identity v) unbooked w" using assms(2-4) by (auto simp: journeyHas_def unbooked_def)
  then have "journeyHas content (identity v) (consistent E (identity v)) w'"
    using redis_store.booking_flow_end [OF redis_store.intro [OF assms(1)]] assms(5) by blast
  then show ?thesis unfolding journeyHas_def consistent_def identity_def by fastforce
qed

theorem booking_is_consistent_witness:
  "BookingID demoBooking \<noteq> [] \<and> foundTogether memExternal demoBooking \<and> confirmedBy memExternal (Some demoGuest) demoBooking"
proof -
  have key: "RedisKey demoConnected = demoKey" "RedisKey demoListed = demoKey" by (simp_all add: demoConnected_def demoListed_def)
  have known: "PersonalInfo demoKnown = Some demoGuest" "Booking demoKnown = None" "cacheable demoKnown"
    by (simp_all add: demoKnown_def demoFresh_def zeroCacheValue_def cacheable_def)
  have booked: "Booking demoBooked = Some demoBooking" "BookingID demoBooking \<noteq> []" "cacheable demoBooked"
    by (simp_all add: demoBooked_def demoBooking_def)
  show ?thesis
    using booking_is_consistent [OF mem_laws demo_cached [OF key(1) known(3)] known(3) _ demo_booking]
      demo_cached [OF key(2) booked(3)] known booked by force
qed

text \<open>
  BookCottage never books twice: with a booking id in the cache it fails right after the load,
  without a request to the service.
\<close>

theorem books_once:
  assumes load: "Load E c w = (Ret v, w1)" and "Booking v = Some b" and "BookingID b \<noteq> []"
  shows "\<exists>e. BookCottageStep_Execute E client (Some c) w = (Err e, w1)"
  using assms
  by (auto simp: BookCottageStep_Execute_def onCache_def bindE_run(1) [where m = "Load E c", OF load] split: option.splits)

theorem books_once_witness:
  "\<exists>e. BookCottageStep_Execute memExternal True (Some demoCache) (demoAt demoListed demoBooked [] demoConsumer demoBus [])
     = (Err e, demoAt demoListed demoBooked [] demoConsumer demoBus [])"
proof -
  have "RedisKey demoListed = demoKey" "cacheable demoBooked" "Booking demoBooked = Some demoBooking" "BookingID demoBooking \<noteq> []"
    by (simp_all add: demoListed_def demoConnected_def demoBooked_def demoBooking_def)
  then show ?thesis using books_once [OF demo_Load] by simp
qed

text \<open>
  With a list of cottages that is missing, Validate of SelectCottage passes and Execute panics
  in rand.Intn.
\<close>

theorem no_cottages_panics:
  assumes "w_state w = Some st" and "CottageNames st = None"
  shows "SelectCottageStep_Validate (Some c) w = (Ret (), w)
    \<and> SelectCottageStep_Execute E (Some c) w = (Panics ''invalid argument to Intn'', w)"
  using assms
  by (simp add: SelectCottageStep_Validate_def SelectCottageStep_Execute_def cottageList_def Intn_def bindE_run(1) [OF deref_run])

theorem no_cottages_panics_witness:
  "SelectCottageStep_Execute memExternal (Some demoCache) demoWorld = (Panics ''invalid argument to Intn'', demoWorld)"
  using no_cottages_panics [of demoWorld zeroState demoCache memExternal] by (simp add: demoWorld_def zeroState_def)

section \<open>Payment\<close>

text \<open>
  C26. When the payment flow returns without an error and the context was not cancelled: the cached journey
  had a guest, a booking with id, cottage and period, and an invoice; the card payment for the
  number of this invoice in the guest's name was posted to the payment service, which answered that it
  succeeded; and the cache differs only in the receipt number of the invoice, which is the answered one.
\<close>

theorem payment_is_receipted:
  assumes "redisLaws E content" and "neverCancelled E" and "cached content w = Some v" and "cacheable v"
    and "PaymentFlow_Start E (Some c) fuel w = (Ret (), w')"
  shows "\<exists>guest b i x resp x' pay. PersonalInfo v = Some guest \<and> Invoice v = Some i \<and> InvoiceNumber i \<noteq> []
    \<and> Booking v = Some b \<and> BookingID b \<noteq> [] \<and> SelectedCottage b \<noteq> [] \<and> SelectedPeriod b \<noteq> None
    \<and> httpDo E (payRequest guest (InvoiceNumber i)) x = (Ret resp, x') \<and> \<not> IsError resp
    \<and> Option.bind (rs_body resp) unmarshalPayResponse = Some pay \<and> pw_Status pay = ''PAYMENT_STATUS_SUCCEEDED''
    \<and> cached content w' = Some (v\<lparr>Invoice := Some (i\<lparr>ReceiptNumber := pw_ReceiptNumber pay\<rparr>)\<rparr>)"
  using live_store.payment_flow_end [OF live_storeI [OF assms(1,2)] assms(3-5)]
  unfolding paidWith_def payChecks_Inr by fast

theorem payment_is_receipted_witness:
  "\<exists>i (pay :: PayWithCardResponse). Invoice demoInvoiced = Some i \<and> pw_Status pay = ''PAYMENT_STATUS_SUCCEEDED''
    \<and> demoPaid = demoInvoiced\<lparr>Invoice := Some (i\<lparr>ReceiptNumber := pw_ReceiptNumber pay\<rparr>)\<rparr>"
proof -
  have ok: "RedisKey demoListed = demoKey" "cacheable demoInvoiced" "cacheable demoPaid"
    by (simp_all add: demoListed_def demoConnected_def demoInvoiced_def demoBooked_def demoBooking_def demoPaid_def)
  obtain i and pay :: PayWithCardResponse where "Invoice demoInvoiced = Some i" "pw_Status pay = ''PAYMENT_STATUS_SUCCEEDED''"
    "cached mem_store (demoAt demoListed demoPaid [] demoConsumer demoBus []) = Some (demoInvoiced\<lparr>Invoice := Some (i\<lparr>ReceiptNumber := pw_ReceiptNumber pay\<rparr>)\<rparr>)"
    using payment_is_receipted [OF mem_laws mem_live demo_cached [OF ok(1,2)] ok(2) demo_payment [of demoConsumer demoBus "[]"]] by blast
  then show ?thesis using demo_cached [OF ok(1,3)] by (intro exI [of _ i] exI [of _ pay]) simp
qed

text \<open>
  Payment checks the whole cached context before it sends anything: a cache value that fails a
  check gives that check's error, with nothing changed after the load.
\<close>

theorem payment_checks_first:
  assumes valid: "PayInvoiceStep_Validate client (Some c) w = (Ret (), w)" and load: "Load E c w = (Ret v, w1)"
    and "payChecks v = Inl e"
  shows "PayInvoiceStep_Execute E client (Some c) w = (Err e, w1)"
  using assms(3) by (simp add: PayInvoiceStep_Execute_def thenE_run [where m = "PayInvoiceStep_Validate client (Some c)", OF valid] onCache_def
    bindE_run(1) [where m = "Load E c", OF load])

theorem payment_checks_first_witness:
  "PayInvoiceStep_Execute memExternal True (Some demoCache) (demoAt demoListed demoBooked [] demoConsumer demoBus [])
     = (Err (Errorf ''invalid cached invoice context''), demoAt demoListed demoBooked [] demoConsumer demoBus [])"
proof -
  have ok: "RedisKey demoListed = demoKey" "cacheable demoBooked" "GuestId demoListed = ''g1''"
    by (simp_all add: demoListed_def demoConnected_def demoBooked_def demoBooking_def)
  have "payChecks demoBooked = Inl (Errorf ''invalid cached invoice context'')"
    by (simp add: payChecks_def demoBooked_def demoBooking_def demoKnown_def demoFresh_def zeroCacheValue_def)
  moreover have "PayInvoiceStep_Validate True (Some demoCache) (demoAt demoListed demoBooked [] demoConsumer demoBus [])
      = (Ret (), demoAt demoListed demoBooked [] demoConsumer demoBus [])"
    using ok by (simp add: PayInvoiceStep_Validate_def)
  ultimately show ?thesis using payment_checks_first [OF _ demo_Load [OF ok(1,2)]] by blast
qed

end
