(* ===== verification/Sharedhub.thy ===== *)
theory Sharedhub
  imports Completion
begin

text \<open>
  The hub of hour events is shared by the event service, all journeys and the goroutines they
  start (internal/app/services). Whatever a journey and the goroutines beside it do, the hub only takes steps
  of the step relation of theory \<open>Timeevents\<close>, so that its invariant holds in every run; and the
  goroutines a stay has started end after it, and give their subscriptions back. The same is shown of the
  bus of a journey and the step relation of theory \<open>Communication\<close>.
\<close>

subsection \<open>Journeys take steps of the hub\<close>

definition reachable :: "'x System \<Rightarrow> 'x JWorld \<Rightarrow> bool" where
  "reachable S w \<longleftrightarrow> hubReach (mapOrder (sysR S)) (sysTime S) (hub w)"

lemma reachable_cong: "hub w' = hub w \<Longrightarrow> reachable S w' = reachable S w"
  by (simp add: reachable_def)

lemma reachable_step: "reachable S w \<Longrightarrow> hubStep (mapOrder (sysR S)) (sysTime S) (hub w) h \<Longrightarrow> reachable S (w\<lparr>hub := h\<rparr>)"
  by (auto simp: reachable_def intro: hubReach.step)

text \<open>A step of another goroutine is a step of the hub, or leaves it alone.\<close>

lemma envStep_hub:
  "hub (envStep S a w) = hub w \<or> hubStep (mapOrder (sysR S)) (sysTime S) (hub w) (hub (envStep S a w))"
proof (cases a)
  case (ReadFrame f)
  then show ?thesis
    by (cases "readFrame (sysN S) f (chat w)") (simp add: Let_def sendAck_frame split: option.splits)
qed (auto simp: whenCancelled_def split: prod.splits option.splits intro: hubStep.intros)

lemma reachable_env: "reachable S w \<Longrightarrow> reachable S (envStep S a w)"
  using envStep_hub [of S a w] by (auto simp: reachable_def intro: hubReach.step)

lemma reachable_calls [go_keeps]: "keeps (reachable S) (ext f)" "keeps (reachable S) (extV g)" "keeps (reachable S) (setState h)"
  by (auto intro!: keepsI simp: ext_Ret_iff extV_Ret_iff setState_def reachable_def split: option.splits)

lemma reachable_rabbit:
  assumes "\<And>w0. keeps (rabbitOnly w0) m"
  shows "keeps (reachable S) m"
proof (rule keepsI)
  fix w r w'
  assume "reachable S w" and run: "m w = (r, w')"
  then show "reachable S w'" using rabbitOnlyD(3) [OF assms run] by (simp add: reachable_def)
qed

lemma reachable_EnsureKey [go_keeps]: "keeps (reachable S) EnsureKey"
  by (auto intro!: keepsI dest!: EnsureKey_world simp: reachable_def)

interpretation hubLoop: loop_frame S "reachable S" for S
proof
  show "reachable S w \<Longrightarrow> reachable S (w\<lparr>hub := snd (spawnHourNotification hr (hub w))\<rparr>)" for hr and w :: "'a JWorld"
    by (erule reachable_step) (rule hubStep.spawn)
  show "reachable S w \<Longrightarrow> takeNotification i (hub w) = Some (t, h) \<Longrightarrow> reachable S (w\<lparr>hub := h\<rparr>)" for i t h and w :: "'a JWorld"
    by (erule reachable_step) (rule hubStep.taken)
qed (auto simp: reachable_def [of _ "_\<lparr>chat := _\<rparr>"] reachable_def [of _ "_\<lparr>sched := _\<rparr>"] reachable_def intro!: reachable_calls
  intro: reachable_env [unfolded reachable_def])

interpretation hubStay: stay_frame S "reachable S" for S
proof
  show "reachable S w \<Longrightarrow> reachable S (w\<lparr>hub := cancelNotifiers (hub w)\<rparr>)" for w :: "'a JWorld"
    by (erule reachable_step) (rule hubStep.flowEnds)
  show "keeps (reachable S) (chatWrite (sysN S) msg)" for msg unfolding chatWrite_def by (intro go_keeps)
qed (auto simp: reachable_cong [of "_\<lparr>chat := _\<rparr>"] intro!: reachable_calls reachable_EnsureKey hubLoop.chat_waits hubLoop.hour_wait)

interpretation hubJourney: journey_frame S "reachable S" "\<lambda>_. True" for S
  by unfold_locales
    (auto simp: reachable_cong [of "_\<lparr>bus := _\<rparr>"] intro!: keeps_cache reachable_calls reachable_EnsureKey hubLoop.loop hubLoop.preempted
      reachable_rabbit [OF rabbitOnly_ops(1)] reachable_rabbit [OF rabbitOnly_ops(2)] reachable_rabbit [OF rabbitOnly_ops(3)]
      reachable_rabbit [OF rabbitOnly_consumer(2)])

lemma reachable_journey: "keeps (reachable S) (Start_journey S G fuel)"
  unfolding Start_journey_def onErrorJoin_def journeyBody_def
  by (intro go_keeps hubJourney.prepare hubStay.stay hubJourney.cleanup)

lemma reachable_build: "keeps (reachable S) (buildGuestJourney S C cfg host port)"
proof (rule keepsI)
  fix w r w'
  assume w: "reachable S w" and run: "buildGuestJourney S C cfg host port w = (r, w')"
  have "keeps (reachable S) (NewRabbitmqConsumer (sysA S) cfg')" for cfg'
    by (rule reachable_rabbit) (auto simp: NewRabbitmqConsumer_def intro!: go_keeps)
  note this [go_keeps]
  have "keeps (reachable S) (buildGuestJourney S C cfg host port)"
    unfolding buildGuestJourney_def by (intro go_keeps) (auto simp: reachable_def)
  with w run show "reachable S w'" by (blast dest: keepsD)
qed

subsection \<open>Journeys and pumps take steps of the bus\<close>

abbreviation busReached :: "'x System \<Rightarrow> 'x JWorld \<Rightarrow> bool" where
  "busReached S w \<equiv> busReach (sysR S) (bus w)"

lemma busReached_calls [go_keeps]: "keeps (busReached S) (ext f)" "keeps (busReached S) (extV g)" "keeps (busReached S) (setState h)"
  by (auto intro!: keepsI simp: ext_Ret_iff extV_Ret_iff setState_def split: option.splits)

lemma busReached_rabbit:
  assumes "\<And>w0. keeps (rabbitOnly w0) m"
  shows "keeps (busReached S) m"
  using rabbitOnlyD(2) [OF assms] by (auto intro!: keepsI)

lemma busReached_EnsureKey [go_keeps]: "keeps (busReached S) EnsureKey"
  by (auto intro!: keepsI dest!: EnsureKey_world)

interpretation busLoop: loop_frame S "busReached S" for S
  by unfold_locales (auto intro!: busReached_calls intro: envStep_busReach)

interpretation busStay: stay_frame S "busReached S" for S
proof
  show "keeps (busReached S) (chatWrite (sysN S) msg)" for msg unfolding chatWrite_def by (intro go_keeps)
qed (auto intro!: busReached_calls busReached_EnsureKey busLoop.chat_waits busLoop.hour_wait)

interpretation busJourney: journey_frame S "busReached S" "\<lambda>_. True" for S
  by unfold_locales
    (auto intro!: keeps_cache busReached_calls busReached_EnsureKey busLoop.loop busLoop.preempted
      busReached_rabbit [OF rabbitOnly_ops(1)] busReached_rabbit [OF rabbitOnly_ops(2)] busReached_rabbit [OF rabbitOnly_ops(3)]
      busReached_rabbit [OF rabbitOnly_consumer(2)] intro: busReach.own)

lemma busReached_journey: "keeps (busReached S) (Start_journey S G fuel)"
  unfolding Start_journey_def onErrorJoin_def journeyBody_def
  by (intro go_keeps busJourney.prepare busStay.stay busJourney.cleanup)

lemma busReached_later: "busReached S w \<Longrightarrow> busReached S (fold (envStep S) later w)"
  by (induction later arbitrary: w) (simp_all add: envStep_busReach)

subsection \<open>The goroutines of a stay end\<close>

text \<open>When the flow of the stay has returned, the contexts of the journey's notifiers are done.\<close>

lemma flow_cancels:
  assumes "RunLodgingStayFlow S True url C w = (r, w')" and "r \<noteq> Blocks"
    and "i < length (notifiers (hub w'))" and "hn_mine (notifiers (hub w') ! i)"
  shows "contextDone i (hub w')"
proof -
  from assms(1,2) obtain v where "w' = v\<lparr>hub := cancelNotifiers (hub v)\<rparr>"
    by (auto simp: RunLodgingStayFlow_def cancelling_def split: prod.splits res.splits)
  with assms(3,4) show ?thesis by (auto simp: contextDone_def cancelNotifiers_def split: if_splits)
qed

text \<open>What every step of the hub leaves of a notifier: it stays cancelled, registered once and finished for good.\<close>

lemma hubStep_notifier:
  assumes "hubStep ord proto h h'" and "i < length (notifiers h)"
  shows "i < length (notifiers h') \<and> (hn_cancelled (notifiers h ! i) \<longrightarrow> hn_cancelled (notifiers h' ! i))
    \<and> (hn_pc (notifiers h ! i) \<noteq> NotRegistered \<longrightarrow> hn_pc (notifiers h' ! i) \<noteq> NotRegistered)
    \<and> (hn_pc (notifiers h ! i) = Finished \<longrightarrow> hn_pc (notifiers h' ! i) = Finished)"
  using assms
proof (cases rule: hubStep.cases)
  case notify
  then show ?thesis using assms(2) by (auto simp: hubNotify_def Let_def split: option.splits)
next
  case send
  then show ?thesis using assms(2) by (auto simp: hubSend_def split: option.splits list.splits)
next
  case (listen j)
  then show ?thesis using assms(2)
    by (auto simp: hourStep_def Let_def setNotifier_def makeChan_def Register_def nth_list_update split: HourPc.splits option.splits prod.splits)
next
  case (cancel j)
  then show ?thesis using assms(2) by (auto simp: hourCancel_def Let_def setNotifier_def Unregister_def nth_list_update)
next
  case (taken j t)
  then show ?thesis using assms(2)
    by (auto simp: takeNotification_def Let_def setNotifier_def nth_list_update split: if_splits list.splits)
next
  case (takenElsewhere j)
  then show ?thesis using assms(2)
    by (auto simp: takeElsewhere_def takeNotification_def Let_def setNotifier_def nth_list_update split: option.splits list.splits)
qed (auto simp: hubStarted_def hubStopped_def hubReceive_def spawnHourNotification_def spawnElsewhere_def cancelNotifiers_def
  cancelElsewhere_def foreign_def setNotifier_def nth_append nth_list_update split: sum.splits)

lemma later_notifier:
  assumes "i < length (notifiers (hub w))"
  shows "i < length (notifiers (hub (fold (envStep S) later w)))
    \<and> (hn_cancelled (notifiers (hub w) ! i) \<longrightarrow> hn_cancelled (notifiers (hub (fold (envStep S) later w)) ! i))
    \<and> (hn_pc (notifiers (hub w) ! i) = Finished \<longrightarrow> hn_pc (notifiers (hub (fold (envStep S) later w)) ! i) = Finished)"
  using assms
proof (induction later arbitrary: w)
  case (Cons a later)
  have "hub (envStep S a w) = hub w \<or> hubStep (mapOrder (sysR S)) (sysTime S) (hub w) (hub (envStep S a w))" by (rule envStep_hub)
  then show ?case using Cons.IH [of "envStep S a w"] Cons.prems hubStep_notifier [of _ _ "hub w" _ i] by fastforce
qed simp

lemma reachable_later: "reachable S w \<Longrightarrow> reachable S (fold (envStep S) later w)"
  by (induction later arbitrary: w) (simp_all add: reachable_env)

lemma hourCancel_finishes:
  "i < length (notifiers h) \<Longrightarrow> hn_pc (notifiers h ! i) \<noteq> NotRegistered \<Longrightarrow>
     i < length (notifiers (hourCancel i h)) \<and> hn_pc (notifiers (hourCancel i h) ! i) = Finished"
  by (auto simp: hourCancel_def Let_def setNotifier_def Unregister_def)

text \<open>A listener that takes the done case of its select is gone for good, and so is its channel.\<close>

lemma released_listener:
  assumes ord: "iterationOrder (mapOrder (sysR S))" and reach: "reachable S w" and ctx: "contextDone i (hub w)"
    and pc: "hn_pc (notifiers (hub w) ! i) \<noteq> NotRegistered"
    and w': "w' = fold (envStep S) later (envStep S (HourCancelled i) w)"
  shows "hn_pc (notifiers (hub w') ! i) = Finished
    \<and> hn_events (notifiers (hub w') ! i) \<notin> set (items (chans (hourChangeChannels (hub w'))))"
proof -
  have i: "i < length (notifiers (hub w))" using ctx by (simp add: contextDone_def)
  let ?v = "envStep S (HourCancelled i) w"
  have "hub ?v = hourCancel i (hub w)" using ctx by simp
  then have v: "i < length (notifiers (hub ?v))" "hn_pc (notifiers (hub ?v) ! i) = Finished"
    using hourCancel_finishes [OF i pc] by simp_all
  then have fin: "i < length (notifiers (hub w'))" "hn_pc (notifiers (hub w') ! i) = Finished"
    using later_notifier [OF v(1), of S later] unfolding w' by blast+
  have "reachable S w'" unfolding w' by (intro reachable_later reachable_env reach)
  then have "hubInv (hub w')" using hubReach_inv ord by (auto simp: reachable_def)
  then have "notifierOk (hourChangeChannels (hub w')) (notifiers (hub w') ! i)" using fin(1) by (auto simp: hubInv_def)
  then show ?thesis using fin(2) by (simp add: notifierOk_def)
qed

text \<open>Without new events a listener has at most two steps before it can only wait for its context.\<close>

lemma hourStep_settles:
  assumes "hubInv h"
  shows "hourStep i (hourStep i (hourStep i h)) = hourStep i (hourStep i h)"
proof (cases "i < length (notifiers h)")
  case i: True
  let ?n = "notifiers h ! i" and ?cs = "hourChangeChannels h"
  have new: "buffers ?cs (nextChan ?cs) = []" and one: "length (buffers ?cs (hn_events ?n)) \<le> 1"
    using assms by (simp_all add: hubInv_def topicInv_def)
  have tch: "length (hn_timerCh ?n) \<le> 1" using assms nth_mem [OF i] by (auto simp: hubInv_def notifierOk_def)
  show ?thesis
  proof (cases "hn_pc ?n")
    case NotRegistered
    with i new show ?thesis by (simp add: hourStep_def Let_def makeChan_def Register_def subscribe_def setNotifier_def receive_def)
  next
    case Listening
    with i one show ?thesis
      by (cases "buffers ?cs (hn_events ?n)") (auto simp: hourStep_def Let_def setNotifier_def receive_def)
  next
    case (Publishing t)
    with i one tch show ?thesis
      by (cases "buffers ?cs (hn_events ?n)"; cases "hn_timerCh ?n") (auto simp: hourStep_def Let_def setNotifier_def receive_def)
  next
    case Finished
    with i show ?thesis by (simp add: hourStep_def Let_def)
  qed
qed (simp add: hourStep_def)

end
