(* ===== verification/Bus_properties.thy ===== *)
theory Bus_properties
  imports Demo Sharedhub
begin

text \<open>
  What the bus promises: that messages are conserved, that deliveries are settled, and what
  the three waits of a journey establish for every schedule of the other goroutines.
\<close>

section \<open>The bus\<close>

text \<open>
  C14. Publish loses a message only to a subscriber that is already holding one: with an idle
  subscriber every idle channel gets it and nothing is queued, with none it goes to the end of the
  pending list.
\<close>

theorem publish_conserves:
  assumes "topicInv t" and "iterationOrder ord"
  shows "(if \<exists>ch \<in> set (items (chans t)). buffers t ch = []
     then pendingMsgs (publish ord m t) = pendingMsgs t
       \<and> (\<forall>ch \<in> set (items (chans t)). buffers (publish ord m t) ch = (if buffers t ch = [] then [m] else buffers t ch))
     else pendingMsgs (publish ord m t) = pendingMsgs t @ [m] \<and> buffers (publish ord m t) = buffers t)
    \<and> chans (publish ord m t) = chans t \<and> topicInv (publish ord m t)"
  using publish_effect [of t ord m] topicInv_topic(1) [OF assms] assms by (auto simp: topicInv_def idle_def)

theorem publish_conserves_witness:
  "pendingMsgs (publish rev (7 :: nat) (newTopic\<lparr>pendingMsgs := [5]\<rparr>)) = [5, 7]"
proof -
  have "topicInv (newTopic\<lparr>pendingMsgs := [5 :: nat]\<rparr>)" using topicInv_new by (simp add: topicInv_def newTopic_def)
  from publish_conserves [OF this, of rev 7] show ?thesis
    by (simp add: iterationOrder_def newTopic_def NewSet_def)
qed

text \<open>
  C31. A delivery is settled exactly once: acknowledged when some topic understands it and rejected
  otherwise, and each topic gets it exactly when its decoder accepts it.
\<close>

theorem delivery_settled:
  "settled (pumpDeliver R d b) =
     (d, (\<exists>m. decodePayment R d = Some m) \<or> (\<exists>m. decodeConfirmation R d = Some m) \<or> (\<exists>m. decodeCheckin R d = Some m)) # settled b
   \<and> paymentRequests (pumpDeliver R d b) =
       (case decodePayment R d of None \<Rightarrow> paymentRequests b | Some m \<Rightarrow> publish (mapOrder R) m (paymentRequests b))
   \<and> bookingConfirmations (pumpDeliver R d b) =
       (case decodeConfirmation R d of None \<Rightarrow> bookingConfirmations b | Some m \<Rightarrow> publish (mapOrder R) m (bookingConfirmations b))
   \<and> checkinToday (pumpDeliver R d b) =
       (case decodeCheckin R d of None \<Rightarrow> checkinToday b | Some m \<Rightarrow> publish (mapOrder R) m (checkinToday b))"
  by (simp add: pumpDeliver_settled payments.get_deliver confirmations.get_deliver checkins.get_deliver split: option.splits)

text \<open>
  C15. Whatever a journey and the goroutines beside it do, from the new bus of the journey on, in a run that
  returns, fails or is still waiting, and after any later steps of the other goroutines: no done
  channel is closed twice, and a pump that still runs has its done channel open, so that closing it
  does not panic; a closed done channel comes with an error for the waiters; every subscription
  channel holds at most one message, and no channel is subscribed twice.
\<close>

theorem bus_invariant:
  assumes "iterationOrder (mapOrder (sysR S))" and "bus w = NewGuestCommunicationBus"
    and run: "Start_journey S G fuel w = (r, w')" and b: "b = bus (fold (envStep S) later w')"
  shows "distinct (closedDone b) \<and> distinct (pumps b) \<and> set (pumps b) \<inter> set (closedDone b) = {}
    \<and> (DoneClosed b \<longrightarrow> busErr b \<noteq> None)
    \<and> (\<forall>ch. length (buffers (paymentRequests b) ch) \<le> 1 \<and> length (buffers (bookingConfirmations b) ch) \<le> 1
         \<and> length (buffers (checkinToday b) ch) \<le> 1)
    \<and> distinct (items (chans (paymentRequests b))) \<and> distinct (items (chans (bookingConfirmations b)))
    \<and> distinct (items (chans (checkinToday b)))"
proof -
  have "busReached S w" using assms(2) by (simp add: busReach.new)
  then have "busReached S w'" by (rule keepsD [OF busReached_journey _ run])
  then have "busReach (sysR S) b" unfolding b by (rule busReached_later)
  from busReach_inv [OF this assms(1)] show ?thesis
    by (auto simp: busInv_def topicInv_def setInv_def onceClosed_def)
qed

text \<open>
  The stranded journey has taken three messages from its bus and cleaned up; its pump still takes a
  delivery, and then its channel is closed.
\<close>

theorem bus_invariant_witness:
  "\<exists>w' b. w' = snd (Start_journey demoSystem strandedJourney 6 demoBuilt)
     \<and> b = bus (fold (envStep demoSystem) [BusDeliver (demoDelivery paymentRequestMessageType ''p''), BusClosed 2] w')
     \<and> pumps (bus w') = [2] \<and> length (settled (bus w')) = 3
     \<and> length (settled b) = 4 \<and> closedDone b = [2] \<and> distinct (closedDone b) \<and> (\<forall>ch. length (buffers (paymentRequests b) ch) \<le> 1)"
proof -
  let ?w = "snd (cleanupGuestJourney demoSystem strandedJourney strandedAt)"
  let ?b = "bus (fold (envStep demoSystem) [BusDeliver (demoDelivery paymentRequestMessageType ''p''), BusClosed 2] ?w)"
  obtain e where run: "Start_journey demoSystem strandedJourney 6 demoBuilt = (Err e, ?w)" using stranded_run by blast
  have "Consumer demoBusCheckedIn"
    by (simp add: demoBusCheckedIn_def demoBusConfirmed_def demoBusInvoiced_def demoBus_def StartBus_def makeDone_def Let_def)
  then have bus: "bus ?w = Reset (demoBusCheckedIn\<lparr>Consumer := False\<rparr>)"
    by (simp add: cleanupGuestJourney_def CleanupState_def LogStateCache_def DeleteStateCache_def CloseCommunication_def
      CloseChannel_def strandedJourney_def demoJourney_def thenE_def bindE_def Get_def Del_def ext_def extV_def
      memExternal_def memAmqp_def demoAt_def demoKey_def demoListed_def demoConnected_def demoRegistered_def demoCreated_def
      demoConsumer_def)
  have parts: "pumps (bus ?w) = [2]" "length (settled (bus ?w)) = 3" "closedDone (bus ?w) = []"
    unfolding bus by (simp_all add: Reset_def makeDone_def demoBusCheckedIn_def demoBusConfirmed_def demoBusInvoiced_def demo_bus)
  then have "closedDone ?b = [2]" "length (settled ?b) = 4" by (simp_all add: bus_step_defs split: option.splits)
  moreover have new: "bus demoBuilt = NewGuestCommunicationBus" and ord: "iterationOrder (mapOrder (sysR demoSystem))"
    by (simp_all add: demoBuilt_def demoWorld_def iterationOrder_def)
  have "distinct (closedDone ?b)" "\<forall>ch. length (buffers (paymentRequests ?b) ch) \<le> 1"
    using bus_invariant [OF ord new run refl] by blast+
  ultimately show ?thesis using parts by (intro exI [of _ ?w] exI [of _ ?b]) (simp only: run snd_conv simp_thms)
qed



section \<open>The three waits\<close>

text \<open>
  C11. When the wait for the payment request returns, a message that was pending or has been
  delivered since is for this booking, and the cache holds the invoice it names; the booking is
  unchanged.
\<close>

theorem payment_request_awaited:
  assumes "systemLaws S content" and "topicInv (paymentRequests (bus w))" and "journeyIs content gid k w"
    and "WaitPaymentRequestMessage S (Some c) w = (Ret (), w')"
  shows "\<exists>m \<in> offered paymentRequests decodePayment S w. journeyAnd content gid k (invoiced (sysE S) m) w'"
  using journey_system.payment_wait [OF journey_system.intro [OF assms(1)] assms(2-4)] .

lemma demo_journey:
  assumes "RedisKey st = demoKey" and "GuestId st = ''g1''" and "cacheable v" and "(GuestID v, PersonalInfo v, Booking v) = k"
  shows "journeyIs mem_store ''g1'' k (demoAt st v fl r b as)"
proof -
  have "cached mem_store (demoAt st v fl r b as) = Some v"
    by (rule Load_cached(1) [OF mem_laws demo_Load [OF assms(1,3)]])
  with assms show ?thesis unfolding journeyIs_def by simp
qed

lemma demo_listed: "RedisKey demoListed = demoKey" "GuestId demoListed = ''g1''"
  "cacheable demoBooked" "cacheable demoPaid"
  "(GuestID demoBooked, PersonalInfo demoBooked, Booking demoBooked) = (''g1'', Some demoGuest, Some demoBooking)"
  "(GuestID demoPaid, PersonalInfo demoPaid, Booking demoPaid) = (''g1'', Some demoGuest, Some demoBooking)"
  by (simp_all add: demoListed_def demoConnected_def demoBooked_def demoPaid_def demoBooking_def demoKnown_def demoFresh_def)

lemma demo_topics:
  "topicInv (paymentRequests demoBus)" "topicInv (bookingConfirmations demoBusInvoiced)" "topicInv (checkinToday demoBusConfirmed)"
  using topicInv_new by (simp_all add: demo_bus demoBusInvoiced_def demoBusConfirmed_def demoTopic_def topicInv_def newTopic_def)

theorem payment_request_awaited_witness:
  "\<exists>m w'. WaitPaymentRequestMessage demoSystem (Some demoCache) (demoAt demoListed demoBooked [] demoConsumer demoBus (tl demoSched)) = (Ret (), w')
    \<and> journeyAnd mem_store ''g1'' (''g1'', Some demoGuest, Some demoBooking) (invoiced memExternal m) w'"
  using payment_request_awaited [OF mem_system _ demo_journey [OF demo_listed(1-3,5)] demo_wait1, of "[]" demoConsumer]
    demo_wait1 [of "[]" demoConsumer] demo_topics(1) by auto

text \<open>
  C12. When the wait for the confirmation returns, one of the messages offered confirms this very
  booking of this guest.
\<close>

theorem booking_confirmation_awaited:
  assumes "systemLaws S content" and "topicInv (bookingConfirmations (bus w))" and "journeyIs content gid k w"
    and "WaitBookingConfirmationMessage S (Some c) w = (Ret (), w')"
  shows "\<exists>m \<in> offered bookingConfirmations decodeConfirmation S w. journeyAnd content gid k (\<lambda>v. confirms gid v m) w'"
  using journey_system.confirmation_wait [OF journey_system.intro [OF assms(1)] assms(2-4)] .

theorem booking_confirmation_awaited_witness:
  "\<exists>m w'. WaitBookingConfirmationMessage demoSystem (Some demoCache)
      (demoAt demoListed demoPaid [] demoConsumer demoBusInvoiced (drop 5 demoSched)) = (Ret (), w')
    \<and> journeyAnd mem_store ''g1'' (''g1'', Some demoGuest, Some demoBooking) (\<lambda>v. confirms ''g1'' v m) w'"
  using booking_confirmation_awaited [OF mem_system _ demo_journey [OF demo_listed(1,2,4,6)] demo_wait2, of "[]" demoConsumer]
    demo_wait2 [of "[]" demoConsumer] demo_topics(2) by auto

text \<open>
  C13. When the wait for the check-in notice returns, one of the messages offered is for this
  booking, this guest, its cottage and the first instant of its period.
\<close>

theorem checkin_awaited:
  assumes "systemLaws S content" and "topicInv (checkinToday (bus w))" and "journeyIs content gid k w"
    and "WaitCheckinTodayMessage S (Some c) w = (Ret (), w')"
  shows "\<exists>m \<in> offered checkinToday decodeCheckin S w. journeyAnd content gid k (\<lambda>v. checkinFor gid v m) w'"
  using journey_system.checkin_wait [OF journey_system.intro [OF assms(1)] assms(2-4)] .

theorem checkin_awaited_witness:
  "\<exists>m w'. WaitCheckinTodayMessage demoSystem (Some demoCache)
      (demoAt demoListed demoPaid [] demoConsumer demoBusConfirmed (drop 9 demoSched)) = (Ret (), w')
    \<and> journeyAnd mem_store ''g1'' (''g1'', Some demoGuest, Some demoBooking) (\<lambda>v. checkinFor ''g1'' v m) w'"
  using checkin_awaited [OF mem_system _ demo_journey [OF demo_listed(1,2,4,6)] demo_wait3, of "[]" demoConsumer]
    demo_wait3 [of "[]" demoConsumer] demo_topics(3) by auto

text \<open>A check-in notice matches a booking that the search has made only with a check-in time of midnight UTC.\<close>

theorem checkin_at_midnight:
  assumes "foundTogether E b" and "Booking v = Some b" and "checkinFor gid v m"
  shows "\<exists>t. ci_CheckIn m = Some t \<and> ns (AsTime t) mod DayNs = 0"
proof -
  obtain p t where p: "SelectedPeriod b = Some p" "ci_CheckIn m = Some t" "ns (AsTime t) = ns (Start p)"
    using assms(2,3) by (auto simp: checkinFor_def)
  with assms(1) obtain now where "goodStay now p" using offeredBy_goodStay by (fastforce simp: foundTogether_def)
  with p show ?thesis by (simp add: goodStay_def midnight_def)
qed

text \<open>At the select with an empty channel, an open bus and a live context, no case but a new message is ever ready.\<close>

definition overlooked :: "(GuestCommunicationBus \<Rightarrow> 'm Topic) \<Rightarrow> 'm list \<Rightarrow> nat \<Rightarrow> 'x JWorld \<Rightarrow> bool" where
  "overlooked get ms ch w \<longleftrightarrow> buffers (get (bus w)) ch = [] \<and> pendingMsgs (get (bus w)) = ms \<and> \<not> DoneClosed (bus w)"

lemma overlooked_loop:
  assumes "neverCancelled (sysE S)"
  shows "select_loop (envStep S) (waitTurn S get upd match ch) {} (\<lambda>s w. s = AtSelect \<and> overlooked get ms ch w) (\<lambda>_ _. False)"
proof -
  have turn: "\<exists>x. waitTurn S get upd match ch AtSelect c w = (Inr AtSelect, w\<lparr>w_ext := x\<rparr>)" if "overlooked get ms ch w" for c w
  proof (cases c)
    case CtxDone
    have "fst (ctxErr (sysE S) (w_ext w)) = None" using assms unfolding neverCancelled_def by blast
    then show ?thesis using CtxDone by (cases "ctxErr (sysE S) (w_ext w)") auto
  qed (use that in \<open>auto simp: overlooked_def receive_def intro: exI [of _ "w_ext w"]\<close>)
  show ?thesis
  proof
    fix s s' w w' c
    assume "s = AtSelect \<and> overlooked get ms ch w" "waitTurn S get upd match ch s c w = (Inr s', w')"
    with turn [of w c] show "s' = AtSelect \<and> overlooked get ms ch w'" by (auto simp: overlooked_def)
  next
    fix s w c r w'
    assume "s = AtSelect \<and> overlooked get ms ch w" "waitTurn S get upd match ch s c w = (Inl r, w')"
    with turn [of w c] show False by auto
  qed simp
qed

text \<open>
  C32. A wait looks at one pending message only: when that one is for another booking, the wait
  blocks, its context live, until something new arrives, even with its own confirmation next in the list.
\<close>

theorem pending_overlooked:
  assumes live: "neverCancelled (sysE S)" and inv: "topicInv (bookingConfirmations (bus w))" and run: "\<not> DoneClosed (bus w)"
    and pend: "pendingMsgs (bookingConfirmations (bus w)) = m # ms"
    and other: "\<forall>b. \<exists>e. fst (matchBookingConfirmation (sysE S) C (Some m) (w\<lparr>bus := b\<rparr>)) = Err e"
    and quiet: "sched w = Go c # map Go cs"
  shows "\<exists>w'. WaitBookingConfirmationMessage S C w = (Blocks, w') \<and> pendingMsgs (bookingConfirmations (bus w')) = ms"
proof -
  let ?match = "\<lambda>m. matchBookingConfirmation (sysE S) C (Some m)"
  let ?turn = "waitTurn S bookingConfirmations bookingConfirmations_update ?match"
  obtain ch t where mk: "makeChan (bookingConfirmations (bus w)) = (ch, t)" by fastforce
  let ?t = "subscribe ch t"
  have t: "pendingMsgs ?t = m # ms" "buffers ?t ch = []"
    using mk pend topicInv_ops(3) [OF inv mk] by (auto simp: makeChan_def subscribe_def)
  let ?w1 = "w\<lparr>bus := bookingConfirmations_update (\<lambda>_. ?t) (bus w)\<rparr>"
  let ?b2 = "bookingConfirmations_update (\<lambda>_. ?t\<lparr>pendingMsgs := ms\<rparr>) (bus w)"
  obtain e w3 where m3: "?match m (w\<lparr>bus := ?b2\<rparr>) = (Err e, w3)" using other by (metis prod.collapse)
  have bus3: "bus w3 = ?b2" using sameRest_bus(1) [OF sameRest_matches(2) m3] by simp
  have first: "?turn ch AtTake c ?w1 = (Inr AtSelect, w3)"
    using t m3 by (simp add: takePending_def tryMatch_def)
  have ov: "AtSelect = AtSelect \<and> overlooked bookingConfirmations ms ch w3" using bus3 t run by (simp add: overlooked_def DoneClosed_def)
  obtain r as' w4 where lp: "loopOn (envStep S) (?turn ch) AtSelect (map Go cs) w3 = (r, as', w4)" by (metis prod_cases3)
  have "{a. Env a \<in> set (map Go cs)} \<subseteq> {}" by auto
  from select_loop.outcome [OF overlooked_loop [OF live] ov this lp]
  have "r = Blocks \<and> overlooked bookingConfirmations ms ch w4" by blast
  then show ?thesis
    using lp first quiet by (auto simp: WaitBookingConfirmationMessage_def waitMessage_def mk await_def overlooked_def unsubscribe_def)
qed

theorem pending_overlooked_witness:
  "\<exists>w'. WaitBookingConfirmationMessage demoSystem (Some demoCache)
      (demoAt demoListed demoPaid [] demoConsumer
        (demoBus\<lparr>bookingConfirmations := (demoTopic 0)\<lparr>pendingMsgs := [demoConfirmation\<lparr>be_BookingId := ''b2''\<rparr>, demoConfirmation]\<rparr>\<rparr>)
        [Go BusDone, Go CtxDone, Go FromChan]) = (Blocks, w')
    \<and> pendingMsgs (bookingConfirmations (bus w')) = [demoConfirmation]"
proof -
  let ?b = "demoBus\<lparr>bookingConfirmations := (demoTopic 0)\<lparr>pendingMsgs := [demoConfirmation\<lparr>be_BookingId := ''b2''\<rparr>, demoConfirmation]\<rparr>\<rparr>"
  let ?w = "demoAt demoListed demoPaid [] demoConsumer ?b [Go BusDone, Go CtxDone, Go FromChan]"
  have "\<forall>b. \<exists>e. fst (matchBookingConfirmation memExternal (Some demoCache) (Some (demoConfirmation\<lparr>be_BookingId := ''b2''\<rparr>)) (?w\<lparr>bus := b\<rparr>)) = Err e"
    using demo_listed by (simp add: matchBookingConfirmation_def demo_run demoConfirmation_def demoPaid_def demoBooked_def demoBooking_def)
  moreover have "topicInv (bookingConfirmations (bus ?w))"
    using topicInv_new by (simp add: demoTopic_def topicInv_def newTopic_def)
  moreover have "\<not> DoneClosed (bus ?w)"
    by (simp add: DoneClosed_def demoBus_def StartBus_def makeDone_def Reset_def NewGuestCommunicationBus_def Let_def)
  ultimately show ?thesis
    using pending_overlooked [of demoSystem ?w "demoConfirmation\<lparr>be_BookingId := ''b2''\<rparr>" "[demoConfirmation]" "Some demoCache" BusDone "[CtxDone, FromChan]"] mem_live
    by simp
qed
end
