(* ===== verification/Logging.thy ===== *)
theory Logging
  imports World
begin

text \<open>
  The logger of the process (internal/infra/log/log.go): a \<open>TraceHandler\<close> in front of the JSON
  handler of \<open>log/slog\<close>, which drops what is below its level and writes the rest as one JSON object.
  Groups are left out: nothing in the program opens one.
\<close>

record LogRecord =
  lr_Time :: json
  lr_Level :: int
  lr_Source :: json
  lr_Message :: string
  lr_Attrs :: "(string \<times> json) list"

record SpanContext =
  sc_TraceID :: string
  sc_SpanID :: string
  sc_IsValid :: bool

subsection \<open>The JSON handler of log/slog\<close>

abbreviation LevelDebug :: int where "LevelDebug \<equiv> - 4"
abbreviation LevelInfo :: int where "LevelInfo \<equiv> 0"
abbreviation LevelWarn :: int where "LevelWarn \<equiv> 4"
abbreviation LevelError :: int where "LevelError \<equiv> 8"

definition levelText :: "string \<Rightarrow> int \<Rightarrow> string" where
  "levelText base d = (if d = 0 then base else base @ (if 0 < d then ''+'' else []) @ show_int d)"

definition Level_String :: "int \<Rightarrow> string" where
  "Level_String l =
     (if l < LevelInfo then levelText ''DEBUG'' (l - LevelDebug)
      else if l < LevelWarn then levelText ''INFO'' (l - LevelInfo)
      else if l < LevelError then levelText ''WARN'' (l - LevelWarn)
      else levelText ''ERROR'' (l - LevelError))"

record JSONHandler =
  jh_Level :: int
  jh_attrs :: "(string \<times> json) list"

definition JSONHandler_Enabled :: "JSONHandler \<Rightarrow> int \<Rightarrow> bool" where
  "JSONHandler_Enabled h l \<longleftrightarrow> jh_Level h \<le> l"

definition JSONHandler_Handle :: "JSONHandler \<Rightarrow> LogRecord \<Rightarrow> json" where
  "JSONHandler_Handle h r = JObj ([(''time'', lr_Time r), (''level'', JStr (Level_String (lr_Level r))), (''source'', lr_Source r),
     (''msg'', JStr (lr_Message r))] @ jh_attrs h @ lr_Attrs r)"

definition JSONHandler_WithAttrs :: "JSONHandler \<Rightarrow> (string \<times> json) list \<Rightarrow> JSONHandler" where
  "JSONHandler_WithAttrs h attrs = h\<lparr>jh_attrs := jh_attrs h @ attrs\<rparr>"

subsection \<open>TraceHandler\<close>

record TraceHandler =
  th_next :: JSONHandler

definition TraceHandler_Enabled :: "TraceHandler \<Rightarrow> int \<Rightarrow> bool" where
  "TraceHandler_Enabled h l = JSONHandler_Enabled (th_next h) l"

definition TraceHandler_Handle :: "TraceHandler \<Rightarrow> SpanContext \<Rightarrow> LogRecord \<Rightarrow> json" where
  "TraceHandler_Handle h sc r =
     JSONHandler_Handle (th_next h)
       (if sc_IsValid sc
        then r\<lparr>lr_Attrs := lr_Attrs r @ [(''trace_id'', JStr (sc_TraceID sc)), (''span_id'', JStr (sc_SpanID sc))]\<rparr>
        else r)"

definition TraceHandler_WithAttrs :: "TraceHandler \<Rightarrow> (string \<times> json) list \<Rightarrow> TraceHandler" where
  "TraceHandler_WithAttrs h attrs = \<lparr>th_next = JSONHandler_WithAttrs (th_next h) attrs\<rparr>"

text \<open>\<open>hostname\<close> is the answer of \<open>os.Hostname\<close>.\<close>

definition NewLogger :: "error + string \<Rightarrow> TraceHandler" where
  "NewLogger hostname =
     TraceHandler_WithAttrs \<lparr>th_next = \<lparr>jh_Level = LevelInfo, jh_attrs = []\<rparr>\<rparr>
       [(''app'', JStr (case hostname of Inl _ \<Rightarrow> ''unknown'' | Inr h \<Rightarrow> h))]"

text \<open>A call of the logger: the line it writes, if the level is enabled.\<close>

definition Logger_log :: "TraceHandler \<Rightarrow> SpanContext \<Rightarrow> LogRecord \<Rightarrow> json option" where
  "Logger_log h sc r = (if TraceHandler_Enabled h (lr_Level r) then Some (TraceHandler_Handle h sc r) else None)"

lemma Logger_log_line:
  "Logger_log (NewLogger hostname) sc r =
     (if lr_Level r < LevelInfo then None
      else Some (JObj ([(''time'', lr_Time r), (''level'', JStr (Level_String (lr_Level r))), (''source'', lr_Source r), (''msg'', JStr (lr_Message r)),
          (''app'', JStr (case hostname of Inl _ \<Rightarrow> ''unknown'' | Inr h \<Rightarrow> h))]
        @ lr_Attrs r @ (if sc_IsValid sc then [(''trace_id'', JStr (sc_TraceID sc)), (''span_id'', JStr (sc_SpanID sc))] else []))))"
  by (auto simp: Logger_log_def NewLogger_def TraceHandler_Enabled_def TraceHandler_WithAttrs_def TraceHandler_Handle_def
    JSONHandler_Enabled_def JSONHandler_WithAttrs_def JSONHandler_Handle_def)

end
