(* ===== verification/Fakes.thy ===== *)
theory Fakes
  imports Chatops
begin

text \<open>
  The test doubles (internal/infra/redis/fakes/cache.go, internal/infra/websocket/fakes/client.go,
  internal/infra/clock/fakes/clock.go, internal/infra/mq/fakes). The double of the journey cache is shown
  to keep the contract of the cache, so a test that goes through it exercises the steps
  under the same laws as the program; its keys are those of the cache.
\<close>

text \<open>A field that holds an error is an option; an operation that fails returns it.\<close>

definition orErr :: "error option \<Rightarrow> 'a \<Rightarrow> 'a res" where
  "orErr e a = (case e of None \<Rightarrow> Ret a | Some e \<Rightarrow> Err e)"

subsection \<open>fakes.Cache\<close>

record FakeCache =
  SetErr :: "error option"
  GetValue :: string
  GetErr :: "error option"
  DelErr :: "error option"
  EnsureKeyErr :: "error option"
  LoadValue :: GuestJourneyCacheValue
  LoadErr :: "error option"
  SaveErr :: "error option"
  SavedValue :: GuestJourneyCacheValue
  DeletedKey :: string

definition fake_Set :: "string \<Rightarrow> string \<Rightarrow> (FakeCache, unit) go" where
  "fake_Set key v c = (orErr (SetErr c) (), c)"

definition fake_Get :: "string \<Rightarrow> (FakeCache, string) go" where
  "fake_Get key c = (orErr (GetErr c) (GetValue c), c)"

definition fake_Del :: "string \<Rightarrow> (FakeCache, unit) go" where
  "fake_Del key c = (orErr (DelErr c) (), c\<lparr>DeletedKey := key\<rparr>)"

definition fake_EnsureKey :: "State option \<Rightarrow> FakeCache \<Rightarrow> string res \<times> State option" where
  "fake_EnsureKey state c =
     (case EnsureKeyErr c of
        Some e \<Rightarrow> (Err e, state)
      | None \<Rightarrow>
          (case state of
             None \<Rightarrow> (Err (Errorf ''nil state''), None)
           | Some s \<Rightarrow>
               if RedisKey s \<noteq> [] then (Ret (RedisKey s), Some s)
               else if GuestId s = [] then (Err (Errorf ''empty guest id''), Some s)
               else (Ret (''guest.'' @ GuestId s), Some (s\<lparr>RedisKey := ''guest.'' @ GuestId s\<rparr>))))"

definition fake_Load :: "(FakeCache, GuestJourneyCacheValue) go" where
  "fake_Load c = (orErr (LoadErr c) (LoadValue c), c)"

definition fake_Save :: "GuestJourneyCacheValue \<Rightarrow> (FakeCache, unit) go" where
  "fake_Save v c = (orErr (SaveErr c) (), c\<lparr>SavedValue := v, LoadValue := v\<rparr>)"

interpretation fakeCache: journey_cache fake_Load fake_Save "\<lambda>c. Some (LoadValue c)" "\<lambda>_. True"
  by unfold_locales (auto simp: fake_Load_def fake_Save_def orErr_def split: option.splits)

text \<open>The keys it makes are those of the cache, in the same cases.\<close>

lemma fake_EnsureKey_agrees:
  assumes "EnsureKeyErr c = None"
  shows "fst (fake_EnsureKey (w_state w) c) = Ret k \<longleftrightarrow> fst (EnsureKey w) = Ret k"
    and "snd (fake_EnsureKey (w_state w) c) = w_state (snd (EnsureKey w))"
  using assms
  by (auto simp: fake_EnsureKey_def EnsureKey_def thenE_def bindE_def setState_def split: option.splits)

subsection \<open>fakes.Client\<close>

record FakeClient =
  fc_Messages :: "ChatMessage list"
  fc_WaitErr :: "error option"
  fc_ReplyErr :: "error option"
  fc_SendErr :: "error option"
  fc_CloseErr :: "error option"
  fc_Replies :: "GuestResponse list"
  fc_ReplyTo :: "ChatMessage option list"
  fc_SendActions :: "GuestAction list"

definition fake_Close :: "(FakeClient, unit) go" where
  "fake_Close c = (orErr (fc_CloseErr c) (), c)"

definition fake_SendAction :: "GuestAction \<Rightarrow> (FakeClient, unit) go" where
  "fake_SendAction a c = (case fc_SendErr c of Some e \<Rightarrow> (Err e, c) | None \<Rightarrow> (Ret (), c\<lparr>fc_SendActions := fc_SendActions c @ [a]\<rparr>))"

definition fake_Reply :: "ChatMessage option \<Rightarrow> GuestResponse \<Rightarrow> (FakeClient, unit) go" where
  "fake_Reply request response c =
     (case fc_ReplyErr c of
        Some e \<Rightarrow> (Err e, c)
      | None \<Rightarrow> (Ret (), c\<lparr>fc_ReplyTo := fc_ReplyTo c @ [request], fc_Replies := fc_Replies c @ [response]\<rparr>))"

definition fake_WaitForNextSystemMessage :: "(FakeClient, ChatMessage) go" where
  "fake_WaitForNextSystemMessage c =
     (case fc_WaitErr c of
        Some e \<Rightarrow> (Err e, c)
      | None \<Rightarrow> (case fc_Messages c of [] \<Rightarrow> (Err ContextCanceled, c) | m # ms \<Rightarrow> (Ret m, c\<lparr>fc_Messages := ms\<rparr>)))"

text \<open>Unlike the client, the double hands out every message, also one that is not of the system.\<close>

lemma fake_hands_out_any: "fc_WaitErr c = None \<Longrightarrow> fc_Messages c = m # ms \<Longrightarrow> fst (fake_WaitForNextSystemMessage c) = Ret m"
  by (simp add: fake_WaitForNextSystemMessage_def)

subsection \<open>The doubles of the broker and the clock\<close>

record FakeConsumer =
  fk_DeclareErr :: "error option"
  fk_BindErr :: "error option"
  fk_ConsumeErr :: "error option"
  fk_CloseErr :: "error option"
  fk_DeclareCfg :: QueueConfig
  fk_BindingCfg :: BindingConfig
  fk_Deliveries :: "Delivery list"
  fk_CloseCalls :: nat

definition fake_DeclareQueue :: "QueueConfig \<Rightarrow> (FakeConsumer, unit) go" where
  "fake_DeclareQueue cfg c = (orErr (fk_DeclareErr c) (), c\<lparr>fk_DeclareCfg := cfg\<rparr>)"

definition fake_BindQueue :: "BindingConfig \<Rightarrow> (FakeConsumer, unit) go" where
  "fake_BindQueue cfg c = (orErr (fk_BindErr c) (), c\<lparr>fk_BindingCfg := cfg\<rparr>)"

definition fake_Consume :: "(FakeConsumer, Delivery list) go" where
  "fake_Consume c = (orErr (fk_ConsumeErr c) (fk_Deliveries c), c)"

definition fake_CloseChannel :: "(FakeConsumer, unit) go" where
  "fake_CloseChannel c = (orErr (fk_CloseErr c) (), c\<lparr>fk_CloseCalls := Suc (fk_CloseCalls c)\<rparr>)"

record FakeAcknowledger =
  fa_AckCalls :: nat
  fa_NackCalls :: nat
  fa_RejectErr :: "error option"

definition fake_Ack :: "(FakeAcknowledger, unit) go" where
  "fake_Ack a = (Ret (), a\<lparr>fa_AckCalls := Suc (fa_AckCalls a)\<rparr>)"

definition fake_Nack :: "(FakeAcknowledger, unit) go" where
  "fake_Nack a = (Ret (), a\<lparr>fa_NackCalls := Suc (fa_NackCalls a)\<rparr>)"

definition fake_Reject :: "(FakeAcknowledger, unit) go" where
  "fake_Reject a = (orErr (fa_RejectErr a) (), a)"

record FakeClock =
  fk_NowValue :: Time
  fk_NowErr :: "error option"
  fk_ClockCloseErr :: "error option"

definition fake_Now :: "FakeClock \<Rightarrow> Time res" where
  "fake_Now c = orErr (fk_NowErr c) (fk_NowValue c)"

definition fake_ClockClose :: "FakeClock \<Rightarrow> unit res" where
  "fake_ClockClose c = orErr (fk_ClockCloseErr c) ()"

end
