(* ===== verification/Process.thy ===== *)
theory Process
  imports Program Logging Fakes
begin

text \<open>
  The process put together: the calls of \<open>main\<close> (internal/main.go) are the constructors and closing
  functions of the components, applied to the configuration that \<open>LoadConfigs\<close> returns. The
  libraries they rest on are the fields of \<open>Libs\<close>. With them come the clock client
  (internal/infra/clock/client.go) and the probe server (internal/transport/http/probe\_server.go,
  probe/healthness.go).
\<close>

record 'x Libs =
  envParse :: "'x \<Rightarrow> Configs res \<times> 'x"
  osHostname :: "error + string"
  logTime :: json
  logSource :: json
  stdoutWrite :: "json \<Rightarrow> 'x \<Rightarrow> unit \<times> 'x"
  otelLib :: "'x OTel"
  redisPing :: "'x \<Rightarrow> unit res \<times> 'x"
  goredisClose :: "'x \<Rightarrow> unit res \<times> 'x"
  grpcNewClient :: "string \<Rightarrow> 'x \<Rightarrow> unit res \<times> 'x"
  grpcClose :: "'x \<Rightarrow> unit res \<times> 'x"
  httpListen :: "string \<Rightarrow> 'x \<Rightarrow> unit \<times> 'x"
  httpShutdown :: "'x \<Rightarrow> unit res \<times> 'x"

text \<open>\<open>slog.InfoContext\<close> with a context that has no span, through the logger that \<open>main\<close> has installed.\<close>

definition slogInfo :: "'x Libs \<Rightarrow> string \<Rightarrow> (string \<times> json) list \<Rightarrow> 'x \<Rightarrow> unit \<times> 'x" where
  "slogInfo L msg attrs x =
     (case Logger_log (NewLogger (osHostname L)) \<lparr>sc_TraceID = [], sc_SpanID = [], sc_IsValid = False\<rparr>
         \<lparr>lr_Time = logTime L, lr_Level = LevelInfo, lr_Source = logSource L, lr_Message = msg, lr_Attrs = attrs\<rparr> of
        None \<Rightarrow> ((), x)
      | Some line \<Rightarrow> stdoutWrite L line x)"

subsection \<open>The clock client\<close>

definition NewClock :: "'x Libs \<Rightarrow> ServicesConfig \<Rightarrow> (('x, 'z) World_scheme, unit) go" where
  "NewClock L cfg = ext (grpcNewClient L (sv_ClockEmuGrpcUrl cfg @ '':'' @ show_int (sv_ClockEmuGrpcPort cfg)))"

definition Clock_Close :: "'x Libs \<Rightarrow> (('x, 'z) World_scheme, unit) go" where
  "Clock_Close L = ext (grpcClose L)"

subsection \<open>The probe server\<close>

text \<open>\<open>time.Duration(n) * time.Second\<close> wraps around at 64 bits.\<close>

definition durationOfSeconds :: "int \<Rightarrow> int" where
  "durationOfSeconds n = (n * Second + 2 ^ 63) mod 2 ^ 64 - 2 ^ 63"

record HttpServer =
  srv_Addr :: string
  srv_ReadHeaderTimeout :: int
  srv_ReadTimeout :: int
  srv_WriteTimeout :: int
  srv_IdleTimeout :: int

definition probeServer :: "ProbeConfig \<Rightarrow> HttpServer" where
  "probeServer cfg = \<lparr>srv_Addr = pb_Address cfg @ '':'' @ show_int (pb_Port cfg),
     srv_ReadHeaderTimeout = durationOfSeconds (pb_ReadHeaderTimeoutInSeconds cfg),
     srv_ReadTimeout = durationOfSeconds (pb_ReadTimeoutInSeconds cfg),
     srv_WriteTimeout = durationOfSeconds (pb_WriteTimeoutInSeconds cfg),
     srv_IdleTimeout = durationOfSeconds (pb_IdleTimeoutInSeconds cfg)\<rparr>"

definition HealthHandler :: "('w, nat \<times> string) go" where
  "HealthHandler = ret (200, [])"

text \<open>The routes of the server: exact paths, anything else is not found.\<close>

definition probeMux :: "'x Amqp \<Rightarrow> ('x \<Rightarrow> unit res \<times> 'x) \<Rightarrow> 'x External \<Rightarrow> string \<Rightarrow> (('x, 'z) MqWorld_scheme, nat \<times> string) go" where
  "probeMux A ping E path =
     (if path = ''/healthz'' then HealthHandler
      else if path = ''/readyz'' then ReadinessHandler A ping E
      else ret (404, ''404 page not found''))"

definition StartHTTPServer :: "'x Libs \<Rightarrow> ProbeConfig \<Rightarrow> (('x, 'z) World_scheme, unit) go" where
  "StartHTTPServer L cfg = extV (httpListen L (srv_Addr (probeServer cfg)))"

text \<open>A failed shutdown is only logged.\<close>

definition ShutDownHTTPServer :: "'x Libs \<Rightarrow> (('x, 'z) World_scheme, unit) go" where
  "ShutDownHTTPServer L = ignoreErr (ext (httpShutdown L))"

subsection \<open>The calls of main\<close>

text \<open>\<open>rabbitmqInfra.ConnectionClose\<close>, the cleanup list of \<open>NewRabbitmq\<close>.\<close>

definition ConnectionClose :: "'x Amqp \<Rightarrow> (('x, 'z) MqWorld_scheme, unit) go" where
  "ConnectionClose A = runCleanup [CloseConnection A, CloseChannel A]"

definition startTimeEvents :: "('x JWorld, unit) go" where
  "startTimeEvents = (case makeTimeEventService True of Inl e \<Rightarrow> throw e | Inr h \<Rightarrow> modW (\<lambda>w. w\<lparr>hub := h\<rparr>))"

definition simulatorCalls :: "'x Libs \<Rightarrow> 'x Amqp \<Rightarrow> (int \<Rightarrow> ('x JWorld, unit) go) \<Rightarrow> Configs \<Rightarrow> 'x JWorld MainCalls" where
  "simulatorCalls L A runJourneys cfg =
     \<lparr>initTelemetry = telemetry_Init (otelLib L)
        \<lparr>tc_Endpoint = tl_OTLPEndpoint (ap_Telemetry (cf_AppConfig cfg)), tc_GrpcPort = tl_OTLPGrpcPort (ap_Telemetry (cf_AppConfig cfg)),
         tc_Insecure = tl_OTLPInsecure (ap_Telemetry (cf_AppConfig cfg))\<rparr>
        \<lparr>ai_ServiceName = nm_ServiceName (ap_Name (cf_AppConfig cfg)), ai_Version = nm_Version (ap_Name (cf_AppConfig cfg))\<rparr>,
      shutdownTelemetry = telemetry_shutdown (otelLib L),
      newRabbitmq = NewRabbitmq A (rc_HourChange (cf_RabbitMqConsumersConfig cfg)),
      connectionClose = ConnectionClose A,
      newRedisClient = NewRedisClient (redisPing L) (goredisClose L) (rd_Host (cf_RedisConfig cfg)) (rd_Port (cf_RedisConfig cfg)),
      redisClose = Redis_Close (goredisClose L),
      newClock = NewClock L (cf_ServicesConfig cfg),
      clockClose = Clock_Close L,
      startHTTPServer = StartHTTPServer L (cf_ProbeConfig cfg),
      shutDownHTTPServer = ShutDownHTTPServer L,
      newTimeEventService = startTimeEvents,
      journeys = runJourneys (jf_ConcurrencyLevel (fl_GuestJourney (cf_FlowsConfig cfg)))\<rparr>"

definition simulator_main :: "'x Libs \<Rightarrow> 'x Amqp \<Rightarrow> (int \<Rightarrow> ('x JWorld, unit) go) \<Rightarrow> ('x JWorld, ProcessEnd) go" where
  "simulator_main L A runJourneys = main (LoadConfigs (envParse L) (slogInfo L)) (simulatorCalls L A runJourneys)"

subsection \<open>Closing always comes back\<close>

text \<open>
  The library calls that close something return, with or without an error: none of them waits for
  another party without a deadline.
\<close>

definition answers :: "('x \<Rightarrow> 'a res \<times> 'x) \<Rightarrow> bool" where
  "answers f \<longleftrightarrow> (\<forall>x. (\<exists>a. fst (f x) = Ret a) \<or> (\<exists>e. fst (f x) = Err e))"

definition closingLaws :: "'x Libs \<Rightarrow> 'x Amqp \<Rightarrow> bool" where
  "closingLaws L A \<longleftrightarrow> answers (httpShutdown L) \<and> answers (grpcClose L) \<and> answers (goredisClose L)
     \<and> (\<forall>k. answers (connClose A k)) \<and> (\<forall>k. answers (chanClose A k))
     \<and> answers (traceShutdown (otelLib L)) \<and> answers (meterShutdown (otelLib L))"

lemma returns_basic [go_answers]:
  "returns (ret a)" "returns (throw e)" "returns (getW f)" "returns (modW g)" "returns (extV h)" "returns (setRabbit u)"
  by (auto simp: returns_def extV_def setRabbit_def split: prod.splits)

lemma returns_ext [go_answers]: "answers f \<Longrightarrow> returns (ext f)"
  by (auto simp: returns_def answers_def ext_def split: prod.splits) (metis fst_conv)

lemma returns_bindE [go_answers]:
  assumes "returns m" and "\<And>a. returns (k a)"
  shows "returns (bindE m k)"
  unfolding returns_def
proof
  fix w
  obtain r w1 where m: "m w = (r, w1)" by fastforce
  have "\<exists>a. fst (m w) = Ret a \<or> (\<exists>e. fst (m w) = Err e)" using assms(1) unfolding returns_def by blast
  then show "\<exists>a. fst (bindE m k w) = Ret a \<or> (\<exists>e. fst (bindE m k w) = Err e)"
    using m assms(2) unfolding returns_def by (auto simp: bindE_def) blast
qed

lemma returns_thenE [go_answers]: "returns m \<Longrightarrow> returns k \<Longrightarrow> returns (thenE m k)"
  unfolding thenE_def by (rule returns_bindE)

lemma returns_tryE [go_answers]: "returns m \<Longrightarrow> returns (tryE m)"
  by (auto simp: returns_def tryE_def split: prod.splits res.splits) (metis fst_conv res.distinct)+

lemma returns_ignoreErr [go_answers]: "returns m \<Longrightarrow> returns (ignoreErr m)"
  by (auto simp: returns_def ignoreErr_def split: prod.splits res.splits) (metis fst_conv res.distinct)+

lemma returns_cases [go_answers]:
  "returns m \<Longrightarrow> returns k \<Longrightarrow> returns (if c then m else k)"
  "returns m \<Longrightarrow> (\<And>x. returns (h x)) \<Longrightarrow> returns (case z of None \<Rightarrow> m | Some x \<Rightarrow> h x)"
  by (simp_all split: option.splits)

lemma returns_cleanup [go_answers]: "(\<And>f. f \<in> set fs \<Longrightarrow> returns f) \<Longrightarrow> returns (runCleanup fs)"
proof -
  assume fs: "\<And>f. f \<in> set fs \<Longrightarrow> returns f"
  have "runCleanup fs w = ((case foldl joinErr None (errorsOf (rev fs) w) of None \<Rightarrow> Ret () | Some e \<Rightarrow> Err e), afterAll (rev fs) w)" for w
    unfolding runCleanup_def using cleanupLoop_run [of "rev fs" None w] fs by simp
  then show ?thesis by (simp add: returns_def split: option.splits)
qed

lemma closings_return:
  assumes "closingLaws L A"
  shows "\<forall>f \<in> set (startedCleanups (simulatorCalls L A J cfg)). returns f"
proof -
  have "returns (CloseConnection A)" "returns (CloseChannel A)"
    using assms unfolding CloseConnection_def CloseChannel_def closingLaws_def by (intro go_answers; simp)+
  moreover have "returns (telemetry_shutdown (otelLib L))" "returns (ShutDownHTTPServer L)" "returns (Clock_Close L)" "returns (ext (goredisClose L))"
    using assms unfolding telemetry_shutdown_def ShutDownHTTPServer_def Clock_Close_def closingLaws_def orError_def by (intro go_answers; simp)+
  moreover have "returns (ConnectionClose A)"
    unfolding ConnectionClose_def by (rule go_answers) (use calculation in auto)
  ultimately show ?thesis by (simp add: startedCleanups_def simulatorCalls_def)
qed

text \<open>The broker connection is closed by its closing function, whatever the channel does.\<close>

lemma ConnectionClose_closed:
  assumes "closingLaws L A"
  shows "connClosed (rabbit (snd (ConnectionClose A w)))"
proof -
  have "returns (runCleanup [CloseConnection A, CloseChannel A])"
    using assms unfolding CloseConnection_def CloseChannel_def closingLaws_def by (intro go_answers) (auto intro!: go_answers)
  then obtain r w' where run: "runCleanup [CloseConnection A, CloseChannel A] w = (r, w')" "(\<exists>a. r = Ret a) \<or> (\<exists>e. r = Err e)"
    unfolding returns_def by (metis prod.collapse)
  from runCleanup_first [OF run] CloseConnection_closed show ?thesis by (auto simp: ConnectionClose_def run(1))
qed

lemma telemetry_shutdown_rabbit: "rabbit (snd (telemetry_shutdown M w)) = rabbit w"
proof -
  have "keeps (\<lambda>v. rabbit v = rabbit w) (telemetry_shutdown M)"
    unfolding telemetry_shutdown_def orError_def by (intro go_keeps) (auto simp: keeps_def ext_def split: prod.splits)
  then show ?thesis unfolding keeps_def by blast
qed

end
