(* ===== verification/Demostay.thy ===== *)
theory Demostay
  imports Demo Completion Process
begin

text \<open>
  The stay of the scripted journey of theory \<open>Demo\<close>, computed to its end, and with it the
  whole journey: every hour has passed, every action is acknowledged, the requests and notifications of
  check-in, meals and check-out arrive when the guest waits for them.
\<close>

definition stayAt :: "string list \<Rightarrow> TimeHub \<Rightarrow> Action list \<Rightarrow> Mem JWorld" where
  "stayAt l h as = (let w = demoAt demoListed demoPaid [] demoConsumer demoBusCheckedIn as in w\<lparr>hub := h, w_ext := (w_ext w)\<lparr>mem_log := l\<rparr>\<rparr>)"

text \<open>A frame is written.\<close>

definition logged :: "string \<Rightarrow> Mem JWorld \<Rightarrow> Mem JWorld" where
  "logged f w = w\<lparr>w_ext := (w_ext w)\<lparr>mem_log := mem_log (w_ext w) @ [f]\<rparr>\<rparr>"

lemma logged_simps [simp]: "chat (logged f w) = chat w" "hub (logged f w) = hub w" "sched (logged f w) = sched w"
  "(logged f w)\<lparr>chat := c\<rparr> = logged f (w\<lparr>chat := c\<rparr>)" "(logged f w)\<lparr>sched := as\<rparr> = logged f (w\<lparr>sched := as\<rparr>)"
  by (simp_all add: logged_def)

definition demoLate :: Time where
  "demoLate = AsTime \<lparr>seconds = 1749513600, nanos = 0\<rparr>"

definition demoHub :: TimeHub where
  "demoHub = NewTimeEventService\<lparr>servicePc := Consuming, timeSettled := [(''t'', True)], currentTime := demoLate, hasCurrentTime := True, notifying := Some demoLate\<rparr>"

lemma stayAt_simps [simp]: "hub (stayAt l h as) = h" "sched (stayAt l h as) = as" "chat (stayAt l h as) = newClient"
  "(stayAt l h as)\<lparr>hub := h'\<rparr> = stayAt l h' as" "(stayAt l h as)\<lparr>sched := as'\<rparr> = stayAt l h as'"
  "(stayAt l h as)\<lparr>chat := newClient\<rparr> = stayAt l h as" "logged f (stayAt l h as) = stayAt (l @ [f]) h as"
  "(stayAt l h as)\<lparr>chat := \<lparr>inboundCh = [], ackCh = [], errCh = [], chatPending = [], readPc = Reading\<rparr>\<rparr> = stayAt l h as"
  "mem_log (w_ext (stayAt l h as)) = l"
  by (simp_all add: stayAt_def demoAt_def demoWorld_def newClient_def logged_def Let_def)

lemma stay_start: "demoAt demoListed demoPaid [] demoConsumer demoBusCheckedIn as = stayAt [] NewTimeEventService as"
  by (simp add: stayAt_def demoAt_def demoWorld_def memStart_def)

lemma stay_net [simp]:
  "ext (wsDial memNet u) w = (Ret (), w)" "ext (wsSetWriteDeadline memNet) w = (Ret (), w)" "ext (wsWriteMessage memNet p) w = (Ret (), logged p w)"
  "ext (wsClose memNet) w = (Ret (), w)" "extV (uuidNewString memNet) w = (Ret ''id-1'', w)" "extV (traceInject memNet) w = (Ret [], w)"
  "protojsonMarshal memNet m = memEncode (cm_Payload m)" "protojsonUnmarshal memNet = memFrames"
  by (simp_all add: memNet_def ext_def extV_def logged_def)

lemma stay_write [simp]:
  "memEncode (cm_Payload msg) \<noteq> None \<Longrightarrow> chatWrite memNet msg w = (Ret (), logged (the (memEncode (cm_Payload msg))) w)"
  by (auto simp: chatWrite_def bindE_run(1) thenE_run)

lemma stay_payload [simp]: "cm_Payload (guestMessage mid cid p) = p" "cm_MessageId (guestMessage mid cid p) = mid"
  by (simp_all add: guestMessage_def)

lemma stay_sendAck [simp]: "cm_MessageId msg = c # cs \<Longrightarrow> snd (sendAck memNet msg w) = logged (CHR ''K'' # c # cs) w"
  by (simp add: sendAck_def bindE_run(1) ignoreErr_def)

lemmas stay_steps = await_def readFrame_def readPut_def newClient_def memFrames_def systemMessage_def GetAck_def
  GetSystemNotification_def GetSystemRequest_def Let_def

lemma stay_send:
  "cm_MessageId msg = ''id-1'' \<Longrightarrow> memEncode (cm_Payload msg) \<noteq> None \<Longrightarrow>
     sendAndWaitAck demoSystem msg (stayAt l h (Env (ReadFrame (Inr ''a'')) # Env ReadPut # Go FromAck # as)) =
       (Ret (), stayAt (l @ [the (memEncode (cm_Payload msg))]) h as)"
  by (simp add: sendAndWaitAck_def thenE_run stay_steps ackTurn_def)

lemma stay_action:
  "map_of memCodes a \<noteq> None \<Longrightarrow> SendAction demoSystem a (stayAt l h (Env (ReadFrame (Inr ''a'')) # Env ReadPut # Go FromAck # as)) =
     (Ret (), stayAt (l @ [the (map_of memCodes a)]) h as)"
  "memEncode (P_GuestResponse resp) \<noteq> None \<Longrightarrow>
     Reply demoSystem (Some q) resp (stayAt l h (Env (ReadFrame (Inr ''a'')) # Env ReadPut # Go FromAck # as)) =
     (Ret (), stayAt (l @ [the (memEncode (P_GuestResponse resp))]) h as)"
  by (simp_all add: SendAction_def Reply_def bindE_run(1) stay_send)

lemma stay_next:
  "memFrames f = Some (systemMessage p) \<Longrightarrow> isSystem (systemMessage p) \<Longrightarrow>
     WaitForNextSystemMessage demoSystem (stayAt l h (Env (ReadFrame (Inr f)) # Env ReadPut # Go FromChan # as)) =
       (Ret (systemMessage p), stayAt (l @ [''Km'']) h as)"
  by (auto simp: WaitForNextSystemMessage_def await_def readFrame_def readPut_def newClient_def isSystem_def GetAck_def systemMessage_def
    GetSystemNotification_def GetSystemRequest_def Let_def nextTurn_def handOut_def split: Payload.splits)

lemma stay_told:
  assumes "memFrames f = Some (systemMessage p)" and "isSystem (systemMessage p)" and "\<And>w. handle (systemMessage p) w = (Ret (Some a), w)"
  shows "forMessages demoSystem handle (stayAt l h (Env (ReadFrame (Inr f)) # Env ReadPut # Go FromChan # as)) = (Ret a, stayAt (l @ [''Km'']) h as)"
  by (simp add: forMessages_def bindE_run(1) [where m = "WaitForNextSystemMessage demoSystem", OF stay_next [OF assms(1,2)]]
      bindE_run(1) [where m = "handle (systemMessage p)", OF assms(3)])

lemma stay_frames:
  "memFrames ''i'' = Some (systemMessage (P_SystemNotification CHECK_IN_COMPLETE))"
  "memFrames ''g'' = Some (systemMessage (P_SystemRequest GIVE_COTTAGE_KEY))"
  "memFrames ''d'' = Some (systemMessage (P_SystemNotification DINNER_READY))"
  "memFrames ''b'' = Some (systemMessage (P_SystemNotification BREAKFAST_READY))"
  "memFrames ''k'' = Some (systemMessage (P_SystemRequest REQUEST_COTTAGE_KEY))"
  "memFrames ''o'' = Some (systemMessage (P_SystemNotification CHECK_OUT_COMPLETE))"
  by (simp_all add: memFrames_def)

lemma stay_getters [simp]:
  "GetSystemNotification (systemMessage (P_SystemNotification n)) = n" "GetSystemRequest (systemMessage (P_SystemRequest q)) = q"
  "GetSystemNotification (systemMessage (P_SystemRequest q)) = SYSTEM_NOTIFICATION_UNSPECIFIED"
  "isSystem (systemMessage (P_SystemNotification n)) \<longleftrightarrow> n \<noteq> SYSTEM_NOTIFICATION_UNSPECIFIED"
  "isSystem (systemMessage (P_SystemRequest q)) \<longleftrightarrow> q \<noteq> SYSTEM_REQUEST_UNSPECIFIED"
  by (simp_all add: GetSystemNotification_def GetSystemRequest_def systemMessage_def isSystem_def)

lemma stay_expectNotification:
  "memFrames f = Some (systemMessage (P_SystemNotification n)) \<Longrightarrow> n \<noteq> SYSTEM_NOTIFICATION_UNSPECIFIED \<Longrightarrow>
     expectNotification demoSystem n (stayAt l h (Env (ReadFrame (Inr f)) # Env ReadPut # Go FromChan # as)) = (Ret (), stayAt (l @ [''Km'']) h as)"
  unfolding expectNotification_def by (rule stay_told, assumption) simp_all

lemma stay_expectRequest:
  "memFrames f = Some (systemMessage (P_SystemRequest q)) \<Longrightarrow> q \<noteq> SYSTEM_REQUEST_UNSPECIFIED \<Longrightarrow>
     expectRequest demoSystem q (stayAt l h (Env (ReadFrame (Inr f)) # Env ReadPut # Go FromChan # as)) =
       (Ret (systemMessage (P_SystemRequest q)), stayAt (l @ [''Km'']) h as)"
  unfolding expectRequest_def by (rule stay_told, assumption) simp_all

lemma stay_finishCheckin:
  "finishCheckin demoSystem fl g b (stayAt l h (Env (ReadFrame (Inr ''i'')) # Env ReadPut # Go FromChan # as)) = (Ret (), stayAt (l @ [''Km'']) h as)"
  unfolding finishCheckin_def by (rule stay_told [OF stay_frames(1)]) (simp_all add: checkinTurn_def)

text \<open>Waiting for an hour that has passed: the goroutine it starts stays behind.\<close>

definition behind :: "int \<Rightarrow> TimeHub \<Rightarrow> TimeHub" where
  "behind hr h = snd (spawnHourNotification hr h)"

lemma behind_simps [simp]: "CurrentTime (behind hr h) = CurrentTime h"
  by (simp add: behind_def spawnHourNotification_def CurrentTime_def)

lemma stay_hour:
  assumes "CurrentTime h = (demoLate, True)" and "ns target \<le> ns demoLate"
  shows "waitUntil demoSystem target (stayAt l h (Go CtxDone # as)) = (Ret (), stayAt l (behind (HourOf target) h) as)"
  using assms
  by (simp add: waitUntil_def thenE_def bindE_def spawnHourNotification_def Let_def preempt_def Before_def behind_def CurrentTime_def split: if_splits)


lemma stay_arrival:
  assumes "ns target \<le> ns demoLate"
  shows "waitUntil demoSystem target (stayAt [] NewTimeEventService (Env (HubStarted True) # Env (HubReceive ''t'') # Go CtxDone # as)) =
    (Ret (), stayAt [] (hubReceive (sysTime demoSystem) ''t'' (hubStarted True (behind (HourOf target) NewTimeEventService))) as)"
  using assms
  by (simp add: waitUntil_def thenE_def bindE_def spawnHourNotification_def Let_def preempt_def Before_def behind_def CurrentTime_def
     hubReceive_def hubStarted_def NewTimeEventService_def unmarshalTimeEvent_def memSystem_def demoLate_def)

lemma stay_current [simp]:
  "CurrentTime (hubReceive (sysTime demoSystem) ''t'' (hubStarted True (behind hr NewTimeEventService))) = (demoLate, True)"
  by (simp add: CurrentTime_def hubReceive_def hubStarted_def NewTimeEventService_def behind_def spawnHourNotification_def unmarshalTimeEvent_def
    memSystem_def demoLate_def)

lemma demo_late: "dayOffset st \<le> 3 \<Longrightarrow> NotBeforeHour (gate st) \<le> 24 \<Longrightarrow> ns (gateTarget demoPeriod st) \<le> ns demoLate"
  by (simp add: gateTarget_ns demoPeriod_def demoLate_def AsTime_def)

lemma demo_nights: "stayNights demoPeriod = 3"
  by code_simp

lemmas stay_gate = waitForActionGate_def noGate_def stay_expectNotification stay_expectRequest stay_frames stay_hour demo_late

lemma executeActionPlan_append: "executeActionPlan S p (xs @ ys) = thenE (executeActionPlan S p xs) (executeActionPlan S p ys)"
proof (induction xs)
  case Nil
  show ?case by (simp only: append.simps executeActionPlan.simps thenE_simps)
next
  case (Cons st xs)
  then show ?case by (simp only: append.simps executeActionPlan.simps thenE_assoc)
qed

text \<open>The stages of the stay: arrival, the first day, the full day, check-out.\<close>

abbreviation "stayOut \<equiv> hour @ acked @ hour @ acked @ acked @ told ''k'' @ acked @ acked @ told ''o''"
abbreviation "stayDay2 \<equiv> hour @ acked @ hour @ told ''b'' @ acked @ hour @ acked @ hour @ acked @ hour @ acked
  @ hour @ told ''d'' @ acked @ hour @ acked @ stayOut"
abbreviation "stayDay0 \<equiv> acked @ hour @ acked @ hour @ told ''d'' @ acked @ hour @ acked @ stayDay2"
abbreviation "stayKey0 \<equiv> told ''i'' @ told ''g'' @ acked @ acked @ stayDay0"

lemmas stay_stage = DefaultLodgingFlow_def expandPlan_def memCodes_def thenE_run bindE_run(1) stay_action stay_gate awaitNotification_def

lemma stay_showUp: "\<exists>l h. CurrentTime h = (demoLate, True)
    \<and> executeActionPlan demoSystem demoPeriod (expandPlan 0 (ShowUp (Checkin DefaultLodgingFlow)))
      (stayAt [] NewTimeEventService demoStaySched) = (Ret (), stayAt l h stayKey0)"
  unfolding demoStaySched_def
  by (simp add: stay_stage stay_arrival) (rule exI, rule exI, rule conjI [rotated], rule refl, simp)

lemma stay_firstDay: "CurrentTime h = (demoLate, True) \<Longrightarrow> \<exists>l' h'. CurrentTime h' = (demoLate, True)
    \<and> executeActionPlan demoSystem demoPeriod (expandPlan 0 (FirstDayStay DefaultLodgingFlow)) (stayAt l h stayDay0) = (Ret (), stayAt l' h' stayDay2)"
  by (simp add: stay_stage) (rule exI, rule exI, rule conjI [rotated], rule refl, simp)

lemma stay_fullDay: "CurrentTime h = (demoLate, True) \<Longrightarrow> \<exists>l' h'. CurrentTime h' = (demoLate, True)
    \<and> executeActionPlan demoSystem demoPeriod (expandPlan 2 (RecurringStay DefaultLodgingFlow)) (stayAt l h stayDay2) = (Ret (), stayAt l' h' stayOut)"
  by (simp add: stay_stage) (rule exI, rule exI, rule conjI [rotated], rule refl, simp)

lemma stay_checkOut: "CurrentTime h = (demoLate, True) \<Longrightarrow> \<exists>l' h'.
    executeCheckoutSteps demoSystem k demoPeriod (expandPlan 3 (Checkout DefaultLodgingFlow)) (stayAt l h stayOut) = (Ret (), stayAt l' h' [])"
  by (simp add: stay_stage) (rule exI, rule exI, rule refl)

lemma stay_plan: "CurrentTime h = (demoLate, True) \<Longrightarrow> \<exists>l' h'.
    thenE (executeActionPlan demoSystem demoPeriod (buildStayActionPlan DefaultLodgingFlow demoPeriod))
      (executeCheckoutPlan demoSystem DefaultLodgingFlow k demoPeriod) (stayAt l h stayDay0) = (Ret (), stayAt l' h' [])"
proof -
  assume now: "CurrentTime h = (demoLate, True)"
  have days: "[2..fullStayDays demoPeriod] = [2]" "checkoutDayOffset demoPeriod = 3"
    by (simp_all add: fullStayDays_def checkoutDayOffset_def demo_nights)
  let ?first = "executeActionPlan demoSystem demoPeriod (expandPlan 0 (FirstDayStay DefaultLodgingFlow))"
  let ?full = "executeActionPlan demoSystem demoPeriod (expandPlan 2 (RecurringStay DefaultLodgingFlow))"
  obtain l2 h2 where h2: "CurrentTime h2 = (demoLate, True)" "?first (stayAt l h stayDay0) = (Ret (), stayAt l2 h2 stayDay2)"
    using stay_firstDay [OF now] by blast
  obtain l3 h3 where h3: "CurrentTime h3 = (demoLate, True)" "?full (stayAt l2 h2 stayDay2) = (Ret (), stayAt l3 h3 stayOut)"
    using stay_fullDay [OF h2(1)] by blast
  obtain l4 h4 where h4: "executeCheckoutSteps demoSystem k demoPeriod (expandPlan 3 (Checkout DefaultLodgingFlow)) (stayAt l3 h3 stayOut) =
      (Ret (), stayAt l4 h4 [])"
    using stay_checkOut [OF h3(1)] by blast
  have "thenE ?first (thenE ?full (executeCheckoutPlan demoSystem DefaultLodgingFlow k demoPeriod)) (stayAt l h stayDay0) = (Ret (), stayAt l4 h4 [])"
    unfolding executeCheckoutPlan_def buildCheckoutActionPlan_def days
    by (simp only: thenE_run [where m = ?first, OF h2(2)] thenE_run [where m = ?full, OF h3(2)] h4)
  then show ?thesis
    unfolding buildStayActionPlan_def days executeActionPlan_append list.map concat.simps append_Nil2 thenE_assoc by blast
qed

lemma stay_context: "lodgingContext demoSystem (Some demoCache) (stayAt [] NewTimeEventService as) =
    (Ret (demoGuest, demoBooking, demoPeriod), stayAt [] NewTimeEventService as)"
proof -
  have "stayAt [] NewTimeEventService as = demoAt demoListed demoPaid [] demoConsumer demoBusCheckedIn as"
    by (simp add: stay_start)
  moreover have "RedisKey demoListed = demoKey" "cacheable demoPaid" "PersonalInfo demoPaid = Some demoGuest"
    "Booking demoPaid = Some demoBooking" "BookingID demoBooking = ''b1''" "SelectedPeriod demoBooking = Some demoPeriod"
    by (simp_all add: demoListed_def demoConnected_def demoPaid_def demoBooked_def demoBooking_def demoKnown_def demoFresh_def)
  ultimately show ?thesis by (simp add: lodgingContext_def demo_run)
qed

lemma demo_stay: "\<exists>l h. RunLodgingStep_Execute demoSystem url DefaultLodgingFlow (Some demoCache)
    (stayAt [] NewTimeEventService demoStaySched) = (Ret (), stayAt l h [])"
proof -
  obtain l1 h1 where h1: "CurrentTime h1 = (demoLate, True)"
    "executeActionPlan demoSystem demoPeriod (expandPlan 0 (ShowUp (Checkin DefaultLodgingFlow))) (stayAt [] NewTimeEventService demoStaySched) =
      (Ret (), stayAt l1 h1 stayKey0)"
    using stay_showUp by blast
  obtain l4 h4 where plan: "thenE (executeActionPlan demoSystem demoPeriod (buildStayActionPlan DefaultLodgingFlow demoPeriod))
      (executeCheckoutPlan demoSystem DefaultLodgingFlow ''id-1'' demoPeriod)
      (stayAt (l1 @ [''Km'', ''Km'', ''Rid-1'', ''2'']) h1 stayDay0) = (Ret (), stayAt l4 h4 [])"
    using stay_plan [OF h1(1)] by blast
  note runs = stay_finishCheckin stay_expectRequest [OF stay_frames(2)] stay_action
  have body: "bindE (extV (uuidNewString (sysN demoSystem))) (\<lambda>keyID.
       thenE (executeActionPlan demoSystem demoPeriod (expandPlan 0 (ShowUp (Checkin DefaultLodgingFlow))))
      (thenE (finishCheckin demoSystem DefaultLodgingFlow demoGuest demoBooking)
      (bindE (expectRequest demoSystem GIVE_COTTAGE_KEY) (\<lambda>msg.
       thenE (Reply demoSystem (Some msg) (ReceiveCottageKey keyID))
      (thenE (SendAction demoSystem TAKE_COTTAGE_KEY)
      (thenE (executeActionPlan demoSystem demoPeriod (buildStayActionPlan DefaultLodgingFlow demoPeriod))
        (executeCheckoutPlan demoSystem DefaultLodgingFlow keyID demoPeriod)))))))
      (stayAt [] NewTimeEventService demoStaySched) = (Ret (), stayAt l4 h4 [])"
    using plan by (simp add: bindE_run(1) thenE_run h1(2) runs memCodes_def)
  have "NewClient demoSystem url (stayAt [] NewTimeEventService demoStaySched) = (Ret (), stayAt [] NewTimeEventService demoStaySched)"
    by (simp add: NewClient_def thenE_run)
  with body show ?thesis
    by (intro exI [of _ l4] exI [of _ h4]) (simp add: RunLodgingStep_Execute_def bindE_run(1) [where m = "lodgingContext demoSystem (Some demoCache)", OF stay_context]
      thenE_run closing_def CloseClient_def)
qed

lemma demo_stayFlow: "\<exists>l h. RunLodgingStayFlow demoSystem True (gj_chatURL demoJourney) (Some demoCache)
    (demoAt demoListed demoPaid [] demoConsumer demoBusCheckedIn demoStaySched) = (Ret (), stayAt l h [])"
proof -
  obtain l h where h: "RunLodgingStep_Execute demoSystem (gj_chatURL demoJourney) DefaultLodgingFlow (Some demoCache)
      (stayAt [] NewTimeEventService demoStaySched) = (Ret (), stayAt l h [])"
    using demo_stay by blast
  have start: "demoAt demoListed demoPaid [] demoConsumer demoBusCheckedIn demoStaySched = stayAt [] NewTimeEventService demoStaySched"
    by (rule stay_start)
  have "gj_chatURL demoJourney \<noteq> []" "ShowUp (Checkin DefaultLodgingFlow) \<noteq> []" by (simp_all add: demoJourney_def DefaultLodgingFlow_def)
  then have "RunLodgingStep_Validate True True (gj_chatURL demoJourney) DefaultLodgingFlow (Some demoCache) (stayAt [] NewTimeEventService demoStaySched)
      = (Ret (), stayAt [] NewTimeEventService demoStaySched)"
    unfolding start [symmetric] by (simp add: RunLodgingStep_Validate_def)
  moreover have "extV (ctxErr memExternal) (stayAt [] NewTimeEventService demoStaySched) = (Ret None, stayAt [] NewTimeEventService demoStaySched)"
    unfolding start [symmetric] by (simp add: demo_run)
  ultimately show ?thesis
    unfolding start using h
    by (intro exI [of _ l] exI [of _ "cancelNotifiers h"])
      (simp add: RunLodgingStayFlow_def cancelling_def runStepGraph_def noopStep_Execute_def bindE_run(1) thenE_run)
qed

lemma demo_cleanup: "fst (cleanupGuestJourney demoSystem demoJourney (stayAt l h [])) = Ret ()"
  by (simp add: cleanupGuestJourney_def CleanupState_def LogStateCache_def DeleteStateCache_def CloseCommunication_def
    CloseChannel_def demoJourney_def thenE_def bindE_def Get_def Del_def ext_def extV_def
    memExternal_def memAmqp_def demoAt_def stayAt_def Let_def demoKey_def demoListed_def demoConnected_def demoRegistered_def demoCreated_def
    demoConsumer_def)

lemma demo_complete: "\<exists>w'. Start_journey demoSystem demoJourney 6 demoBuilt = (Ret (), w')"
proof -
  obtain l h where h: "RunLodgingStayFlow demoSystem True (gj_chatURL demoJourney) (Some demoCache)
    (demoAt demoListed demoPaid [] demoConsumer demoBusCheckedIn demoStaySched) = (Ret (), stayAt l h [])"
    using demo_stayFlow by blast
  obtain w' where "cleanupGuestJourney demoSystem demoJourney (stayAt l h []) = (Ret (), w')"
    using demo_cleanup [of l h] by (cases "cleanupGuestJourney demoSystem demoJourney (stayAt l h [])") auto
  moreover have "gj_cache demoJourney = demoCache" by (simp add: demoJourney_def)
  ultimately show ?thesis
    using h demo_prepare by (simp add: Start_journey_def onErrorJoin_def journeyBody_def thenE_run tryE_run bindE_run(1))
qed

end
