(* ===== verification/Stay_properties.thy ===== *)
theory Stay_properties
  imports Demostay Sharedhub
begin

text \<open>
  What the stay promises: the plan and its order, the waits for an hour, the chat with the
  lodging system and the hour events behind it.
\<close>

section \<open>The plan\<close>

text \<open>
  C21. The timetable of a stay of any number of nights: the steps that wait for an hour are exactly those below, each
  action with its instant, counted from the midnight of check-in. The guest arrives at 15:00; has bath, dinner and sleep
  on the first day; from the day after next to the day before check-out repeats the seven steps of a full
  day; and wakes up at 7:00 and leaves at 9:00 of the day of check-out. The instants never go back. The first full
  day after check-in has no steps, and for the three nights every search finds the days are 0, 2 and 3.
\<close>

theorem stay_in_order:
  assumes "midnight (Start p)" and "End p = AddDate (Start p) 0 0 n" and "1 \<le> n" and "n \<le> 106751"
  shows "map (\<lambda>st. (planAction st, ns (gateTarget p st))) (filter (\<lambda>st. HasNotBeforeHour (gate st)) (fullPlan p)) =
      map (\<lambda>(a, h). (a, ns (Start p) + h * Hour))
       ([(SHOW_FOR_CHECKIN, 15), (GO_FOR_A_BATH, 16), (GO_FOR_DINNER, 18), (GO_TO_SLEEP, 22)]
        @ concat (map (\<lambda>d. [(WAKEUP, 24 * d + 7), (GO_FOR_BREAKFAST, 24 * d + 8), (LEAVE_CLEANUP_NOTIFICATION, 24 * d + 10),
            (ENJOY_RESORT, 24 * d + 11), (GO_FOR_A_BATH, 24 * d + 16), (GO_FOR_DINNER, 24 * d + 18), (GO_TO_SLEEP, 24 * d + 22)])
            [2..n - 1])
        @ [(WAKEUP, 24 * n + 7), (LEAVE_COTTAGE, 24 * n + 9)])
    \<and> sorted (map (\<lambda>st. ns (gateTarget p st)) (filter (\<lambda>st. HasNotBeforeHour (gate st)) (fullPlan p)))
    \<and> dayOffset ` set (fullPlan p) = {0, n} \<union> {2..n - 1}
    \<and> ns (Start p) + (24 * n + 9) * Hour = ns (End p) + 9 * Hour"
proof -
  have n: "stayNights p = n" by (rule stayNights_exact) (use assms in simp_all)
  then have days: "fullStayDays p = (if n = 1 then 0 else n - 1)" "checkoutDayOffset p = n"
    using assms(3) by (simp_all add: fullStayDays_def checkoutDayOffset_def)
  have upto: "[2..fullStayDays p] = [2..n - 1]" using assms(3) by (simp add: days)
  have target: "ns (gateTarget p st) = ns (Start p) + (24 * dayOffset st + NotBeforeHour (gate st)) * Hour" for st
    using assms(1) by (simp add: gateTarget_ns midnight_def distrib_right mod_eq_0_iff_dvd)
  have "sorted (map (\<lambda>h. ns (Start p) + h * Hour) (planHours (fullPlan p)))"
    using fullPlan_sorted [of p] n assms(3) by (simp add: sorted_map)
  then have "sorted (map (\<lambda>st. ns (gateTarget p st)) (filter (\<lambda>st. HasNotBeforeHour (gate st)) (fullPlan p)))"
    by (simp add: planHours_def target o_def)
  moreover have "dayOffset ` set (fullPlan p) = {0, n} \<union> {2..n - 1}"
    using stay_days [of p] assms(3)
    by (auto simp: fullPlan_def image_Un buildCheckoutActionPlan_def days expandPlan_def DefaultLodgingFlow_def split: if_splits)
  moreover have "ns (End p) = ns (Start p) + 24 * n * Hour" using assms(2) by (simp add: AddDate_days)
  moreover have "map (\<lambda>st. (planAction st, ns (gateTarget p st))) (filter (\<lambda>st. HasNotBeforeHour (gate st)) (expandPlan d (RecurringStay DefaultLodgingFlow))) =
      map (\<lambda>(a, h). (a, ns (Start p) + h * Hour)) [(WAKEUP, 24 * d + 7), (GO_FOR_BREAKFAST, 24 * d + 8), (LEAVE_CLEANUP_NOTIFICATION, 24 * d + 10),
            (ENJOY_RESORT, 24 * d + 11), (GO_FOR_A_BATH, 24 * d + 16), (GO_FOR_DINNER, 24 * d + 18), (GO_TO_SLEEP, 24 * d + 22)]" for d
    by (simp add: target expandPlan_def DefaultLodgingFlow_def noGate_def)
  ultimately show ?thesis
    by (simp add: fullPlan_def buildStayActionPlan_def buildCheckoutActionPlan_def upto days filter_concat map_concat o_def)
      (simp add: target expandPlan_def DefaultLodgingFlow_def noGate_def distrib_right)
qed

theorem stay_in_order_witness:
  "dayOffset ` set (fullPlan demoPeriod) = {0, 2, 3}
   \<and> hd (map (\<lambda>st. (planAction st, ns (gateTarget demoPeriod st))) (filter (\<lambda>st. HasNotBeforeHour (gate st)) (fullPlan demoPeriod)))
     = (SHOW_FOR_CHECKIN, ns (Start demoPeriod) + 15 * Hour)
   \<and> last (map (\<lambda>st. (planAction st, ns (gateTarget demoPeriod st))) (filter (\<lambda>st. HasNotBeforeHour (gate st)) (fullPlan demoPeriod)))
     = (LEAVE_COTTAGE, ns (End demoPeriod) + 9 * Hour)"
proof -
  have "midnight (Start demoPeriod)" "End demoPeriod = AddDate (Start demoPeriod) 0 0 3" by code_simp+
  note t = stay_in_order [OF this]
  have "{0, 3} \<union> {2..3 - 1} = {0, 2, 3 :: int}" by auto
  then show ?thesis using t by simp
qed

text \<open>
  C22. What a guest says on the wire. For every schedule of the other goroutines, a stay that is
  carried out has written the actions and key messages of its script, in the script's order, each
  once, and no others: it shows up, receives a key and takes it, spends the first day, repeats the daily
  routine once for every night but the first and the last, then wakes up, leaves, proceeds to
  check-out and returns the very key it received before saying so.
\<close>

theorem stay_on_the_wire:
  assumes "wireLaws S frames payloadOf" and "RunLodgingStep_Execute S url DefaultLodgingFlow C w = (Ret (), w')"
  shows "\<exists>g b p w1 k. lodgingContext S C w = (Ret (g, b, p), w1)
    \<and> spoken payloadOf (frames (w_ext w')) = spoken payloadOf (frames (w_ext w)) @ stayScript k (nat (stayNights p))"
proof -
  have "wire S frames payloadOf" using assms(1) by unfold_locales
  from wire.stay_spoken [OF this _ assms(2)] show ?thesis unfolding spokenIs_def plan_script by blast
qed

theorem stay_on_the_wire_witness:
  "\<exists>k w'. RunLodgingStep_Execute demoSystem ''ws'' DefaultLodgingFlow (Some demoCache) (stayAt [] NewTimeEventService demoStaySched) = (Ret (), w')
     \<and> spoken memDecode (mem_log (w_ext w')) = stayScript k 3"
proof -
  obtain l h where run: "RunLodgingStep_Execute demoSystem ''ws'' DefaultLodgingFlow (Some demoCache)
      (stayAt [] NewTimeEventService demoStaySched) = (Ret (), stayAt l h [])"
    using demo_stay by blast
  from stay_on_the_wire [OF mem_wire run] show ?thesis
    unfolding stay_context using run by (auto simp: demo_nights spoken_def)
qed

section \<open>Waiting for an hour\<close>

lemma otherDays_loop:
  assumes live: "neverCancelled (sysE S)" and days: "\<forall>t \<in> T. \<not> sameUTCDay t target"
  shows "select_loop (envStep S) (untilTurn S i target) (reports S T) (\<lambda>_ w. timesIn T (hub w)) (\<lambda>_ _. False)"
proof
  fix s w c r and w' :: "'a JWorld"
  assume T: "timesIn T (hub w)" and run: "untilTurn S i target s c w = (Inl r, w')"
  have "fst (ctxErr (sysE S) (w_ext w)) = None" using live unfolding neverCancelled_def by blast
  then have "(res :: unit res + unit) = Inr s" if "ctxTurn (sysE S) s w = (res, v)" for res v
    using that by (auto simp: ctxTurn_def split: prod.splits option.splits)
  then show False using run days timesIn_take [OF T]
    by (auto simp: untilTurn_def split: SelectCase.splits option.splits if_splits)
qed (use untilTurn_result timesIn_env in blast)+

text \<open>
  C23. A wait for an hour only wakes up for an event of the day it waits for: with no current time
  known when it starts and looks at the clock, every later event on another day and the context not
  cancelled, it never returns, even when those events are past the hour it waits for.
\<close>

theorem other_days_ignored:
  assumes "neverCancelled (sysE S)" and "\<not> hasCurrentTime (hub w)" and "sched w = Go c # as"
    and days: "\<forall>t \<in> hubTimes (hub w) \<union> eventTimes S as. \<not> sameUTCDay t target"
  shows "\<exists>w'. waitUntil S target w = (Blocks, w')"
proof -
  define T where "T = hubTimes (hub w) \<union> eventTimes S as"
  obtain i h where sp: "spawnHourNotification (HourOf target) (hub w) = (i, h)" by fastforce
  have "timesIn T (hub w)" by (rule timesIn_hubTimes) (simp add: T_def)
  then have T1: "timesIn T h" using sp timesIn_journeys(1) [of T "hub w" "HourOf target"] by simp
  have now: "\<not> hasCurrentTime h" using sp assms(2) by (auto simp: spawnHourNotification_def)
  have acts: "{a. Env a \<in> set as} \<subseteq> reports S T" by (auto simp: T_def reports_def eventTimes_def)
  let ?w1 = "w\<lparr>hub := h, sched := as\<rparr>"
  obtain r as' w2 where lp: "loopOn (envStep S) (untilTurn S i target) () as ?w1 = (r, as', w2)" by (metis prod_cases3)
  have "timesIn T (hub ?w1)" using T1 by simp
  from select_loop.outcome [OF otherDays_loop [OF assms(1) days [folded T_def]] this acts lp] have "r = Blocks" by blast
  then show ?thesis
    using sp now lp assms(3) by (simp add: waitUntil_def thenE_def bindE_def preempt_def CurrentTime_def await_def)
qed


theorem other_days_ignored_witness:
  "\<exists>w'. waitUntil demoSystem (AsTime \<lparr>seconds = 1749513600 - 9 * 3600, nanos = 0\<rparr>)
     (stayAt [] NewTimeEventService (Go CtxDone # Env (HubStarted True) # Env (HourGo 0) # Env (HubReceive ''t'') # Env HubNotify # Env (HourGo 0)
        # Env (HourGo 0) # Go FromChan # [])) = (Blocks, w')"
proof -
  let ?target = "AsTime \<lparr>seconds = 1749513600 - 9 * 3600, nanos = 0\<rparr>"
  have "\<not> sameUTCDay demoLate ?target" by code_simp
  moreover have "hubTimes NewTimeEventService = {}"
    by (simp add: hubTimes_def NewTimeEventService_def)
  moreover have "eventTimes demoSystem as \<subseteq> {demoLate}" for as
    by (auto simp: eventTimes_def unmarshalTimeEvent_def memSystem_def demoLate_def split: if_splits option.splits)
  ultimately have "\<forall>t \<in> hubTimes NewTimeEventService \<union> eventTimes demoSystem as. \<not> sameUTCDay t ?target" for as by blast
  moreover have "\<not> hasCurrentTime NewTimeEventService" by (simp add: NewTimeEventService_def)
  ultimately show ?thesis
    using other_days_ignored [of demoSystem "stayAt [] NewTimeEventService (Go CtxDone # Env (HubStarted True) # Env (HourGo 0) # Env (HubReceive ''t'') # Env HubNotify # Env (HourGo 0)
        # Env (HourGo 0) # Go FromChan # [])"] mem_live by simp
qed

text \<open>A service that has stopped learns no new time, whatever is scheduled.\<close>

definition stoppedAt :: "Time set \<Rightarrow> 'x JWorld \<Rightarrow> bool" where
  "stoppedAt T w \<longleftrightarrow> servicePc (hub w) = ServiceStopped \<and> timesIn T (hub w)"

lemma servicePc_hub [simp]:
  "servicePc (hubNotify ord h) = servicePc h" "servicePc (hubSend ord h) = servicePc h" "servicePc (hourStep i h) = servicePc h" "servicePc (hourCancel i h) = servicePc h"
  "servicePc (hubReceive proto body h) = servicePc h" "servicePc (spawnElsewhere hr h) = servicePc h"
  "servicePc (takeElsewhere i h) = servicePc h" "servicePc (cancelElsewhere i h) = servicePc h"
  by (auto simp: spawnElsewhere_def takeElsewhere_def takeNotification_def cancelElsewhere_def hubNotify_def hubSend_def hourStep_def hourCancel_def hubReceive_def setNotifier_def Register_def Unregister_def Let_def
    split: option.splits HourPc.splits sum.splits prod.splits list.splits)

lemma stoppedAt_env:
  assumes w: "stoppedAt T w"
  shows "stoppedAt T (envStep S a w)"
proof (cases a)
  case (HubReceive body)
  then show ?thesis using w by (auto simp: stoppedAt_def hubReceive_def)
next
  case (ReadFrame f)
  then show ?thesis using w
    by (cases "readFrame (sysN S) f (chat w)") (simp add: stoppedAt_def Let_def sendAck_frame split: option.splits)
qed (use w in \<open>auto simp: stoppedAt_def whenCancelled_def timesIn_hourStep timesIn_hourCancel timesIn_notify timesIn_journeys hubStarted_def hubStopped_def
  split: prod.splits option.splits\<close>)

lemma stopped_loop:
  assumes live: "neverCancelled (sysE S)" and late: "\<forall>t \<in> T. ns t < ns target"
  shows "select_loop (envStep S) (untilTurn S i target) UNIV (\<lambda>_. stoppedAt T) (\<lambda>_ _. False)"
proof
  fix s :: unit and c r and w w' :: "'a JWorld"
  assume w: "stoppedAt T w"
  have ctx: "ctxTurn (sysE S) s w = (Inr s :: unit res + unit, w\<lparr>w_ext := snd (ctxErr (sysE S) (w_ext w))\<rparr>)"
    using live by (cases "ctxErr (sysE S) (w_ext w)") (auto simp: neverCancelled_def ctxTurn_def dest: spec [of _ "w_ext w"])
  have take: "ns t < ns target \<and> servicePc h = ServiceStopped \<and> timesIn T h" if "takeNotification i (hub w) = Some (t, h)" for t h
    using w that late timesIn_take [of T "hub w" i t h]
    by (auto simp: stoppedAt_def takeNotification_def Let_def setNotifier_def split: if_splits list.splits)
  show "untilTurn S i target s c w = (Inr s', w') \<Longrightarrow> stoppedAt T w'" for s'
    using w ctx take by (auto simp: untilTurn_def stoppedAt_def split: SelectCase.splits option.splits if_splits)
  show "untilTurn S i target s c w = (Inl r, w') \<Longrightarrow> False"
    using w ctx take by (auto simp: untilTurn_def Before_def split: SelectCase.splits option.splits if_splits)
qed (rule stoppedAt_env)

text \<open>
  C24. A lost event stream is never made up for. Once the goroutine of the hour events has returned
  because its consumer could not start or its channel of deliveries closed, while the context it shares with the
  journeys is live and stays so, a wait for an hour later than every time known so far never
  returns, under any schedule.
\<close>

theorem event_stream_lost:
  assumes "neverCancelled (sysE S)" and "servicePc (hub w) = ServiceStopped" and late: "\<forall>t \<in> hubTimes (hub w). ns t < ns target"
  shows "\<exists>w'. waitUntil S target w = (Blocks, w')"
proof -
  define T where "T = hubTimes (hub w)"
  obtain i h where sp: "spawnHourNotification (HourOf target) (hub w) = (i, h)" by fastforce
  have "timesIn T (hub w)" by (rule timesIn_hubTimes) (simp add: T_def)
  then have w1: "stoppedAt T (w\<lparr>hub := h\<rparr>)"
    using sp assms(2) timesIn_journeys(1) [of T "hub w" "HourOf target"]
    by (auto simp: stoppedAt_def spawnHourNotification_def)
  obtain as w2 where pre: "preemptOn (envStep S) (sched w) (w\<lparr>hub := h\<rparr>) = (as, w2)" by fastforce
  have w2: "stoppedAt T w2"
    using preemptOn_inv [where I = "stoppedAt T" and A = UNIV, OF stoppedAt_env pre w1] by simp
  then have now: "snd (CurrentTime (hub w2)) \<Longrightarrow> Before (UTC (fst (CurrentTime (hub w2)))) target"
    using late by (auto simp: stoppedAt_def timesIn_def CurrentTime_def Before_def T_def split: if_splits)
  obtain r as' w3 where lp: "loopOn (envStep S) (untilTurn S i target) () as (w2\<lparr>sched := as\<rparr>) = (r, as', w3)" by (metis prod_cases3)
  have "stoppedAt T (w2\<lparr>sched := as\<rparr>)" using w2 by (simp add: stoppedAt_def)
  from select_loop.outcome [OF stopped_loop [OF assms(1) late [folded T_def]] this _ lp] have "r = Blocks" by blast
  then show ?thesis
    using sp pre now lp by (auto simp: waitUntil_def thenE_def bindE_def preempt_def await_def split: prod.splits)
qed

theorem event_stream_lost_witness:
  "\<exists>w'. waitUntil demoSystem (gateTarget demoPeriod (hd (fullPlan demoPeriod)))
     (stayAt [] (hubStopped (hubStarted True NewTimeEventService)) (Go CtxDone # Env (HubStarted True) # Env (HubReceive ''t'') # [Go FromChan])) = (Blocks, w')"
proof -
  have "neverCancelled (sysE demoSystem)" by (simp add: neverCancelled_def memExternal_def)
  moreover have "hubTimes (hubStopped (hubStarted True NewTimeEventService)) = {}" "servicePc (hubStopped (hubStarted True NewTimeEventService)) = ServiceStopped"
    by (simp_all add: hubTimes_def hubStarted_def hubStopped_def NewTimeEventService_def)
  ultimately show ?thesis
    using event_stream_lost [of demoSystem "stayAt [] (hubStopped (hubStarted True NewTimeEventService)) (Go CtxDone # Env (HubStarted True) # Env (HubReceive ''t'') # [Go FromChan])"]
    by simp
qed

section \<open>The chat\<close>

text \<open>
  C17. System messages are handed out in the order of their arrival: what \<open>WaitForNextSystemMessage\<close>
  returns is the first system message among those received, only messages that are not from
  the system are skipped before it, and all later ones are still there, whatever the reader does meanwhile.
\<close>

theorem next_message_in_order:
  assumes "clientInv (chat w)" and "WaitForNextSystemMessage S w = (Ret m, w')"
  shows "\<exists>pre new. (\<forall>q \<in> set pre. \<not> isSystem q) \<and> isSystem m \<and> clientInv (chat w')
    \<and> inTransit (chat w) @ new = pre @ m # inTransit (chat w')"
proof -
  obtain as' w2 where lp: "loopOn (envStep S) (nextTurn S) () (sched w) w = (Ret m, as', w2)" and w': "w' = w2\<lparr>sched := as'\<rparr>"
    using assms(2) by (auto simp: WaitForNextSystemMessage_def await_def split: prod.splits)
  have "skipped (inTransit (chat w)) w"
    using assms(1) by (auto simp: skipped_def transitFrom_def intro!: exI [of _ "[]"])
  from nextLoop.outcome [OF this _ lp] have "firstSystem (inTransit (chat w)) m w2" by simp
  then show ?thesis using w' by (auto simp: firstSystem_def transitFrom_def)
qed

theorem next_message_in_order_witness:
  "\<exists>pre new. inTransit (chat (stayAt [] demoHub [])) @ new = pre @ systemMessage (P_SystemNotification CHECK_IN_COMPLETE)
     # inTransit (chat (snd (WaitForNextSystemMessage demoSystem (stayAt [] demoHub (told ''i'' @ []))))) \<and> (\<forall>q \<in> set pre. \<not> isSystem q)"
proof -
  have run: "WaitForNextSystemMessage demoSystem (stayAt [] demoHub (told ''i'' @ [])) =
      (Ret (systemMessage (P_SystemNotification CHECK_IN_COMPLETE)), stayAt [''Km''] demoHub [])"
    using stay_next [OF stay_frames(1), of "[]" demoHub "[]"] by simp
  have "clientInv (chat (stayAt [] demoHub (told ''i'' @ [])))" using newClient_inv(1) by simp
  from next_message_in_order [OF this run] run show ?thesis by simp blast
qed

text \<open>
  C16. \<open>sendAndWaitAck\<close> returns without an error only after an acknowledgement that names the very
  message it sent, and whatever it returns, no system message received meanwhile is lost or
  moved: those in transit before are still there, in order, followed by the new ones.
\<close>

theorem ack_is_ours:
  assumes "clientInv (chat w)" and run: "sendAndWaitAck S msg w = (r, w')"
  shows "clientInv (chat w') \<and> (\<exists>new. inTransit (chat w') = inTransit (chat w) @ new)
    \<and> (r = Ret () \<longrightarrow> (\<exists>m \<in> ackSources S w. \<exists>k. GetAck m = Some k \<and> ak_AcknowledgedMessageId k = cm_MessageId msg))"
proof -
  obtain r1 w1 where wr: "chatWrite (sysN S) msg w = (r1, w1)" by fastforce
  have "onlyExt w w1" by (rule keepsD [OF chatWrite_onlyExt _ wr]) (simp add: onlyExt_def)
  then have "w1\<lparr>w_ext := w_ext w\<rparr> = w" by (simp add: onlyExt_def)
  from arg_cong [OF this, of chat] arg_cong [OF this, of sched] have w1: "chat w1 = chat w" "sched w1 = sched w" by simp_all
  show ?thesis
  proof (cases "r1 = Ret ()")
    case False
    then show ?thesis using run wr w1 assms(1) by (cases r1) (auto simp: sendAndWaitAck_def thenE_def bindE_def)
  next
    case True
    obtain as' w2 where lp: "loopOn (envStep S) (ackTurn S (cm_MessageId msg)) () (sched w) w1 = (r, as', w2)" and w': "w' = w2\<lparr>sched := as'\<rparr>"
      using run wr True w1 by (auto simp: sendAndWaitAck_def thenE_def bindE_def await_def split: prod.splits)
    have "transitFrom (inTransit (chat w)) [] w1" using assms(1) w1 by (simp add: transitFrom_def)
    from ackLoop.outcome [OF this _ lp] have "transitFrom (inTransit (chat w)) [] w2" by auto
    then obtain new where tr: "clientInv (chat w2)" "inTransit (chat w2) = inTransit (chat w) @ new"
      by (metis append_Nil transitFrom_def)
    have "acksIn (ackSources S w) w1" "{a. Env a \<in> set (sched w)} \<subseteq> ackFrames S (ackSources S w)"
      using w1 by (auto simp: acksIn_def ackSources_def ackFrames_def)
    from oursLoop.outcome [OF this lp] tr w' show ?thesis by auto
  qed
qed


theorem ack_is_ours_witness:
  "\<exists>m \<in> ackSources demoSystem (stayAt [] demoHub acked). \<exists>k. GetAck m = Some k \<and> ak_AcknowledgedMessageId k = ''id-1''"
proof -
  have "clientInv (chat (stayAt [] demoHub acked))" using newClient_inv(1) by simp
  from ack_is_ours [OF this stay_send [of "guestMessage ''id-1'' ''id-1'' (P_GuestAction TAKE_COTTAGE_KEY)" "[]" demoHub "[]"]]
  show ?thesis by (simp add: memCodes_def)
qed

text \<open>
  The loops over chat messages need no bound of their own: each round uses up a step of the
  schedule, so with any bound above the length of the schedule check-in and the waits for a
  request or a notification are the unbounded loops of the code.
\<close>

theorem message_loops_unbounded:
  assumes "length (sched w) < n"
  shows "expectNotification S k w = repeatMsg S n (\<lambda>msg. ret (if GetSystemNotification msg = k then Some () else None)) w
    \<and> expectRequest S q w = repeatMsg S n (\<lambda>msg. ret (if GetSystemRequest msg = q then Some msg else None)) w
    \<and> finishCheckin S fl g b w = repeatMsg S n (checkinTurn S fl g b) w"
proof (intro conjI)
  have fuel: "forMessages S handle w = repeatMsg S n handle w"
    if "\<And>msg w r w'. handle msg w = (Ret r, w') \<Longrightarrow> length (sched w') \<le> length (sched w)"
    for handle :: "ChatMessage \<Rightarrow> ('a JWorld, 'b option) go"
    unfolding forMessages_def by (rule repeatMsg_fuel) (use that assms in auto)
  show "expectNotification S k w = repeatMsg S n (\<lambda>msg. ret (if GetSystemNotification msg = k then Some () else None)) w"
    unfolding expectNotification_def by (rule fuel) simp
  show "expectRequest S q w = repeatMsg S n (\<lambda>msg. ret (if GetSystemRequest msg = q then Some msg else None)) w"
    unfolding expectRequest_def by (rule fuel) simp
  show "finishCheckin S fl g b w = repeatMsg S n (checkinTurn S fl g b) w"
    unfolding finishCheckin_def by (rule fuel) (rule checkinTurn_sched)
qed


theorem message_loops_unbounded_witness:
  "repeatMsg demoSystem 100 (checkinTurn demoSystem DefaultLodgingFlow demoGuest demoBooking) (stayAt [] demoHub (told ''i'' @ []))
     = (Ret (), stayAt [''Km''] demoHub [])"
  using message_loops_unbounded [of "stayAt [] demoHub (told ''i'' @ [])" 100 demoSystem BOOKING_CHECKING GIVE_COTTAGE_KEY DefaultLodgingFlow
      demoGuest demoBooking] stay_finishCheckin [of DefaultLodgingFlow demoGuest demoBooking "[]" demoHub "[]"]
  by simp

section \<open>Hour events\<close>

text \<open>
  C18. Journeys share the hub safely. In every interleaving of the event service, the goroutines of the waiters and
  the journeys, and whatever becomes of a journey, the hub only goes through its own steps: no buffer ever
  holds more than one event, a waiter is only ever given events of its own hour, and
  every listening goroutine has a registered channel that it shares with no other.
\<close>

theorem hub_invariant:
  assumes "iterationOrder (mapOrder (sysR S))" and start: "hubReach (mapOrder (sysR S)) (sysTime S) (hub w)"
    and run: "bindE (buildGuestJourney S C cfg host port) (\<lambda>G. Start_journey S G fuel) w = (r, w')"
    and h: "h = hub w \<or> h = hub w'"
  shows "hubReach (mapOrder (sysR S)) (sysTime S) h
    \<and> (\<forall>ch. length (buffers (hourChangeChannels h) ch) \<le> 1)
    \<and> (\<forall>n \<in> set (notifiers h). length (hn_timerCh n) \<le> 1 \<and> (\<forall>t \<in> set (hn_timerCh n). HourOf t = hn_hour n)
         \<and> (hn_pc n = Listening \<longrightarrow> hn_events n \<in> set (items (chans (hourChangeChannels h)))))
    \<and> (\<forall>i < length (notifiers h). \<forall>j < length (notifiers h). i \<noteq> j \<and> hn_pc (notifiers h ! i) = Listening \<and> hn_pc (notifiers h ! j) = Listening
         \<longrightarrow> hn_events (notifiers h ! i) \<noteq> hn_events (notifiers h ! j))"
proof -
  have "reachable S w'"
    using keepsD [OF keeps_bindE [OF reachable_build reachable_journey] _ run] start by (simp add: reachable_def)
  then have reach: "hubReach (mapOrder (sysR S)) (sysTime S) h" using start h by (auto simp: reachable_def)
  then have "hubInv h" by (rule hubReach_inv [OF _ assms(1)])
  with reach show ?thesis by (auto simp: hubInv_def topicInv_def notifierOk_def ownChannels_def)
qed

theorem hub_invariant_witness:
  "\<exists>w'. bindE (buildGuestJourney demoSystem (Some demoCache) demoConfig ''guest-manager'' 8081)
      (\<lambda>G. Start_journey demoSystem G 6) demoWorld = (Ret (), w')
    \<and> hubReach (mapOrder (sysR demoSystem)) (sysTime demoSystem) (hub w')
    \<and> (\<forall>ch. length (buffers (hourChangeChannels (hub w')) ch) \<le> 1)"
proof -
  obtain w' where run: "bindE (buildGuestJourney demoSystem (Some demoCache) demoConfig ''guest-manager'' 8081)
      (\<lambda>G. Start_journey demoSystem G 6) demoWorld = (Ret (), w')"
    using demo_complete by (auto simp: bindE_run demo_build)
  have "iterationOrder (mapOrder (sysR demoSystem))" by (simp add: iterationOrder_def)
  moreover have "hubReach (mapOrder (sysR demoSystem)) (sysTime demoSystem) (hub demoWorld)"
    by (simp add: demoWorld_def hubReach.init)
  ultimately show ?thesis using hub_invariant [OF _ _ run] run by blast
qed

text \<open>A hub with one goroutine that listens for the hour of \<open>demoLate\<close>.\<close>

abbreviation demoListening :: TimeHub where
  "demoListening \<equiv> hourStep 0 (snd (spawnHourNotification 0 (hubStarted True NewTimeEventService)))"

lemma demo_listening: "hubReach ord proto demoListening"
  by (rule hubReach.step [OF hubReach.step [OF hubReach.step [OF hubReach.init hubStep.started] hubStep.spawn] hubStep.listen])

text \<open>
  C19. An hour event gets through to its waiter: when the service is in its loop and a goroutine listens for an hour with nothing
  buffered, an event of that hour, received and notified, is what the waiter takes from its
  channel after two steps of that goroutine, and it is the current time.
\<close>

theorem hour_event_arrives:
  assumes inv: "hubInv h" and idle_service: "servicePc h = Consuming" "notifying h = None" and ord: "iterationOrder ord" and i: "i < length (notifiers h)"
    and listening: "hn_pc (notifiers h ! i) = Listening" "hn_timerCh (notifiers h ! i) = []"
    and idle: "buffers (hourChangeChannels h) (hn_events (notifiers h ! i)) = []"
    and event: "unmarshalTimeEvent proto body = Inr t" "HourOf t = hn_hour (notifiers h ! i)"
  shows "\<exists>h'. takeNotification i (hourStep i (hourStep i (hubNotify ord (hubReceive proto body h)))) = Some (t, h')
    \<and> CurrentTime h' = (t, True)"
proof -
  let ?n = "notifiers h ! i" and ?cs = "hourChangeChannels h"
  have n: "notifierOk ?cs ?n" and si: "setInv (chans ?cs)" and unsent: "sendingTo h = None"
    using inv nth_mem [OF i] idle_service(2) by (auto simp: hubInv_def topicInv_def)
  then have "hn_events ?n \<in> set (items (chans ?cs))" using listening by (simp add: notifierOk_def)
  then have "buffers (snd (notifySubscribers (Values ord (chans ?cs)) t ?cs)) (hn_events ?n) = [t]"
    using notify_all [OF si ord] idle by simp
  then show ?thesis
    using i listening event idle_service unsent
    by (simp add: hubReceive_def hubNotify_def hourStep_def Let_def receive_def setNotifier_def takeNotification_def CurrentTime_def)
qed


theorem hour_event_arrives_witness:
  "\<exists>h'. takeNotification 0 (hourStep 0 (hourStep 0 (hubNotify rev (hubReceive (sysTime demoSystem) ''t'' demoListening)))) = Some (demoLate, h')
    \<and> CurrentTime h' = (demoLate, True)"
proof -
  have ord: "iterationOrder (rev :: nat list \<Rightarrow> nat list)" by (simp add: iterationOrder_def)
  have inv: "hubInv demoListening" by (rule hubReach_inv [OF demo_listening ord])
  have ev: "unmarshalTimeEvent (sysTime demoSystem) ''t'' = Inr demoLate"
    by (simp add: unmarshalTimeEvent_def memSystem_def demoLate_def)
  have "HourOf demoLate = 0" by code_simp
  then show ?thesis
    using hour_event_arrives [OF inv _ _ ord _ _ _ _ ev, of 0]
    by (simp add: hourStep_def spawnHourNotification_def newNotifier_def NewTimeEventService_def hubStarted_def Let_def makeChan_def Register_def setNotifier_def subscribe_def)
qed

text \<open>
  C20. A stay gives its listeners back. When the flow of the stay has returned, with or without an error, or
  panicked, then from that moment on, whatever the event service, the other journeys and the goroutines do next:
  the context of every goroutine it has started to wait for an hour is done; one that has not registered
  its channel yet does so with its next step; for every other the done case of its select is
  ready, and once that case is taken the goroutine has ended for good and its channel is out of the set of
  the service; and without a new event there are at most two other steps it can take before.
\<close>

theorem stay_releases_listeners:
  assumes "iterationOrder (mapOrder (sysR S))" and "hubReach (mapOrder (sysR S)) (sysTime S) (hub w)"
    and run: "RunLodgingStayFlow S True url C w = (r, w')" "r \<noteq> Blocks"
    and i: "i < length (notifiers (hub w'))" "hn_mine (notifiers (hub w') ! i)"
    and w2: "w2 = fold (envStep S) later w'"
  shows "contextDone i (hub w2)
    \<and> (hn_pc (notifiers (hub w2) ! i) = NotRegistered \<longrightarrow> hn_pc (notifiers (hub (envStep S (HourGo i) w2)) ! i) = Listening)
    \<and> (hn_pc (notifiers (hub w2) ! i) \<noteq> NotRegistered \<longrightarrow>
         (\<forall>more w3. w3 = fold (envStep S) more (envStep S (HourCancelled i) w2) \<longrightarrow>
            hn_pc (notifiers (hub w3) ! i) = Finished
            \<and> hn_events (notifiers (hub w3) ! i) \<notin> set (items (chans (hourChangeChannels (hub w3))))))
    \<and> hub (fold (envStep S) [HourGo i, HourGo i, HourGo i] w2) = hub (fold (envStep S) [HourGo i, HourGo i] w2)"
proof -
  have "reachable S w'" using keepsD [OF hubStay.stay _ run(1)] assms(2) by (simp add: reachable_def)
  then have reach: "reachable S w2" unfolding w2 by (rule reachable_later)
  then have inv: "hubInv (hub w2)" using hubReach_inv assms(1) by (auto simp: reachable_def)
  have ctx: "contextDone i (hub w2)"
    using flow_cancels [OF run i] later_notifier [OF i(1), of S later] by (simp add: contextDone_def w2)
  then have "hn_pc (notifiers (hub w2) ! i) = NotRegistered \<longrightarrow> hn_pc (notifiers (hourStep i (hub w2)) ! i) = Listening"
    by (auto simp: contextDone_def hourStep_def Let_def makeChan_def Register_def setNotifier_def)
  then show ?thesis using ctx released_listener [OF assms(1) reach ctx] hourStep_settles [OF inv, of i] by simp
qed

text \<open>
  A stay that has begun to wait for its first hour, the listener registered, when the chat breaks off. The listener
  gets an event after that and ends.
\<close>

abbreviation brokenSched :: "Action list" where
  "brokenSched \<equiv> [Env (HubStarted True), Env (HourGo 0), Env (HubReceive ''t''), Go CtxDone, Env (ReadFrame (Inl (Ext ''EOF''))), Go FromErr]"

lemma broken_start:
  "RunLodgingStep_Validate True True ''ws'' DefaultLodgingFlow (Some demoCache) (stayAt [] NewTimeEventService as) = (Ret (), stayAt [] NewTimeEventService as)"
  "extV (ctxErr memExternal) (stayAt [] NewTimeEventService as) = (Ret None, stayAt [] NewTimeEventService as)"
  unfolding stay_start [symmetric] by (simp_all add: RunLodgingStep_Validate_def DefaultLodgingFlow_def demo_run)

lemma broken_stay: "\<exists>e w'. RunLodgingStayFlow demoSystem True ''ws'' (Some demoCache) (stayAt [] NewTimeEventService brokenSched) = (Err e, w')
    \<and> length (notifiers (hub w')) = 1 \<and> hn_mine (notifiers (hub w') ! 0) \<and> hn_pc (notifiers (hub w') ! 0) = Listening"
proof -
  define st where "st = hd (expandPlan 0 (ShowUp (Checkin DefaultLodgingFlow)))"
  have st: "expandPlan 0 (ShowUp (Checkin DefaultLodgingFlow)) = [st]" "planAction st = SHOW_FOR_CHECKIN" "HasNotBeforeHour (gate st)"
    "gate_SystemNotification (gate st) = SYSTEM_NOTIFICATION_UNSPECIFIED" "gate_SystemRequest (gate st) = SYSTEM_REQUEST_UNSPECIFIED"
    "dayOffset st \<le> 3" "NotBeforeHour (gate st) \<le> 24"
    by (simp_all add: st_def expandPlan_def DefaultLodgingFlow_def noGate_def)
  let ?target = "gateTarget demoPeriod st"
  let ?h = "hubReceive (sysTime demoSystem) ''t'' (hourStep 0 (hubStarted True (behind (HourOf ?target) NewTimeEventService)))"
  let ?rest = "[Env (ReadFrame (Inl (Ext ''EOF''))), Go FromErr]"
  have "ns ?target \<le> ns demoLate" by (rule demo_late [OF st(6,7)])
  then have wait: "waitUntil demoSystem ?target (stayAt [] NewTimeEventService brokenSched) = (Ret (), stayAt [] ?h ?rest)"
    by (simp add: waitUntil_def thenE_def bindE_def spawnHourNotification_def Let_def preempt_def Before_def behind_def CurrentTime_def
      hubReceive_def hubStarted_def hourStep_def makeChan_def Register_def setNotifier_def newNotifier_def NewTimeEventService_def unmarshalTimeEvent_def memSystem_def demoLate_def)
  obtain w1 where send: "SendAction demoSystem SHOW_FOR_CHECKIN (stayAt [] ?h ?rest) = (Err (Ext ''EOF''), w1)" and w1: "hub w1 = ?h"
    by (simp add: SendAction_def bindE_run(1) sendAndWaitAck_def thenE_run memCodes_def await_def readFrame_def offerErr_def newClient_def
      ackTurn_def errTurn_def Let_def)
  have plan: "executeActionPlan demoSystem demoPeriod (expandPlan 0 (ShowUp (Checkin DefaultLodgingFlow)))
      (stayAt [] NewTimeEventService brokenSched) = (Err (Ext ''EOF''), w1)"
  proof -
    have "waitForActionGate demoSystem demoPeriod st (stayAt [] NewTimeEventService brokenSched) = (Ret None, stayAt [] ?h ?rest)"
      using wait by (simp add: waitForActionGate_def st(3-5) thenE_run)
    then show ?thesis unfolding st(1) by (simp add: thenE_def bindE_def st(2) send)
  qed
  have "NewClient demoSystem ''ws'' (stayAt [] NewTimeEventService brokenSched) = (Ret (), stayAt [] NewTimeEventService brokenSched)"
    by (simp add: NewClient_def thenE_run)
  with plan have "RunLodgingStep_Execute demoSystem ''ws'' DefaultLodgingFlow (Some demoCache) (stayAt [] NewTimeEventService brokenSched)
      = (Err (Ext ''EOF''), w1)"
    by (simp add: RunLodgingStep_Execute_def stay_context closing_def CloseClient_def bindE_def thenE_def)
  then have "RunLodgingStayFlow demoSystem True ''ws'' (Some demoCache) (stayAt [] NewTimeEventService brokenSched)
      = (Err (Ext ''EOF''), w1\<lparr>hub := cancelNotifiers (hub w1)\<rparr>)"
    using broken_start by (simp add: RunLodgingStayFlow_def cancelling_def runStepGraph_def noopStep_Execute_def bindE_def thenE_def)
  then show ?thesis
    by (intro exI conjI, assumption) (simp_all add: w1 cancelNotifiers_def hubReceive_def hourStep_def hubStarted_def behind_def spawnHourNotification_def
      newNotifier_def NewTimeEventService_def makeChan_def Register_def setNotifier_def unmarshalTimeEvent_def memSystem_def Let_def)
qed

theorem stay_releases_listeners_witness:
  "\<exists>e w'. RunLodgingStayFlow demoSystem True ''ws'' (Some demoCache) (stayAt [] NewTimeEventService brokenSched) = (Err e, w')
    \<and> hn_pc (notifiers (hub (envStep demoSystem (HourCancelled 0) w')) ! 0) = Finished
    \<and> hn_events (notifiers (hub (envStep demoSystem (HourCancelled 0) w')) ! 0)
        \<notin> set (items (chans (hourChangeChannels (hub (envStep demoSystem (HourCancelled 0) w')))))"
proof -
  obtain e w' where run: "RunLodgingStayFlow demoSystem True ''ws'' (Some demoCache) (stayAt [] NewTimeEventService brokenSched) = (Err e, w')"
    and n: "length (notifiers (hub w')) = 1" "hn_mine (notifiers (hub w') ! 0)" "hn_pc (notifiers (hub w') ! 0) = Listening"
    using broken_stay by blast
  have pos: "0 < length (notifiers (hub w'))" using n(1) by simp
  have reach: "hubReach (mapOrder (sysR demoSystem)) (sysTime demoSystem) (hub (stayAt [] NewTimeEventService brokenSched))"
    by (simp add: hubReach.init)
  have ord: "iterationOrder (mapOrder (sysR demoSystem))" by (simp add: iterationOrder_def)
  have ended: "(Err e :: unit res) \<noteq> Blocks" and now: "w' = fold (envStep demoSystem) [] w'" by simp_all
  have "hn_pc (notifiers (hub w') ! 0) \<noteq> NotRegistered \<longrightarrow>
      (\<forall>more w3. w3 = fold (envStep demoSystem) more (envStep demoSystem (HourCancelled 0) w') \<longrightarrow>
        hn_pc (notifiers (hub w3) ! 0) = Finished
        \<and> hn_events (notifiers (hub w3) ! 0) \<notin> set (items (chans (hourChangeChannels (hub w3)))))"
    by (rule stay_releases_listeners [OF ord reach run ended pos n(2) now, THEN conjunct2, THEN conjunct2, THEN conjunct1])
  then have "\<forall>w3. w3 = fold (envStep demoSystem) [] (envStep demoSystem (HourCancelled 0) w') \<longrightarrow>
      hn_pc (notifiers (hub w3) ! 0) = Finished
      \<and> hn_events (notifiers (hub w3) ! 0) \<notin> set (items (chans (hourChangeChannels (hub w3))))"
    unfolding n(3) by blast
  then show ?thesis using run by (intro exI [of _ e] exI [of _ w'] conjI) (simp_all only: fold_simps(1) id_apply simp_thms)
qed

end
