(* ===== verification/Program_properties.thy ===== *)
theory Program_properties
  imports Demostay
begin

text \<open>
  What the process around the journeys promises: the broker connection, start-up and shutdown,
  the pool of journeys, readiness; and what a journey that fails leaves behind.
\<close>

section \<open>The broker connection\<close>

text \<open>
  C34. A reconnect dials at most five times and stops at the first success: it succeeds exactly when
  one of the attempts does, with the connection of that attempt, and else fails with the
  error of the last one; on a closed connection it does not dial at all.
\<close>

theorem reconnect_bounded:
  fixes w :: "('x, 'z) MqWorld_scheme"
  shows "if connClosed (rabbit w) then reconnectLocked A w = (Err connectionClosed, w)
    else let attempts = dials A 5 (w_ext w) in
      1 \<le> length attempts \<and> length attempts \<le> 5 \<and> (\<forall>r \<in> set (butlast attempts). \<exists>e. r = Err e)
      \<and> (\<forall>w'. reconnectLocked A w = (Ret (), w') \<longleftrightarrow> (\<exists>c. last attempts = Ret c \<and> conn (rabbit w') = Some c \<and> snd (reconnectLocked A w) = w'))
      \<and> (\<forall>e. fst (reconnectLocked A w) = Err e \<longleftrightarrow>
           (\<exists>e'. last attempts = Err e' \<and> e = Wrapf (''dial rabbitmq after '' @ show_nat 5 @ '' attempts: '') e'))"
proof -
  have ne: "dials A (Suc n) x \<noteq> []" for n x by (simp add: Let_def split: prod.splits)
  have failed: "\<forall>r \<in> set (butlast (dials A n x)). \<exists>e. r = Err e" for n x
    by (induction n arbitrary: x) (auto simp: Let_def split: prod.splits res.splits if_splits)
  show ?thesis
  proof (cases "connClosed (rabbit w)")
    case False
    then have rec: "reconnectLocked A w = dialLoop A 5 (Ext ''nil'') w" by (simp add: reconnectLocked_def rabbitDialAttempts_def)
    let ?as = "dials A 5 (w_ext w)"
    have five: "?as \<noteq> []" using ne [of 4] by (simp add: numeral_eq_Suc)
    have res: "fst (dialLoop A 5 (Ext ''nil'') w) = (case last ?as of
         Ret c \<Rightarrow> Ret () | Err e' \<Rightarrow> Err (Wrapf (''dial rabbitmq after '' @ show_nat 5 @ '' attempts: '') e') | Panics s \<Rightarrow> Panics s | Blocks \<Rightarrow> Blocks)"
      using dialLoop_result [of A 5 "Ext ''nil''" w, unfolded rabbitDialAttempts_def] five by simp
    have ok: "dialLoop A 5 (Ext ''nil'') w = (Ret (), w') \<longleftrightarrow>
        (\<exists>c. last ?as = Ret c \<and> conn (rabbit w') = Some c \<and> snd (dialLoop A 5 (Ext ''nil'') w) = w')" for w'
    proof
      assume run: "dialLoop A 5 (Ext ''nil'') w = (Ret (), w')"
      from dialLoop_conn [OF this] run show "\<exists>c. last ?as = Ret c \<and> conn (rabbit w') = Some c \<and> snd (dialLoop A 5 (Ext ''nil'') w) = w'"
        by auto
    next
      assume "\<exists>c. last ?as = Ret c \<and> conn (rabbit w') = Some c \<and> snd (dialLoop A 5 (Ext ''nil'') w) = w'"
      with res show "dialLoop A 5 (Ext ''nil'') w = (Ret (), w')" by (auto intro: prod_eqI)
    qed
    have "1 \<le> length ?as" using five by (simp add: Suc_le_eq)
    then show ?thesis
      using False dials_length [of A 5 "w_ext w"] failed [of 5 "w_ext w"] ok res by (auto simp: rec Let_def split: res.splits)
  qed (simp add: reconnectLocked_def)
qed

theorem reconnect_bounded_witness:
  "fst (reconnectLocked (memAmqp\<lparr>amqpDial := (\<lambda>x. (Err (Ext ''refused''), x))\<rparr>) demoWorld)
    = Err (Wrapf (''dial rabbitmq after '' @ show_nat 5 @ '' attempts: '') (Ext ''refused''))"
proof -
  let ?A = "memAmqp\<lparr>amqpDial := (\<lambda>x. (Err (Ext ''refused''), x))\<rparr>"
  have "last (dials ?A 5 (w_ext demoWorld)) = Err (Ext ''refused'')" by (simp add: numeral_eq_Suc)
  then show ?thesis using reconnect_bounded [of demoWorld ?A] by (simp add: demoWorld_def Let_def)
qed

text \<open>No operation takes back that the connection is closed.\<close>

abbreviation staysClosed :: "'x JWorld \<Rightarrow> bool" where
  "staysClosed w \<equiv> connClosed (rabbit w)"

lemma staysClosed_basic [go_keeps]:
  "keeps staysClosed (ext f)" "keeps staysClosed (extV g)"
  "keeps staysClosed (setRabbit (\<lambda>c. c\<lparr>conn := k\<rparr>))" "keeps staysClosed (setRabbit (\<lambda>c. c\<lparr>channel := ch\<rparr>))"
  "keeps staysClosed (setRabbit (\<lambda>c. c\<lparr>queueName := n\<rparr>))" "keeps staysClosed (setRabbit (\<lambda>c. c\<lparr>connClosed := True\<rparr>))"
  by (auto simp: keeps_def ext_def extV_def setRabbit_def split: prod.splits)

lemma staysClosed_dialLoop [go_keeps]: "keeps staysClosed (dialLoop A n e)"
  by (induction n arbitrary: e) (auto intro!: go_keeps keeps_case_sum)

lemma staysClosed_open [go_keeps]:
  "keeps staysClosed (reconnectLocked A)" "keeps staysClosed (openConnection A)" "keeps staysClosed (openChannel A)"
  by (auto simp: reconnectLocked_def openConnection_def openChannel_def currentConn_def intro!: go_keeps keeps_case_sum)

lemma staysClosed_ensure [go_keeps]: "keeps staysClosed (ensureChannel A)"
  by (auto simp: ensureChannel_def channelGone_def reopenChannel_def intro!: go_keeps)

lemma staysClosed_ops:
  "keeps staysClosed (CloseConnection A)" "keeps staysClosed (CloseChannel A)" "keeps staysClosed (reopenChannel A)"
  "keeps staysClosed (reconnectLocked A)" "keeps staysClosed (thenE (ensureChannel A) (ret ()))"
  "keeps staysClosed (thenE (openConnection A) (ret ()))" "keeps staysClosed (thenE (IsConnectionOpen A) (ret ()))"
  "keeps staysClosed (DeclareQueue A q)" "keeps staysClosed (BindQueue A b)" "keeps staysClosed (Consume A)"
  by (auto simp: CloseConnection_def CloseChannel_def reopenChannel_def IsConnectionOpen_def DeclareQueue_def BindQueue_def Consume_def
    wrapErr_def intro!: go_keeps keeps_case_sum)

text \<open>
  C35. Closing is final: after \<open>Close\<close>, and after any further operations of connection, channel and
  consumer, the connection stays marked as closed, and none of them dials again: opening
  fails at once with the same error and changes nothing.
\<close>

theorem closed_is_final:
  fixes w :: "'x JWorld"
  assumes close: "CloseConnection A w = (r, w1)"
    and ops: "set (ops :: ('x JWorld, unit) go list) \<subseteq> {CloseConnection A, CloseChannel A, reopenChannel A, reconnectLocked A,
      thenE (ensureChannel A) (ret ()), thenE (openConnection A) (ret ()), thenE (IsConnectionOpen A) (ret ())}
      \<union> range (DeclareQueue A) \<union> range (BindQueue A) \<union> {Consume A}"
  shows "openConnection A (afterAll ops w1) = (Err connectionClosed, afterAll ops w1)
    \<and> reconnectLocked A (afterAll ops w1) = (Err connectionClosed, afterAll ops w1)"
proof -
  let ?P = "\<lambda>w :: 'x JWorld. connClosed (rabbit w)"
  have keep: "keeps ?P m" if "m \<in> set ops" for m
    using ops that staysClosed_ops [where A = A] by auto
  have "?P (afterAll ms v)" if "?P v" "\<And>m. m \<in> set ms \<Longrightarrow> keeps ?P m" for ms v
    using that
  proof (induction ms arbitrary: v)
    case (Cons m ms)
    have "?P (snd (m v))" using keepsD [OF Cons.prems(2) [of m] Cons.prems(1)] by (metis list.set_intros(1) prod.collapse)
    from Cons.IH [OF this] Cons.prems(2) show ?case by (simp add: afterAll_def)
  qed (simp add: afterAll_def)
  from this [OF CloseConnection_closed [OF close] keep] have "?P (afterAll ops w1)" .
  then show ?thesis by (simp add: openConnection_closed reconnectLocked_def)
qed

theorem closed_is_final_witness:
  "\<exists>w' :: Mem JWorld. openConnection memAmqp (afterAll [CloseChannel memAmqp, Consume memAmqp, CloseConnection memAmqp] w')
    = (Err connectionClosed, afterAll [CloseChannel memAmqp, Consume memAmqp, CloseConnection memAmqp] w') \<and> conn (rabbit w') = Some 0"
proof -
  let ?w = "demoWorld\<lparr>rabbit := demoConsumer\<rparr>" and ?ops = "[CloseChannel memAmqp, Consume memAmqp, CloseConnection memAmqp]"
  obtain r w1 where run: "CloseConnection memAmqp ?w = (r, w1)" by fastforce
  then have "conn (rabbit w1) = Some 0"
    by (auto simp: CloseConnection_def thenE_def bindE_def setRabbit_def extV_def ext_def memAmqp_def demoConsumer_def)
  with closed_is_final [OF run, of ?ops] show ?thesis by (intro exI [of _ w1]) simp
qed

section \<open>Start-up and shutdown\<close>




text \<open>The steps of the start, after the configuration.\<close>

definition startUp :: "'w MainCalls \<Rightarrow> ('w, unit) go" where
  "startUp p = thenE (initTelemetry p) (thenE (newRabbitmq p) (thenE (newRedisClient p)
     (thenE (newClock p) (thenE (startHTTPServer p) (newTimeEventService p)))))"

lemma main_stops:
  assumes "\<forall>f \<in> set (startedCleanups (calls cfg)). returns f" and "load w = (Ret cfg, w0)"
    and "startUp (calls cfg) w0 = (Ret (), w1)" and "journeys (calls cfg) w1 = (Ret (), w2)"
  shows "main load calls w = (Ret (ExitStatus 0), afterAll (rev (startedCleanups (calls cfg))) w2)"
proof -
  let ?p = "calls cfg"
  have run: "runCleanup (startedCleanups ?p) w2 = ((case foldl joinErr None (errorsOf (rev (startedCleanups ?p)) w2) of None \<Rightarrow> Ret () | Some e \<Rightarrow> Err e),
      afterAll (rev (startedCleanups ?p)) w2)"
    using cleanupLoop_run [of "rev (startedCleanups ?p)" None w2] assms(1) by (simp add: runCleanup_def)
  have "main load calls w = thenE (journeys ?p) (thenE (ignoreErr (runCleanup (startedCleanups ?p))) (ret (ExitStatus 0))) w1"
    using assms(2,3) by (auto simp: main_def startUp_def exitOnError_def thenE_Ret_iff Let_def)
  also have "\<dots> = (Ret (ExitStatus 0), afterAll (rev (startedCleanups ?p)) w2)"
    using assms(4) run by (simp add: thenE_def bindE_def ignoreErr_def split: option.splits)
  finally show ?thesis .
qed

text \<open>
  C37. Shutdown undoes the start: when the configuration was read, everything has started and the
  journeys have stopped, the probe server, the clock, Redis, the broker and telemetry are closed in
  this order, the reverse of the start, each of them also when an earlier one fails; the broker
  connection ends up closed and the exit status is 0.
\<close>

theorem shutdown_in_reverse:
  assumes laws: "closingLaws L A" and "LoadConfigs (envParse L) (slogInfo L) w = (Ret cfg, w0)"
    and "startUp (simulatorCalls L A J cfg) w0 = (Ret (), w1)" and "J (jf_ConcurrencyLevel (fl_GuestJourney (cf_FlowsConfig cfg))) w1 = (Ret (), w2)"
  shows "\<exists>w'. simulator_main L A J w = (Ret (ExitStatus 0), w')
    \<and> w' = afterAll [ShutDownHTTPServer L, Clock_Close L, ext (goredisClose L), ConnectionClose A, telemetry_shutdown (otelLib L)] w2
    \<and> connClosed (rabbit w')"
proof -
  let ?p = "simulatorCalls L A J cfg"
  have "journeys ?p w1 = (Ret (), w2)" using assms(4) by (simp add: simulatorCalls_def)
  from main_stops [where load = "LoadConfigs (envParse L) (slogInfo L)" and calls = "simulatorCalls L A J" and cfg = cfg,
      OF closings_return [OF laws] assms(2,3) this]
  have "simulator_main L A J w = (Ret (ExitStatus 0),
      afterAll [ShutDownHTTPServer L, Clock_Close L, ext (goredisClose L), ConnectionClose A, telemetry_shutdown (otelLib L)] w2)"
    by (simp add: simulator_main_def startedCleanups_def simulatorCalls_def)
  then show ?thesis
    using ConnectionClose_closed [OF laws] by (simp add: afterAll_def telemetry_shutdown_rabbit)
qed

text \<open>The libraries in memory: each closing call logs its name, and the clock cannot be closed.\<close>

definition memClose :: "string \<Rightarrow> Mem \<Rightarrow> unit res \<times> Mem" where
  "memClose s x = (Ret (), x\<lparr>mem_log := mem_log x @ [s]\<rparr>)"

definition memOTel :: "Mem OTel" where
  "memOTel = \<lparr>otelResource = (\<lambda>_ x. (Ret (), x)), traceExporter = (\<lambda>_ x. (Ret (), x)), metricExporter = (\<lambda>_ x. (Ret (), x)),
     setGlobals = (\<lambda>x. ((), x)), instrument = (\<lambda>_ _ x. (Ret (), x)), traceShutdown = memClose ''traces'', meterShutdown = memClose ''metrics''\<rparr>"

definition memLibs :: "Configs \<Rightarrow> Mem Libs" where
  "memLibs cfg = \<lparr>envParse = (\<lambda>x. (Ret cfg, x)), osHostname = Inr ''host'', logTime = JNull, logSource = JNull, stdoutWrite = (\<lambda>_ x. ((), x)), otelLib = memOTel, redisPing = (\<lambda>x. (Ret (), x)),
     goredisClose = memClose ''redis'', grpcNewClient = (\<lambda>_ x. (Ret (), x)), grpcClose = (\<lambda>x. (Err (Ext ''closing''), snd (memClose ''clock'' x))),
     httpListen = (\<lambda>_ x. ((), x)), httpShutdown = memClose ''probe''\<rparr>"

lemma mem_closing: "closingLaws (memLibs cfg) memAmqp"
  by (simp add: closingLaws_def answers_def memLibs_def memOTel_def memClose_def memAmqp_def)

definition demoConfigs :: Configs where
  "demoConfigs =
     \<lparr>cf_AppConfig = \<lparr>ap_Name = \<lparr>nm_ServiceName = ''guests'', nm_Version = ''1''\<rparr>,
        ap_Telemetry = \<lparr>tl_OTLPEndpoint = ''otel'', tl_OTLPGrpcPort = 4317, tl_OTLPHealthPort = 13133, tl_OTLPInsecure = True\<rparr>\<rparr>,
      cf_ProbeConfig = \<lparr>pb_Address = [], pb_Port = 8080, pb_ReadHeaderTimeoutInSeconds = 5, pb_ReadTimeoutInSeconds = 10,
        pb_WriteTimeoutInSeconds = 15, pb_IdleTimeoutInSeconds = 60\<rparr>,
      cf_RabbitMqConnConfig = \<lparr>rb_Username = Secret ''guest'', rb_Password = Secret ''pw'', rb_Host = ''mq'', rb_Port = 5672\<rparr>,
      cf_RabbitMqConsumersConfig = \<lparr>rc_HourChange = demoConfig\<lparr>cfg_Queue := (cfg_Queue demoConfig)\<lparr>q_Name := ''hours''\<rparr>\<rparr>, rc_Communication = demoConfig\<rparr>,
      cf_RedisConfig = \<lparr>rd_Username = Secret [], rd_Password = Secret ''pw2'', rd_Host = ''localhost'', rd_Port = 6379, rd_DB = 0\<rparr>,
      cf_ServicesConfig = \<lparr>sv_ClockEmuGrpcUrl = ''clock'', sv_ClockEmuGrpcPort = 9090, sv_CottageManagerUrl = ''cottages'', sv_CottageManagerPort = 8081,
        sv_GuestManagerUrl = ''guest-manager'', sv_GuestManagerPort = 8081, sv_PaymentSimulatorUrl = ''payments'', sv_PaymentSimulatorPort = 8082\<rparr>,
      cf_FlowsConfig = \<lparr>fl_Booking = \<lparr>bf_GraphFile = [], bf_ConcurrencyLevel = 1\<rparr>, fl_Payment = \<lparr>pf_ConcurrencyLevel = 1\<rparr>,
        fl_Lodging = \<lparr>lf_ConcurrencyLevel = 1\<rparr>, fl_GuestRegister = \<lparr>gf_GraphFile = [], gf_ConcurrencyLevel = 1\<rparr>,
        fl_GuestJourney = \<lparr>jf_ConcurrencyLevel = 2\<rparr>\<rparr>\<rparr>"

lemma demo_load: "LoadConfigs (envParse (memLibs cfg)) (slogInfo (memLibs cfg)) w = (Ret cfg, w)"
  by (simp add: LoadConfigs_def slogInfo_def memLibs_def bindE_def thenE_def ext_def extV_def split: option.splits)

lemma demo_startUp: "\<exists>w1. startUp (simulatorCalls (memLibs demoConfigs) memAmqp (\<lambda>_. ret ()) demoConfigs) demoWorld = (Ret (), w1) \<and> mem_log (w_ext w1) = []"
  by (simp add: startUp_def simulatorCalls_def telemetry_Init_def newTraceProvider_def newMeterProvider_def initMetrics_def NewRedisClient_def
    NewClock_def StartHTTPServer_def startTimeEvents_def makeTimeEventService_def memLibs_def memOTel_def
    NewRabbitmq_def NewRabbitMqConnection_def NewRabbitmqConsumer_def reconnectLocked_def rabbitDialAttempts_def numeral_eq_Suc
    openChannel_def openConnection_def orCleanup_def setRabbit_def DeclareQueue_def BindQueue_def ensureChannel_def wrapErr_def channelGone_def
    thenE_def bindE_def tryE_def ext_def extV_def memAmqp_def demoWorld_def memStart_def demoConfigs_def demoConfig_def)

theorem shutdown_in_reverse_witness:
  "\<exists>w'. simulator_main (memLibs demoConfigs) memAmqp (\<lambda>_. ret ()) demoWorld = (Ret (ExitStatus 0), w')
     \<and> mem_log (w_ext w') = [''probe'', ''clock'', ''redis'', ''traces'', ''metrics''] \<and> connClosed (rabbit w')"
proof -
  obtain w1 where w1: "startUp (simulatorCalls (memLibs demoConfigs) memAmqp (\<lambda>_. ret ()) demoConfigs) demoWorld = (Ret (), w1)"
    "mem_log (w_ext w1) = []"
    using demo_startUp by blast
  have net: "mem_log (w_ext (snd (ConnectionClose memAmqp v))) = mem_log (w_ext v)" for v :: "Mem JWorld"
    by (simp add: ConnectionClose_def runCleanup_def CloseConnection_def CloseChannel_def setRabbit_def thenE_def bindE_def tryE_def
      ext_def extV_def memAmqp_def collect_def orError_def split: option.splits)
  have tel: "mem_log (w_ext (snd (telemetry_shutdown memOTel v))) = mem_log (w_ext v) @ [''traces'', ''metrics'']" for v :: "Mem JWorld"
    by (simp add: telemetry_shutdown_def memOTel_def memClose_def bindE_def tryE_def ext_def collect_def orError_def)
  have "otelLib (memLibs demoConfigs) = memOTel" by (simp add: memLibs_def)
  with shutdown_in_reverse [OF mem_closing demo_load w1(1), of w1] w1(2) show ?thesis
    by (auto simp: afterAll_def net tel) (simp add: memLibs_def memClose_def ShutDownHTTPServer_def Clock_Close_def ignoreErr_def ext_def)
qed

text \<open>
  A failure during the start skips the cleanup: \<open>exitOnError\<close> ends the process before the
  deferred function can close what has been opened. Here Redis does not answer, and the broker
  connection stays as \<open>NewRabbitmq\<close> has left it.
\<close>

theorem failed_start_leaves_open:
  assumes "LoadConfigs (envParse L) (slogInfo L) w = (Ret cfg, w0)"
    and "thenE (initTelemetry (simulatorCalls L A J cfg)) (NewRabbitmq A (rc_HourChange (cf_RabbitMqConsumersConfig cfg))) w0 = (Ret (), w1)"
    and "redisPing L (w_ext w1) = (Err e, x)" and "answers (goredisClose L)"
  shows "\<exists>w'. simulator_main L A J w = (Ret (ExitStatus 1), w') \<and> rabbit w' = rabbit w1"
proof -
  obtain r x' where close: "goredisClose L x = (r, x')" "(\<exists>a. r = Ret a) \<or> (\<exists>e. r = Err e)"
    using assms(4) unfolding answers_def by (metis prod.collapse)
  have "\<exists>e'. NewRedisClient (redisPing L) (goredisClose L) h n w1 = (Err e', w1\<lparr>w_ext := x'\<rparr>)" for h n
    using assms(3) close by (auto simp: NewRedisClient_def bindE_def tryE_def ext_def ignoreErr_def thenE_def)
  then obtain e' where redis: "newRedisClient (simulatorCalls L A J cfg) w1 = (Err e', w1\<lparr>w_ext := x'\<rparr>)" by (auto simp: simulatorCalls_def)
  from assms(2) obtain v where "initTelemetry (simulatorCalls L A J cfg) w0 = (Ret (), v)"
    "newRabbitmq (simulatorCalls L A J cfg) v = (Ret (), w1)"
    by (auto simp: thenE_Ret_iff simulatorCalls_def)
  with assms(1) redis have "simulator_main L A J w = (Ret (ExitStatus 1), w1\<lparr>w_ext := x'\<rparr>)"
    by (simp add: simulator_main_def main_def exitOnError_def Let_def)
  then show ?thesis by simp
qed

section \<open>The configuration\<close>

text \<open>
  C38. The log gives no secret away: two configurations that differ only in the user names and passwords
  of the broker and of Redis lead to the same log, so nothing of them can be read from it.
\<close>

theorem config_log_hides_secrets:
  assumes "blanked c1 = blanked c2" and "parse1 (w_ext w) = (Ret c1, x)" and "parse2 (w_ext w) = (Ret c2, x)"
  shows "snd (LoadConfigs parse1 logInfo w) = snd (LoadConfigs parse2 logInfo w)"
proof -
  have "marshalGo (configsVal c1) = marshalGo (configsVal c2)" using config_log_blanked assms(1) by metis
  with assms(2,3) show ?thesis by (simp add: LoadConfigs_def bindE_def thenE_def ext_def extV_def split: prod.splits)
qed

definition memLog :: "string \<Rightarrow> (string \<times> json) list \<Rightarrow> (string \<times> json) list \<Rightarrow> unit \<times> (string \<times> json) list" where
  "memLog msg attrs x = ((), x @ attrs)"

theorem config_log_hides_secrets_witness:
  "w_ext (snd (LoadConfigs (Pair (Ret demoConfigs)) memLog \<lparr>w_state = None, w_ext = []\<rparr>)) =
   w_ext (snd (LoadConfigs (Pair (Ret (blanked demoConfigs))) memLog \<lparr>w_state = None, w_ext = []\<rparr>))
   \<and> demoConfigs \<noteq> blanked demoConfigs"
proof -
  have "blanked (blanked c) = blanked c" for c by (simp add: blanked_def)
  from config_log_hides_secrets [OF this [symmetric], of "Pair (Ret demoConfigs)" "\<lparr>w_state = None, w_ext = []\<rparr>" demoConfigs "[]"
      "Pair (Ret (blanked demoConfigs))" memLog]
  show ?thesis by (simp add: demoConfigs_def blanked_def)
qed

section \<open>The pool of journeys\<close>

text \<open>
  C39. The pool keeps its size: at every moment each of the journeys launched is running, about to
  report its end or reported, never more than the configured number; a journey that ends is
  never held up by the reporting, and while the pool is not stopped something can always go on.
\<close>

theorem pool_bounded:
  assumes "poolReach level p"
  shows "inJourney p + notifyingFinish p + finishCh p = launched p \<and> launched p \<le> nat level
    \<and> (0 < notifyingFinish p \<longrightarrow> poolStep (nat level) NotifyFinish p \<noteq> None)
    \<and> (launched p = nat level \<and> 0 < level \<and> \<not> poolReturned p \<longrightarrow>
         0 < inJourney p \<or> 0 < notifyingFinish p \<or> poolStep (nat level) Restart p \<noteq> None)"
  using poolReach_inv [OF assms] by (auto simp: poolInv_def)

theorem pool_bounded_witness:
  "\<exists>p. poolReach 2 p \<and> inJourney p = 1 \<and> notifyingFinish p = 1 \<and> poolStep 2 NotifyFinish p \<noteq> None"
proof -
  let ?start = "\<lparr>launched = 0, inJourney = 0, notifyingFinish = 0, finishCh = 0, poolReturned = False\<rparr>"
  let ?p = "\<lparr>launched = 2, inJourney = 1, notifyingFinish = 1, finishCh = 0, poolReturned = False\<rparr>"
  have "poolReach 2 ?start" by (rule poolReach.init) (simp add: runJourneys_init_def)
  then have "poolReach 2 (?start\<lparr>launched := 1, inJourney := 1\<rparr>)" by (rule poolReach.step [where a = Launch]) simp
  then have "poolReach 2 (?start\<lparr>launched := 2, inJourney := 2\<rparr>)" by (rule poolReach.step [where a = Launch]) simp
  then have p: "poolReach 2 ?p" by (rule poolReach.step [where a = JourneyEnds]) simp
  from pool_bounded [OF p] p show ?thesis by (intro exI [of _ ?p]) simp
qed

text \<open>
  \<open>runJourneys\<close> does not wait for the journeys: for every positive level a pool is reachable in which it has returned
  while all of the journeys are still running. \<open>main\<close> then closes the broker connection, Redis and the clock that
  they use.
\<close>

lemma pool_launched:
  assumes "n \<le> nat level" and "0 \<le> level"
  shows "poolReach level \<lparr>launched = n, inJourney = n, notifyingFinish = 0, finishCh = 0, poolReturned = False\<rparr>"
  using assms
proof (induction n)
  case 0
  then show ?case by (intro poolReach.init) (simp add: runJourneys_init_def)
next
  case (Suc n)
  then show ?case by (intro poolReach.step [where a = Launch, OF Suc.IH]) auto
qed

theorem pool_abandons_journeys:
  assumes "0 < level"
  shows "\<exists>p. poolReach level p \<and> poolReturned p \<and> inJourney p = nat level"
proof -
  let ?p = "\<lparr>launched = nat level, inJourney = nat level, notifyingFinish = 0, finishCh = 0, poolReturned = False\<rparr>"
  have "poolReach level ?p" using assms by (intro pool_launched) auto
  then have "poolReach level (?p\<lparr>poolReturned := True\<rparr>)" by (rule poolReach.step [where a = PoolCtxDone]) simp
  then show ?thesis by fastforce
qed

section \<open>Readiness\<close>

text \<open>
  The readiness probe answers 200 exactly when the broker connection is open and Redis, the
  cottage manager and the guest manager have all answered, asked in this order.
\<close>

theorem readiness_all_up:
  "ReadinessHandler A ping E w = (Ret (200, body), w') \<longleftrightarrow> body = [] \<and>
     (\<exists>w1 w2 w3. IsConnectionOpen A w = (Ret True, w1) \<and> ext ping w1 = (Ret (), w2)
        \<and> pingHealthz E CottageManager ''CottageManager'' w2 = (Ret (), w3)
        \<and> pingHealthz E GuestManager ''GuestManager'' w3 = (Ret (), w'))"
  by (rule ReadinessHandler_ok)

section \<open>What a failed journey leaves behind\<close>

text \<open>
  The channel that \<open>buildGuestJourney\<close> opens is only closed when the bus has a consumer, that
  is after \<open>SetupCommunication\<close>: the cleanup of a journey that failed before does not touch it.
\<close>

theorem early_failure_keeps_channel:
  assumes "\<not> Consumer (bus w)" and run: "cleanupGuestJourney S G w = (r, w')"
  shows "rabbit w' = rabbit w"
proof -
  let ?P = "\<lambda>v. rabbit v = rabbit w \<and> \<not> Consumer (bus v)"
  have "keeps ?P (ext f)" "keeps ?P (extV g)" for f :: "'a \<Rightarrow> 'b res \<times> 'a" and g :: "'a \<Rightarrow> 'c \<times> 'a"
    by (auto simp: keeps_def ext_def extV_def split: prod.splits)
  note this [go_keeps]
  have "keeps ?P (LogStateCache (sysE S) (gj_cacheService G))" "keeps ?P (DeleteStateCache (sysE S) (gj_cacheService G))"
    unfolding LogStateCache_def DeleteStateCache_def Get_def Del_def by (intro go_keeps)+
  moreover have "keeps ?P (CloseCommunication S True)"
    by (auto simp: keeps_def CloseCommunication_def)
  ultimately have "keeps ?P (cleanupGuestJourney S G)"
    unfolding cleanupGuestJourney_def CleanupState_def by (intro go_keeps)
  from keepsD [OF this _ run] assms(1) show ?thesis by simp
qed

text \<open>
  C40. The cleanup cannot be repeated: once the cache entry is gone, it stops at reading it, with an
  error, and the channel and the bus stay as they are; so a cleanup whose second half failed
  never closes the channel, however often it is called.
\<close>

theorem cleanup_not_repeatable:
  assumes laws: "redisLaws (sysE S) content" and "w_state w = Some st" and gone: "content (w_ext w) (RedisKey st) = None"
    and run: "cleanupGuestJourney S G w = (r, w')"
  shows "r \<noteq> Ret () \<and> rabbit w' = rabbit w \<and> bus w' = bus w \<and> w_state w' = w_state w \<and> content (w_ext w') = content (w_ext w)"
proof -
  obtain r1 w1 where log: "LogStateCache (sysE S) (gj_cacheService G) w = (r1, w1)" by fastforce
  have "r1 \<noteq> Ret u" for u
    using log assms(2) gone redisLawsD(2) [OF laws]
    by (auto simp: LogStateCache_def Get_def bindE_def ext_def split: option.splits if_splits prod.splits res.splits)
  then have out: "w' = w1" "r \<noteq> Ret ()" using run log by (cases r1; auto simp: cleanupGuestJourney_def thenE_def bindE_def)+
  obtain x where x: "w1 = w\<lparr>w_ext := x\<rparr>" using LogStateCache_frame [OF log] by blast
  have "content (w_ext w1) = content (w_ext w)"
    using log redisLawsD(3) [OF laws]
    by (auto simp: LogStateCache_def Get_def bindE_def ext_def split: option.splits if_splits prod.splits res.splits)
  with out x show ?thesis by simp
qed


theorem cleanup_not_repeatable_witness:
  "fst (cleanupGuestJourney demoSystem demoJourney (demoWorld\<lparr>w_state := Some demoCreated, rabbit := demoConsumer\<rparr>)) \<noteq> Ret ()
   \<and> rabbit (snd (cleanupGuestJourney demoSystem demoJourney (demoWorld\<lparr>w_state := Some demoCreated, rabbit := demoConsumer\<rparr>))) = demoConsumer"
proof -
  let ?w = "demoWorld\<lparr>w_state := Some demoCreated, rabbit := demoConsumer\<rparr>"
  obtain r w' where run: "cleanupGuestJourney demoSystem demoJourney ?w = (r, w')" by fastforce
  have "mem_store (w_ext ?w) (RedisKey demoCreated) = None" by (simp add: demoWorld_def memStart_def)
  with cleanup_not_repeatable [OF _ _ _ run, of mem_store demoCreated] mem_laws run show ?thesis by simp
qed

end
