(* ===== verification/Routing.thy ===== *)
theory Routing
  imports Completion
begin

text \<open>
  Which part of a journey talks HTTP, and to whom. \<open>rewire h S\<close> is the system \<open>S\<close> with
  another way to answer HTTP requests. Everything but the steps of the registration, booking
  and payment flows behaves on it as on \<open>S\<close>; each of those steps sends requests to one
  service only, always with an absolute path. So a journey depends on the network only
  through what the three services answer.
\<close>

named_theorems http_free \<open>operations that make no HTTP request\<close>

definition rewire :: "(Request \<Rightarrow> 'x \<Rightarrow> Response res \<times> 'x) \<Rightarrow> 'x System \<Rightarrow> 'x System" where
  "rewire h S = S\<lparr>sysE := (sysE S)\<lparr>httpDo := h\<rparr>\<rparr>"

lemma rewire_parts [simp, http_free]:
  "sysE (rewire h S) = (sysE S)\<lparr>httpDo := h\<rparr>" "sysN (rewire h S) = sysN S" "sysR (rewire h S) = sysR S"
  "sysTime (rewire h S) = sysTime S" "sysA (rewire h S) = sysA S"
  by (simp_all add: rewire_def)

lemma external_parts [http_free]:
  "redisSet (E\<lparr>httpDo := h\<rparr>) = redisSet E" "redisGet (E\<lparr>httpDo := h\<rparr>) = redisGet E"
  "redisDel (E\<lparr>httpDo := h\<rparr>) = redisDel E" "grpcNow (E\<lparr>httpDo := h\<rparr>) = grpcNow E"
  "ctxErr (E\<lparr>httpDo := h\<rparr>) = ctxErr E" "randFloat64 (E\<lparr>httpDo := h\<rparr>) = randFloat64 E"
  "randIntn (E\<lparr>httpDo := h\<rparr>) = randIntn E" "fakeName (E\<lparr>httpDo := h\<rparr>) = fakeName E"
  "fakeSSN (E\<lparr>httpDo := h\<rparr>) = fakeSSN E" "fakeAddress (E\<lparr>httpDo := h\<rparr>) = fakeAddress E"
  "uniLower (E\<lparr>httpDo := h\<rparr>) = uniLower E" "uniFold (E\<lparr>httpDo := h\<rparr>) = uniFold E"
  "float64 (E\<lparr>httpDo := h\<rparr>) = float64 E"
  by simp_all

subsection \<open>The cache and the choices\<close>

lemma redis_http_free [http_free]:
  "Redis_set (E\<lparr>httpDo := h\<rparr>) = Redis_set E" "Redis_get (E\<lparr>httpDo := h\<rparr>) = Redis_get E"
  "Redis_del (E\<lparr>httpDo := h\<rparr>) = Redis_del E"
  by (simp_all add: fun_eq_iff)

lemma cache_http_free [http_free]:
  "CacheSet (E\<lparr>httpDo := h\<rparr>) = CacheSet E" "Get (E\<lparr>httpDo := h\<rparr>) = Get E" "Del (E\<lparr>httpDo := h\<rparr>) = Del E"
  unfolding CacheSet_def Get_def Del_def http_free by (rule refl)+

lemma journey_cache_http_free [http_free]:
  "Load (E\<lparr>httpDo := h\<rparr>) = Load E" "Save (E\<lparr>httpDo := h\<rparr>) = Save E"
  unfolding Load_def Save_def http_free by (rule refl)+

lemma cache_service_http_free [http_free]:
  "InitializeStateCache (E\<lparr>httpDo := h\<rparr>) = InitializeStateCache E"
  "SyncStateCache (E\<lparr>httpDo := h\<rparr>) = SyncStateCache E"
  "LogStateCache (E\<lparr>httpDo := h\<rparr>) = LogStateCache E"
  "DeleteStateCache (E\<lparr>httpDo := h\<rparr>) = DeleteStateCache E"
  unfolding InitializeStateCache_def SyncStateCache_def LogStateCache_def DeleteStateCache_def http_free by (rule refl)+

lemma choices_http_free [http_free]:
  "clockNow (E\<lparr>httpDo := h\<rparr>) = clockNow E" "Intn (E\<lparr>httpDo := h\<rparr>) = Intn E"
  "PickRandomWeighted (E\<lparr>httpDo := h\<rparr>) = PickRandomWeighted E"
  "createGuest (E\<lparr>httpDo := h\<rparr>) = createGuest E"
  unfolding clockNow_def Intn_def PickRandomWeighted_def createGuest_def http_free by (rule refl)+

lemma stepLoop_http_free [http_free]:
  "stepLoop (E\<lparr>httpDo := h\<rparr>) validate execute sm n = stepLoop E validate execute sm n"
proof (induction n)
  case 0
  show ?case by (simp add: fun_eq_iff)
next
  case (Suc n)
  show ?case by (intro ext, unfold stepLoop.simps http_free Suc.IH, rule refl)
qed

lemma SelectCottageStep_http_free [http_free]:
  "SelectCottageStep_Execute (E\<lparr>httpDo := h\<rparr>) = SelectCottageStep_Execute E"
  unfolding SelectCottageStep_Execute_def http_free by (rule refl)+

subsection \<open>The waits and the communication\<close>

lemma envStep_http_free [http_free]: "envStep (rewire h S) = envStep S"
proof (intro ext)
  fix a w
  show "envStep (rewire h S) a w = envStep S a w"
    by (cases a; hypsubst; unfold envStep.simps whenCancelled_def http_free; rule refl)
qed

lemma await_http_free [http_free]: "await (rewire h S) = await S" "preempt (rewire h S) = preempt S"
  "afterOthers (rewire h S) = afterOthers S"
  unfolding await_def preempt_def afterOthers_def http_free by (rule refl)+

lemma match_http_free [http_free]:
  "matchPaymentRequest (E\<lparr>httpDo := h\<rparr>) = matchPaymentRequest E"
  "matchBookingConfirmation (E\<lparr>httpDo := h\<rparr>) = matchBookingConfirmation E"
  "matchCheckinToday (E\<lparr>httpDo := h\<rparr>) = matchCheckinToday E"
  unfolding matchPaymentRequest_def matchBookingConfirmation_def matchCheckinToday_def http_free by (rule refl)+

lemma waitTurn_http_free [http_free]: "waitTurn (rewire h S) = waitTurn S"
proof (intro ext)
  fix topic upd decode match s c w
  show "waitTurn (rewire h S) topic upd decode match s c w = waitTurn S topic upd decode match s c w"
    by (cases s; cases c; hypsubst; unfold waitTurn.simps http_free; rule refl)
qed

lemma waits_http_free [http_free]:
  "waitMessage (rewire h S) = waitMessage S"
  "WaitPaymentRequestMessage (rewire h S) = WaitPaymentRequestMessage S"
  "WaitBookingConfirmationMessage (rewire h S) = WaitBookingConfirmationMessage S"
  "WaitCheckinTodayMessage (rewire h S) = WaitCheckinTodayMessage S"
proof -
  show w: "waitMessage (rewire h S) = waitMessage S"
    unfolding waitMessage_def http_free by (rule refl)+
  show "WaitPaymentRequestMessage (rewire h S) = WaitPaymentRequestMessage S"
  "WaitBookingConfirmationMessage (rewire h S) = WaitBookingConfirmationMessage S"
  "WaitCheckinTodayMessage (rewire h S) = WaitCheckinTodayMessage S"
    unfolding WaitPaymentRequestMessage_def WaitBookingConfirmationMessage_def WaitCheckinTodayMessage_def http_free w by (rule refl)+
qed

lemma communication_http_free [http_free]:
  "SetupCommunication (rewire h S) = SetupCommunication S"
  "CloseCommunication (rewire h S) = CloseCommunication S"
  unfolding SetupCommunication_def CloseCommunication_def http_free by (rule refl)+

lemma CleanupState_http_free [http_free]:
  "CleanupState (rewire h S) = CleanupState S"
  unfolding CleanupState_def http_free by (rule refl)+

subsection \<open>The stay\<close>

lemma chat_turns_http_free [http_free]:
  "NewClient (rewire h S) = NewClient S" "CloseClient (rewire h S) = CloseClient S"
  "ackTurn (rewire h S) = ackTurn S" "nextTurn (rewire h S) = nextTurn S" "untilTurn (rewire h S) = untilTurn S"
  unfolding NewClient_def CloseClient_def ackTurn_def nextTurn_def untilTurn_def ctxTurn_def http_free by (rule refl)+

lemma chat_http_free [http_free]:
  "sendAndWaitAck (rewire h S) = sendAndWaitAck S" "waitUntil (rewire h S) = waitUntil S"
  "WaitForNextSystemMessage (rewire h S) = WaitForNextSystemMessage S"
  unfolding sendAndWaitAck_def WaitForNextSystemMessage_def waitUntil_def http_free by (rule refl)+

lemma chat_messages_http_free [http_free]:
  "SendAction (rewire h S) = SendAction S" "Reply (rewire h S) = Reply S"
  unfolding SendAction_def Reply_def http_free by (rule refl)+

lemma repeatMsg_http_free [http_free]: "repeatMsg (rewire h S) n body = repeatMsg S n body"
proof (induction n)
  case 0
  show ?case by simp
next
  case (Suc n)
  show ?case by (unfold repeatMsg.simps http_free Suc.IH, rule refl)
qed

lemma forMessages_http_free [http_free]:
  "forMessages (rewire h S) body = forMessages S body"
  unfolding forMessages_def http_free by (rule refl)

lemma expect_http_free [http_free]:
  "expectNotification (rewire h S) = expectNotification S" "expectRequest (rewire h S) = expectRequest S"
  "checkinTurn (rewire h S) = checkinTurn S"
  unfolding expectNotification_def expectRequest_def checkinTurn_def http_free by (rule refl)+

lemma gate_http_free [http_free]:
  "finishCheckin (rewire h S) = finishCheckin S" "waitForActionGate (rewire h S) = waitForActionGate S"
  "awaitNotification (rewire h S) = awaitNotification S"
  unfolding finishCheckin_def waitForActionGate_def awaitNotification_def http_free by (rule refl)+

lemma plan_http_free [http_free]:
  "executeActionPlan (rewire h S) p plan = executeActionPlan S p plan"
  "executeCheckoutSteps (rewire h S) k p plan = executeCheckoutSteps S k p plan"
  by (induction plan; (simp; fail)?; unfold executeActionPlan.simps executeCheckoutSteps.simps http_free; simp)+

lemma step_http_free [http_free]:
  "lodgingContext (rewire h S) = lodgingContext S" "closing (rewire h S) m = closing S m"
  "executeCheckoutPlan (rewire h S) fl k p = executeCheckoutPlan S fl k p"
  unfolding lodgingContext_def closing_def executeCheckoutPlan_def http_free by (rule refl)+

lemma RunLodgingStep_http_free [http_free]:
  "RunLodgingStep_Execute (rewire h S) = RunLodgingStep_Execute S"
  unfolding RunLodgingStep_Execute_def http_free by (rule refl)+

subsection \<open>Each step calls its own service\<close>

text \<open>
  A request to a service, with an absolute path; and two ways to send requests that agree on
  the requests to one service.
\<close>

definition requestTo :: "Service \<Rightarrow> Request \<Rightarrow> bool" where
  "requestTo svc r \<longleftrightarrow> rq_service r = svc \<and> take 1 (rq_path r) = ''/''"

definition agreeOn :: "Service \<Rightarrow> (Request \<Rightarrow> 'a) \<Rightarrow> (Request \<Rightarrow> 'a) \<Rightarrow> bool" where
  "agreeOn svc h h' \<longleftrightarrow> (\<forall>r. requestTo svc r \<longrightarrow> h r = h' r)"

lemma httpCall_agree:
  "agreeOn svc h h' \<Longrightarrow> requestTo svc r \<Longrightarrow> httpCall (E\<lparr>httpDo := h\<rparr>) client r = httpCall (E\<lparr>httpDo := h'\<rparr>) client r"
  by (simp add: httpCall_def agreeOn_def)

lemma request_services:
  "requestTo GuestManager (registerRequest g)" "requestTo GuestManager (retrieveRequest i)"
  "requestTo CottageManager cottagesRequest" "requestTo CottageManager (availableRequest c now d)"
  "requestTo CottageManager (bookingRequest st g c p)" "requestTo PaymentSimulator (payRequest g n)"
  by (simp_all add: requestTo_def registerRequest_def retrieveRequest_def cottagesRequest_def availableRequest_def
      bookingRequest_def payRequest_def Let_def)

lemma register_calls_guests:
  assumes "agreeOn GuestManager h h'"
  shows "RegisterGuestStep_Execute (E\<lparr>httpDo := h\<rparr>) client C = RegisterGuestStep_Execute (E\<lparr>httpDo := h'\<rparr>) client C"
    and "RetrieveGuestStep_Execute (E\<lparr>httpDo := h\<rparr>) client = RetrieveGuestStep_Execute (E\<lparr>httpDo := h'\<rparr>) client"
  unfolding RegisterGuestStep_Execute_def RetrieveGuestStep_Execute_def http_free
    httpCall_agree [OF assms request_services(1)] httpCall_agree [OF assms request_services(2)]
  by (rule refl)+

lemma load_calls_cottages:
  assumes "agreeOn CottageManager h h'"
  shows "loadAvailablePeriods (E\<lparr>httpDo := h\<rparr>) client = loadAvailablePeriods (E\<lparr>httpDo := h'\<rparr>) client"
  unfolding loadAvailablePeriods_def httpCall_agree [OF assms request_services(4)] by (rule refl)

lemma collect_loops_call_cottages:
  assumes "agreeOn CottageManager h h'"
  shows "collectWindows (E\<lparr>httpDo := h\<rparr>) client now opts c ws cs = collectWindows (E\<lparr>httpDo := h'\<rparr>) client now opts c ws cs"
    and "collectCottages (E\<lparr>httpDo := h\<rparr>) client now opts cts = collectCottages (E\<lparr>httpDo := h'\<rparr>) client now opts cts"
proof -
  show wins: "collectWindows (E\<lparr>httpDo := h\<rparr>) client now opts c ws cs = collectWindows (E\<lparr>httpDo := h'\<rparr>) client now opts c ws cs"
    for c ws cs
    by (induction ws arbitrary: cs) (simp_all add: load_calls_cottages [OF assms])
  show "collectCottages (E\<lparr>httpDo := h\<rparr>) client now opts cts = collectCottages (E\<lparr>httpDo := h'\<rparr>) client now opts cts"
    by (induction cts; rule ext; simp add: wins)
qed

lemma collect_calls_cottages:
  assumes "agreeOn CottageManager h h'"
  shows "collectStayCandidates (E\<lparr>httpDo := h\<rparr>) client now opts = collectStayCandidates (E\<lparr>httpDo := h'\<rparr>) client now opts"
  unfolding collectStayCandidates_def collect_loops_call_cottages(2) [OF assms] by (rule refl)

lemma booking_calls_cottages:
  assumes "agreeOn CottageManager h h'"
  shows "ListCottagesStep_Execute (E\<lparr>httpDo := h\<rparr>) client = ListCottagesStep_Execute (E\<lparr>httpDo := h'\<rparr>) client"
    and "SelectPeriodStep_Execute (E\<lparr>httpDo := h\<rparr>) client C = SelectPeriodStep_Execute (E\<lparr>httpDo := h'\<rparr>) client C"
    and "BookCottageStep_Execute (E\<lparr>httpDo := h\<rparr>) client C = BookCottageStep_Execute (E\<lparr>httpDo := h'\<rparr>) client C"
  unfolding ListCottagesStep_Execute_def SelectPeriodStep_Execute_def BookCottageStep_Execute_def http_free
    collect_calls_cottages [OF assms] httpCall_agree [OF assms request_services(3)] httpCall_agree [OF assms request_services(5)]
  by (rule refl)+

lemma payment_calls_payments:
  assumes "agreeOn PaymentSimulator h h'"
  shows "PayInvoiceStep_Execute (E\<lparr>httpDo := h\<rparr>) client C = PayInvoiceStep_Execute (E\<lparr>httpDo := h'\<rparr>) client C"
  unfolding PayInvoiceStep_Execute_def http_free httpCall_agree [OF assms request_services(6)] by (rule refl)

subsection \<open>What a journey depends on\<close>

text \<open>Two ways to send requests that agree on what the three services are asked.\<close>

definition agreeHttp :: "(Request \<Rightarrow> 'a) \<Rightarrow> (Request \<Rightarrow> 'a) \<Rightarrow> bool" where
  "agreeHttp h h' \<longleftrightarrow> (\<forall>svc. agreeOn svc h h')"

lemma steps_agree:
  assumes "agreeHttp h h'"
  shows "register_Execute (E\<lparr>httpDo := h\<rparr>) client C = register_Execute (E\<lparr>httpDo := h'\<rparr>) client C"
    and "booking_Execute (E\<lparr>httpDo := h\<rparr>) C = booking_Execute (E\<lparr>httpDo := h'\<rparr>) C"
    and "payment_Execute (E\<lparr>httpDo := h\<rparr>) C = payment_Execute (E\<lparr>httpDo := h'\<rparr>) C"
proof -
  note on = assms [unfolded agreeHttp_def, THEN spec]
  show "register_Execute (E\<lparr>httpDo := h\<rparr>) client C = register_Execute (E\<lparr>httpDo := h'\<rparr>) client C"
  proof
    fix s
    show "register_Execute (E\<lparr>httpDo := h\<rparr>) client C s = register_Execute (E\<lparr>httpDo := h'\<rparr>) client C s"
      by (cases s) (simp_all add: register_calls_guests [OF on])
  qed
  show "booking_Execute (E\<lparr>httpDo := h\<rparr>) C = booking_Execute (E\<lparr>httpDo := h'\<rparr>) C"
  proof
    fix s
    show "booking_Execute (E\<lparr>httpDo := h\<rparr>) C s = booking_Execute (E\<lparr>httpDo := h'\<rparr>) C s"
      by (cases s) (simp_all add: booking_calls_cottages [OF on] http_free)
  qed
  show "payment_Execute (E\<lparr>httpDo := h\<rparr>) C = payment_Execute (E\<lparr>httpDo := h'\<rparr>) C"
  proof
    fix s
    show "payment_Execute (E\<lparr>httpDo := h\<rparr>) C s = payment_Execute (E\<lparr>httpDo := h'\<rparr>) C s"
      by (cases s) (simp_all add: payment_calls_payments [OF on])
  qed
qed

lemma flows_agree:
  assumes "agreeHttp h h'"
  shows "GuestRegisterFlow_Start (E\<lparr>httpDo := h\<rparr>) C n = GuestRegisterFlow_Start (E\<lparr>httpDo := h'\<rparr>) C n"
    and "BookingFlow_Start (E\<lparr>httpDo := h\<rparr>) C n = BookingFlow_Start (E\<lparr>httpDo := h'\<rparr>) C n"
    and "PaymentFlow_Start (E\<lparr>httpDo := h\<rparr>) C n = PaymentFlow_Start (E\<lparr>httpDo := h'\<rparr>) C n"
  unfolding GuestRegisterFlow_Start_def BookingFlow_Start_def PaymentFlow_Start_def runStepGraph_def http_free
    steps_agree [OF assms] by (rule refl)+

lemma RunLodgingStayFlow_http_free [http_free]: "RunLodgingStayFlow (rewire h S) = RunLodgingStayFlow S"
  unfolding RunLodgingStayFlow_def runStepGraph_def http_free by (rule refl)

lemma buildGuestJourney_http_free [http_free]: "buildGuestJourney (rewire h S) = buildGuestJourney S"
  unfolding buildGuestJourney_def http_free by (rule refl)

lemma cleanup_http_free [http_free]: "cleanupGuestJourney (rewire h S) = cleanupGuestJourney S"
  unfolding cleanupGuestJourney_def http_free by (rule refl)

lemma Start_journey_agree:
  assumes "agreeHttp h h'"
  shows "Start_journey (rewire h S) G fuel = Start_journey (rewire h' S) G fuel"
  unfolding Start_journey_def journeyBody_def prepareStay_def http_free flows_agree [OF assms] by (rule refl)

lemma rewire_rewire [simp]: "rewire h (rewire h' S) = rewire h S"
  by (simp add: rewire_def)

end
