(* ===== verification/Wiring.thy ===== *)
theory Wiring
  imports Routing
begin

text \<open>
  How \<open>main\<close> puts a journey together from objects: the HTTP clients
  (\<open>NewRestyClient\<close>, internal/infra/http/resty\_client.go), the structs behind the
  interface \<open>steps.Step\<close> with their constructors (internal/app/steps), the flows with theirs
  (internal/app/flows), \<open>GuestJourney\<close> with its flows
  (internal/app/journey/guest\_journey.go), \<open>buildGuestJourney\<close> with its dependencies and the
  goroutine of one round of \<open>runJourneys\<close> (internal/main.go).

  The earlier theories name the steps of a flow and let a request carry the service it is
  for. Here a step is an object with a client, a request goes to the base URL of that client,
  and a flow is a table over objects. The locale \<open>flow_presentation\<close> says when two
  presentations of a flow run alike; it is interpreted on the flow of each constructor. So the
  journey of \<open>main\<close> is the journey of theory Journey on a network in which each service is
  found at its configured address, and a journey sends HTTP to no other address.

  The pointer to the state is not a field of the objects: all of them get the one that
  \<open>buildGuestJourney\<close> made, and what it points to is the state of the world. The clock and
  the notification service are flags that say whether they are set, like the connections of
  the earlier theories. The code keys the tables by pointer, the model by value: in a flow no
  two steps have the same type, so this is the same table.
\<close>

subsection \<open>HTTP clients\<close>

record RestyClient =
  BaseURL :: string
  ClientTimeout :: int

definition NewRestyClient :: "string \<Rightarrow> int \<Rightarrow> RestyClient" where
  "NewRestyClient url port =
     \<lparr>BaseURL = ''http://'' @ url @ '':'' @ show_int port, ClientTimeout = 5 * 1000000000\<rparr>"

text \<open>
  What goes to the network: an absolute URL, as resty makes it from the base URL of the
  client and the path of a request. The transport below resty is a parameter, called with the
  timeout of the client. A nil client panics (\<open>httpCall\<close>).
\<close>

record HttpRequest =
  hr_url :: string
  hr_method :: Method
  hr_query :: "(string \<times> string) list"
  hr_body :: Body

type_synonym 'x Transport = "int \<Rightarrow> HttpRequest \<Rightarrow> 'x \<Rightarrow> Response res \<times> 'x"

definition sendThrough :: "'x Transport \<Rightarrow> RestyClient \<Rightarrow> Request \<Rightarrow> 'x \<Rightarrow> Response res \<times> 'x" where
  "sendThrough T c r = T (ClientTimeout c)
     \<lparr>hr_url = BaseURL c @ rq_path r, hr_method = rq_method r, hr_query = rq_query r, hr_body = rq_body r\<rparr>"

definition onClient :: "'x Transport \<Rightarrow> RestyClient option \<Rightarrow> 'x External \<Rightarrow> 'x External" where
  "onClient T client E = (case client of None \<Rightarrow> E | Some c \<Rightarrow> E\<lparr>httpDo := sendThrough T c\<rparr>)"

subsection \<open>Steps\<close>

text \<open>\<open>noopStep\<close> and \<open>EndStep\<close> have no field besides the state.\<close>

record RegisterGuestStep =
  rg_client :: "RestyClient option"
  rg_cache :: "Cache option"

record RetrieveGuestStep =
  rt_client :: "RestyClient option"

record ListCottagesStep =
  lc_client :: "RestyClient option"

record SelectCottageStep =
  sc_cache :: "Cache option"

record SelectPeriodStep =
  sp_clock :: bool
  sp_client :: "RestyClient option"
  sp_cache :: "Cache option"

record BookCottageStep =
  bc_client :: "RestyClient option"
  bc_cache :: "Cache option"

record PayInvoiceStep =
  pi_client :: "RestyClient option"
  pi_cache :: "Cache option"

record RunLodgingStep =
  rl_chatURL :: string
  rl_cache :: "Cache option"
  rl_chatClientFactory :: bool
  rl_notificationService :: bool
  rl_flow :: LodgingFlow

text \<open>A value of the interface \<open>steps.Step\<close>.\<close>

datatype Step =
    TheNoop | TheEnd
  | TheRegisterGuest RegisterGuestStep | TheRetrieveGuest RetrieveGuestStep
  | TheListCottages ListCottagesStep | TheSelectCottage SelectCottageStep
  | TheSelectPeriod SelectPeriodStep | TheBookCottage BookCottageStep
  | ThePayInvoice PayInvoiceStep | TheRunLodging RunLodgingStep

definition NewNoopStep :: Step where
  "NewNoopStep = TheNoop"

definition NewEndStep :: Step where
  "NewEndStep = TheEnd"

definition NewRegisterGuestStep :: "RestyClient option \<Rightarrow> Cache option \<Rightarrow> Step" where
  "NewRegisterGuestStep c cache = TheRegisterGuest \<lparr>rg_client = c, rg_cache = cache\<rparr>"

definition NewRetrieveGuestStep :: "RestyClient option \<Rightarrow> Step" where
  "NewRetrieveGuestStep c = TheRetrieveGuest \<lparr>rt_client = c\<rparr>"

definition NewListCottagesStep :: "RestyClient option \<Rightarrow> Step" where
  "NewListCottagesStep c = TheListCottages \<lparr>lc_client = c\<rparr>"

definition NewSelectCottageStep :: "Cache option \<Rightarrow> Step" where
  "NewSelectCottageStep cache = TheSelectCottage \<lparr>sc_cache = cache\<rparr>"

definition NewSelectPeriodStep :: "bool \<Rightarrow> RestyClient option \<Rightarrow> Cache option \<Rightarrow> Step" where
  "NewSelectPeriodStep clock client cache =
     TheSelectPeriod \<lparr>sp_clock = clock, sp_client = client, sp_cache = cache\<rparr>"

definition NewBookCottageStep :: "RestyClient option \<Rightarrow> Cache option \<Rightarrow> Step" where
  "NewBookCottageStep c cache = TheBookCottage \<lparr>bc_client = c, bc_cache = cache\<rparr>"

definition NewPayInvoiceStep :: "RestyClient option \<Rightarrow> Cache option \<Rightarrow> Step" where
  "NewPayInvoiceStep paymentClient cache = ThePayInvoice \<lparr>pi_client = paymentClient, pi_cache = cache\<rparr>"

definition NewRunLodgingStep :: "string \<Rightarrow> Cache option \<Rightarrow> bool \<Rightarrow> bool \<Rightarrow> LodgingFlow \<Rightarrow> Step" where
  "NewRunLodgingStep url cache chatClientFactory notificationService flow =
     TheRunLodging \<lparr>rl_chatURL = url, rl_cache = cache, rl_chatClientFactory = chatClientFactory,
       rl_notificationService = notificationService, rl_flow = flow\<rparr>"

lemmas new_steps = NewNoopStep_def NewEndStep_def NewRegisterGuestStep_def NewRetrieveGuestStep_def NewListCottagesStep_def
  NewSelectCottageStep_def NewSelectPeriodStep_def NewBookCottageStep_def NewPayInvoiceStep_def NewRunLodgingStep_def

definition noopStep_Name :: string where
  "noopStep_Name = ''GuestJourneyNoopStep''"

definition EndStep_Name :: string where
  "EndStep_Name = ''EndStep''"

definition RegisterGuestStep_Name :: string where
  "RegisterGuestStep_Name = ''RegisterGuestStep''"

definition RetrieveGuestStep_Name :: string where
  "RetrieveGuestStep_Name = ''RetrieveGuestStep''"

definition ListCottagesStep_Name :: string where
  "ListCottagesStep_Name = ''ListCottagesStep''"

definition SelectCottageStep_Name :: string where
  "SelectCottageStep_Name = ''SelectCottageStep''"

definition SelectPeriodStep_Name :: string where
  "SelectPeriodStep_Name = ''SelectPeriodStep''"

definition BookCottageStep_Name :: string where
  "BookCottageStep_Name = ''BookCottageStep''"

definition PayInvoiceStep_Name :: string where
  "PayInvoiceStep_Name = ''PayInvoiceStep''"

definition RunLodgingStep_Name :: string where
  "RunLodgingStep_Name = ''RunLodgingStep''"

lemmas step_names = noopStep_Name_def EndStep_Name_def RegisterGuestStep_Name_def RetrieveGuestStep_Name_def ListCottagesStep_Name_def
  SelectCottageStep_Name_def SelectPeriodStep_Name_def BookCottageStep_Name_def PayInvoiceStep_Name_def RunLodgingStep_Name_def

text \<open>The methods of the interface.\<close>

fun Step_Name :: "Step \<Rightarrow> string" where
  "Step_Name TheNoop = noopStep_Name"
| "Step_Name TheEnd = EndStep_Name"
| "Step_Name (TheRegisterGuest s) = RegisterGuestStep_Name"
| "Step_Name (TheRetrieveGuest s) = RetrieveGuestStep_Name"
| "Step_Name (TheListCottages s) = ListCottagesStep_Name"
| "Step_Name (TheSelectCottage s) = SelectCottageStep_Name"
| "Step_Name (TheSelectPeriod s) = SelectPeriodStep_Name"
| "Step_Name (TheBookCottage s) = BookCottageStep_Name"
| "Step_Name (ThePayInvoice s) = PayInvoiceStep_Name"
| "Step_Name (TheRunLodging s) = RunLodgingStep_Name"

fun Step_Validate :: "Step \<Rightarrow> ('x JWorld, unit) go" where
  "Step_Validate TheNoop = noopStep_Validate"
| "Step_Validate TheEnd = EndStep_Validate"
| "Step_Validate (TheRegisterGuest s) = RegisterGuestStep_Validate (rg_client s \<noteq> None) (rg_cache s)"
| "Step_Validate (TheRetrieveGuest s) = RetrieveGuestStep_Validate"
| "Step_Validate (TheListCottages s) = ListCottagesStep_Validate"
| "Step_Validate (TheSelectCottage s) = SelectCottageStep_Validate (sc_cache s)"
| "Step_Validate (TheSelectPeriod s) = SelectPeriodStep_Validate (sp_cache s)"
| "Step_Validate (TheBookCottage s) = BookCottageStep_Validate (bc_cache s)"
| "Step_Validate (ThePayInvoice s) = PayInvoiceStep_Validate (pi_client s \<noteq> None) (pi_cache s)"
| "Step_Validate (TheRunLodging s) =
     RunLodgingStep_Validate (rl_chatClientFactory s) (rl_notificationService s) (rl_chatURL s) (rl_flow s) (rl_cache s)"

text \<open>A nil clock panics when it is asked for the time.\<close>

definition onClock :: "bool \<Rightarrow> 'x External \<Rightarrow> 'x External" where
  "onClock clock E = (if clock then E else E\<lparr>grpcNow := \<lambda>x. (Panics ''nil pointer dereference'', x)\<rparr>)"

fun Step_Execute :: "'x Transport \<Rightarrow> 'x System \<Rightarrow> Step \<Rightarrow> ('x JWorld, unit) go" where
  "Step_Execute T S TheNoop = noopStep_Execute"
| "Step_Execute T S TheEnd = EndStep_Execute"
| "Step_Execute T S (TheRegisterGuest s) =
     RegisterGuestStep_Execute (onClient T (rg_client s) (sysE S)) (rg_client s \<noteq> None) (rg_cache s)"
| "Step_Execute T S (TheRetrieveGuest s) =
     RetrieveGuestStep_Execute (onClient T (rt_client s) (sysE S)) (rt_client s \<noteq> None)"
| "Step_Execute T S (TheListCottages s) =
     ListCottagesStep_Execute (onClient T (lc_client s) (sysE S)) (lc_client s \<noteq> None)"
| "Step_Execute T S (TheSelectCottage s) = SelectCottageStep_Execute (sysE S) (sc_cache s)"
| "Step_Execute T S (TheSelectPeriod s) =
     SelectPeriodStep_Execute (onClock (sp_clock s) (onClient T (sp_client s) (sysE S))) (sp_client s \<noteq> None) (sp_cache s)"
| "Step_Execute T S (TheBookCottage s) =
     BookCottageStep_Execute (onClient T (bc_client s) (sysE S)) (bc_client s \<noteq> None) (bc_cache s)"
| "Step_Execute T S (ThePayInvoice s) =
     PayInvoiceStep_Execute (onClient T (pi_client s) (sysE S)) (pi_client s \<noteq> None) (pi_cache s)"
| "Step_Execute T S (TheRunLodging s) = RunLodgingStep_Execute S (rl_chatURL s) (rl_flow s) (rl_cache s)"

subsection \<open>Flows\<close>

text \<open>
  The context that \<open>Start\<close> cancels on return is listened to only by the notifiers of a stay,
  which runs through \<open>RunLodgingStayFlow\<close>.
\<close>

record Flow =
  f_spanName :: string
  f_zeroStep :: Step
  f_firstStep :: Step
  f_stateMap :: "Step \<Rightarrow> Step WeightedTuple list option"

definition Flow_Start :: "'x Transport \<Rightarrow> 'x System \<Rightarrow> Flow \<Rightarrow> nat \<Rightarrow> ('x JWorld, unit) go" where
  "Flow_Start T S f fuel =
     runStepGraph (sysE S) (Step_Execute T S (f_zeroStep f)) Step_Validate (Step_Execute T S) (f_stateMap f) fuel (f_firstStep f)"

definition NewGuestRegisterFlowWithState :: "ServicesConfig \<Rightarrow> Cache option \<Rightarrow> error + Flow" where
  "NewGuestRegisterFlowWithState serviceConfig cache =
     (let guestClient = Some (NewRestyClient (sv_GuestManagerUrl serviceConfig) (sv_GuestManagerPort serviceConfig));
          flowDef = DefaultGuestRegisterFlow
            \<lparr>g_Start = NewEndStep, g_RegisterGuest = NewRegisterGuestStep guestClient cache,
             g_RetrieveGuest = NewRetrieveGuestStep guestClient, g_End = NewEndStep\<rparr>
      in Inr \<lparr>f_spanName = ''GuestJourneyGuestRegisterFlow'', f_zeroStep = NewNoopStep,
              f_firstStep = g_Start (fst flowDef), f_stateMap = GuestRegisterStateMap flowDef\<rparr>)"

definition NewBookingFlow :: "ServicesConfig \<Rightarrow> Cache option \<Rightarrow> bool \<Rightarrow> error + Flow" where
  "NewBookingFlow serviceConfig cache clock =
     (let cottageClient = Some (NewRestyClient (sv_CottageManagerUrl serviceConfig) (sv_CottageManagerPort serviceConfig));
          flowDef = DefaultBookingFlow
            \<lparr>b_Start = NewEndStep, b_ListCottages = NewListCottagesStep cottageClient,
             b_SelectCottage = NewSelectCottageStep cache,
             b_SelectPeriod = NewSelectPeriodStep clock cottageClient cache,
             b_BookCottage = NewBookCottageStep cottageClient cache, b_End = NewEndStep\<rparr>
      in Inr \<lparr>f_spanName = ''GuestJourneyBookingFlow'', f_zeroStep = NewNoopStep,
              f_firstStep = b_Start (fst flowDef), f_stateMap = BookingStateMap flowDef\<rparr>)"

definition NewPaymentFlowWithState :: "ServicesConfig \<Rightarrow> Cache option \<Rightarrow> error + Flow" where
  "NewPaymentFlowWithState serviceConfig cache =
     (let paymentClient = Some (NewRestyClient (sv_PaymentSimulatorUrl serviceConfig) (sv_PaymentSimulatorPort serviceConfig));
          flowDef = DefaultPaymentFlow
            \<lparr>p_Start = NewEndStep, p_PayInvoice = NewPayInvoiceStep paymentClient cache, p_End = NewEndStep\<rparr>
      in Inr \<lparr>f_spanName = ''GuestJourneyPaymentFlowSteps'', f_zeroStep = NewNoopStep,
              f_firstStep = p_Start (fst flowDef), f_stateMap = PaymentStateMap flowDef\<rparr>)"

text \<open>\<open>flows.LodgingFlow\<close>; a step whose entry in the table is nil has no successor.\<close>

record StayFlow =
  sf_Flow :: Flow
  sf_RunLodgingStep :: "Step option"

definition NewLodgingFlowWithState :: "ServicesConfig \<Rightarrow> Cache option \<Rightarrow> bool \<Rightarrow> error + StayFlow" where
  "NewLodgingFlowWithState serviceConfig cache notificationService =
     (let runStep = NewRunLodgingStep
            (chatURL (sv_GuestManagerUrl serviceConfig) (sv_GuestManagerPort serviceConfig))
            cache True notificationService DefaultLodgingFlow
      in Inr \<lparr>sf_Flow = \<lparr>f_spanName = ''GuestJourneyLodgingFlow'', f_zeroStep = NewNoopStep, f_firstStep = runStep,
                f_stateMap = \<lambda>_. None\<rparr>,
              sf_RunLodgingStep = Some runStep\<rparr>)"

definition RunStayFlow :: "'x Transport \<Rightarrow> 'x System \<Rightarrow> StayFlow option \<Rightarrow> ('x JWorld, unit) go" where
  "RunStayFlow T S flow =
     (case Option.bind flow sf_RunLodgingStep of
        None \<Rightarrow> throw (Errorf ''failed to find RunLodgingStep in lodging flow'')
      | Some step \<Rightarrow> cancelling (runStepGraph (sysE S) (Step_Execute T S NewNoopStep) Step_Validate (Step_Execute T S)
          (\<lambda>_. None) 1 step))"

subsection \<open>Objects instead of names\<close>

text \<open>
  The contract between two presentations of a flow: \<open>h\<close> gives the object that stands for a
  named step; objects validate and execute as the steps they stand for, and the table of
  the objects is the table of the names. Then the two flows run alike.
\<close>

definition mapTuple :: "('s \<Rightarrow> 't) \<Rightarrow> 's WeightedTuple \<Rightarrow> 't WeightedTuple" where
  "mapTuple h it = \<lparr>Value = h (Value it), Weight = Weight it\<rparr>"

lemma mapTuple_parts [simp]: "Value (mapTuple h it) = h (Value it)" "Weight (mapTuple h it) = Weight it"
  "mapTuple h (tup v p) = tup (h v) p"
  by (simp_all add: mapTuple_def)

lemma pickLoop_mapTuple: "pickLoop rnd t (map (mapTuple h) list) = map_option h (pickLoop rnd t list)"
  by (induction rnd t list rule: pickLoop.induct) (auto simp: Let_def)

lemma weightTotal_mapTuple: "weightTotal rnd (map (mapTuple h) list) = weightTotal rnd list"
  unfolding weightTotal_def foldl_map mapTuple_parts by (rule refl)

lemma pickWeighted_mapTuple: "pickWeighted rnd u (map (mapTuple h) list) = map_option h (pickWeighted rnd u list)"
  by (auto simp: pickWeighted_def pickLoop_mapTuple weightTotal_mapTuple last_map split: option.splits)

lemma PickRandomWeighted_mapTuple:
  "bindE (PickRandomWeighted E (map (mapTuple h) list)) k = bindE (PickRandomWeighted E list) (\<lambda>s. k (h s))"
  by (auto simp: PickRandomWeighted_def bindE_def extV_def pickWeighted_mapTuple fun_eq_iff
      split: prod.splits res.splits option.splits)

locale flow_presentation =
  fixes h :: "'s \<Rightarrow> 't"
    and validate execute :: "'s \<Rightarrow> (('x, 'z) World_scheme, unit) go" and table :: "'s \<Rightarrow> 's WeightedTuple list option"
    and validate' execute' :: "'t \<Rightarrow> (('x, 'z) World_scheme, unit) go" and table' :: "'t \<Rightarrow> 't WeightedTuple list option"
  assumes validates: "validate' (h s) = validate s"
    and executes: "execute' (h s) = execute s"
    and tables: "table' (h s) = map_option (map (mapTuple h)) (table s)"
begin

lemma loops_agree: "stepLoop E validate' execute' table' n (h s) = stepLoop E validate execute table n s"
proof (induction n arbitrary: s)
  case 0
  show ?case by simp
next
  case (Suc n)
  have "(case table' (h s) of None \<Rightarrow> ret () | Some nxt \<Rightarrow> bindE (PickRandomWeighted E nxt) (stepLoop E validate' execute' table' n)) =
    (case table s of None \<Rightarrow> ret () | Some nxt \<Rightarrow> bindE (PickRandomWeighted E nxt) (stepLoop E validate execute table n))"
    by (cases "table s") (simp_all add: tables PickRandomWeighted_mapTuple Suc.IH)
  then show ?case by (simp only: stepLoop.simps validates executes)
qed

end

subsection \<open>The flows of the constructors\<close>

definition clientOf :: "ServicesConfig \<Rightarrow> Service \<Rightarrow> RestyClient" where
  "clientOf cfg svc = (case svc of
      GuestManager \<Rightarrow> NewRestyClient (sv_GuestManagerUrl cfg) (sv_GuestManagerPort cfg)
    | CottageManager \<Rightarrow> NewRestyClient (sv_CottageManagerUrl cfg) (sv_CottageManagerPort cfg)
    | PaymentSimulator \<Rightarrow> NewRestyClient (sv_PaymentSimulatorUrl cfg) (sv_PaymentSimulatorPort cfg))"

text \<open>The requests of a journey, sent to the configured addresses.\<close>

definition routed :: "'x Transport \<Rightarrow> ServicesConfig \<Rightarrow> Request \<Rightarrow> 'x \<Rightarrow> Response res \<times> 'x" where
  "routed T cfg r = sendThrough T (clientOf cfg (rq_service r)) r"

lemma agree_routed: "agreeOn svc (sendThrough T (clientOf cfg svc)) (routed T cfg)"
  by (simp add: agreeOn_def requestTo_def routed_def)

lemma clientOf_services [simp]:
  "NewRestyClient (sv_GuestManagerUrl cfg) (sv_GuestManagerPort cfg) = clientOf cfg GuestManager"
  "NewRestyClient (sv_CottageManagerUrl cfg) (sv_CottageManagerPort cfg) = clientOf cfg CottageManager"
  "NewRestyClient (sv_PaymentSimulatorUrl cfg) (sv_PaymentSimulatorPort cfg) = clientOf cfg PaymentSimulator"
  by (simp_all add: clientOf_def)

fun registerObject :: "ServicesConfig \<Rightarrow> Cache option \<Rightarrow> RegisterStep \<Rightarrow> Step" where
  "registerObject cfg C RegisterGuest = NewRegisterGuestStep (Some (clientOf cfg GuestManager)) C"
| "registerObject cfg C RetrieveGuest = NewRetrieveGuestStep (Some (clientOf cfg GuestManager))"
| "registerObject cfg C RegisterEnd = NewEndStep"

fun bookingObject :: "ServicesConfig \<Rightarrow> Cache option \<Rightarrow> BookingStep \<Rightarrow> Step" where
  "bookingObject cfg C ListCottages = NewListCottagesStep (Some (clientOf cfg CottageManager))"
| "bookingObject cfg C SelectCottage = NewSelectCottageStep C"
| "bookingObject cfg C SelectPeriod = NewSelectPeriodStep True (Some (clientOf cfg CottageManager)) C"
| "bookingObject cfg C BookCottage = NewBookCottageStep (Some (clientOf cfg CottageManager)) C"
| "bookingObject cfg C BookingEnd = NewEndStep"

fun paymentObject :: "ServicesConfig \<Rightarrow> Cache option \<Rightarrow> PaymentStep \<Rightarrow> Step" where
  "paymentObject cfg C PayInvoice = NewPayInvoiceStep (Some (clientOf cfg PaymentSimulator)) C"
| "paymentObject cfg C PaymentEnd = NewEndStep"

abbreviation routedE :: "'x Transport \<Rightarrow> ServicesConfig \<Rightarrow> 'x System \<Rightarrow> 'x External" where
  "routedE T cfg S \<equiv> (sysE S)\<lparr>httpDo := routed T cfg\<rparr>"

lemma onClient_Some [simp]: "onClient T (Some c) E = E\<lparr>httpDo := sendThrough T c\<rparr>"
  by (simp add: onClient_def)

interpretation reg_objects: flow_presentation "registerObject cfg C"
    "register_Validate True C" "register_Execute (routedE T cfg S) True C" "GuestRegisterStateMap (DefaultGuestRegisterFlow registerSteps)"
    Step_Validate "Step_Execute T S" "f_stateMap (projr (NewGuestRegisterFlowWithState cfg C))"
  for cfg C T S
proof
  fix s
  show "Step_Validate (registerObject cfg C s) = register_Validate True C s"
    by (cases s) (simp_all add: new_steps)
  show "Step_Execute T S (registerObject cfg C s) = register_Execute (routedE T cfg S) True C s"
    by (cases s) (simp_all add: new_steps register_calls_guests [OF agree_routed])
  show "f_stateMap (projr (NewGuestRegisterFlowWithState cfg C)) (registerObject cfg C s) =
      map_option (map (mapTuple (registerObject cfg C))) (GuestRegisterStateMap (DefaultGuestRegisterFlow registerSteps) s)"
    by (cases s) (simp_all add: NewGuestRegisterFlowWithState_def GuestRegisterStateMap_def DefaultGuestRegisterFlow_def
        registerSteps_def new_steps Let_def)
qed

interpretation book_objects: flow_presentation "bookingObject cfg C"
    "booking_Validate C" "booking_Execute (routedE T cfg S) C" bookingMap
    Step_Validate "Step_Execute T S" "f_stateMap (projr (NewBookingFlow cfg C True))"
  for cfg C T S
proof
  fix s
  show "Step_Validate (bookingObject cfg C s) = booking_Validate C s"
    by (cases s) (simp_all add: new_steps)
  show "Step_Execute T S (bookingObject cfg C s) = booking_Execute (routedE T cfg S) C s"
    by (cases s) (simp_all add: new_steps onClock_def http_free booking_calls_cottages [OF agree_routed])
  show "f_stateMap (projr (NewBookingFlow cfg C True)) (bookingObject cfg C s) =
      map_option (map (mapTuple (bookingObject cfg C))) (bookingMap s)"
    by (cases s) (simp_all add: NewBookingFlow_def BookingStateMap_def DefaultBookingFlow_def bookingSteps_def new_steps Let_def)
qed

interpretation pay_objects: flow_presentation "paymentObject cfg C"
    "payment_Validate C" "payment_Execute (routedE T cfg S) C" paymentMap
    Step_Validate "Step_Execute T S" "f_stateMap (projr (NewPaymentFlowWithState cfg C))"
  for cfg C T S
proof
  fix s
  show "Step_Validate (paymentObject cfg C s) = payment_Validate C s"
    by (cases s) (simp_all add: new_steps)
  show "Step_Execute T S (paymentObject cfg C s) = payment_Execute (routedE T cfg S) C s"
    by (cases s) (simp_all add: new_steps payment_calls_payments [OF agree_routed])
  show "f_stateMap (projr (NewPaymentFlowWithState cfg C)) (paymentObject cfg C s) =
      map_option (map (mapTuple (paymentObject cfg C))) (paymentMap s)"
    by (cases s) (simp_all add: NewPaymentFlowWithState_def PaymentStateMap_def DefaultPaymentFlow_def paymentSteps_def new_steps Let_def)
qed

text \<open>Within a flow, the name that a step logs says which step it is.\<close>

lemma names_identify:
  "Step_Name (registerObject cfg C r) = Step_Name (registerObject cfg C r') \<longleftrightarrow> r = r'"
  "Step_Name (bookingObject cfg C b) = Step_Name (bookingObject cfg C b') \<longleftrightarrow> b = b'"
  "Step_Name (paymentObject cfg C p) = Step_Name (paymentObject cfg C p') \<longleftrightarrow> p = p'"
proof -
  show "Step_Name (registerObject cfg C r) = Step_Name (registerObject cfg C r') \<longleftrightarrow> r = r'"
    by (cases r; cases r'; simp add: new_steps step_names)
  show "Step_Name (bookingObject cfg C b) = Step_Name (bookingObject cfg C b') \<longleftrightarrow> b = b'"
    by (cases b; cases b'; simp add: new_steps step_names)
  show "Step_Name (paymentObject cfg C p) = Step_Name (paymentObject cfg C p') \<longleftrightarrow> p = p'"
    by (cases p; cases p'; simp add: new_steps step_names)
qed

lemma first_steps:
  "NewGuestRegisterFlowWithState cfg C = Inr f \<Longrightarrow> f_firstStep f = registerObject cfg C RegisterGuest \<and> f_zeroStep f = TheNoop"
  "NewBookingFlow cfg C clock = Inr f \<Longrightarrow> clock \<Longrightarrow> f_firstStep f = bookingObject cfg C ListCottages \<and> f_zeroStep f = TheNoop"
  "NewPaymentFlowWithState cfg C = Inr f \<Longrightarrow> f_firstStep f = paymentObject cfg C PayInvoice \<and> f_zeroStep f = TheNoop"
  by (auto simp: NewGuestRegisterFlowWithState_def DefaultGuestRegisterFlow_def NewBookingFlow_def DefaultBookingFlow_def
      NewPaymentFlowWithState_def DefaultPaymentFlow_def new_steps Let_def)

lemmas flow_start_defs = Flow_Start_def runStepGraph_def GuestRegisterFlow_Start_def BookingFlow_Start_def
  PaymentFlow_Start_def noopStep_Execute_def Let_def

lemma register_flow_object:
  "NewGuestRegisterFlowWithState cfg C = Inr f \<Longrightarrow> Flow_Start T S f fuel = GuestRegisterFlow_Start (routedE T cfg S) C fuel"
  using first_steps(1) [of cfg C f] reg_objects.loops_agree [where cfg = cfg and C = C and T = T and S = S and E = "sysE S" and n = fuel and s = RegisterGuest]
  by (simp add: flow_start_defs http_free)

lemma booking_flow_object:
  "NewBookingFlow cfg C True = Inr f \<Longrightarrow> Flow_Start T S f fuel = BookingFlow_Start (routedE T cfg S) C fuel"
  using first_steps(2) [of cfg C True f] book_objects.loops_agree [where cfg = cfg and C = C and T = T and S = S and E = "sysE S" and n = fuel and s = ListCottages]
  by (simp add: flow_start_defs http_free)

lemma payment_flow_object:
  "NewPaymentFlowWithState cfg C = Inr f \<Longrightarrow> Flow_Start T S f fuel = PaymentFlow_Start (routedE T cfg S) C fuel"
  using first_steps(3) [of cfg C f] pay_objects.loops_agree [where cfg = cfg and C = C and T = T and S = S and E = "sysE S" and n = fuel and s = PayInvoice]
  by (simp add: flow_start_defs http_free)

lemma stepLoop_one_step:
  assumes "validate s = validate' s'" and "execute s = execute' s'"
  shows "stepLoop E validate execute (\<lambda>_. None) n s = stepLoop E validate' execute' (\<lambda>_. None) n s'"
  using assms by (cases n) (simp_all cong: if_cong)

lemma stay_flow_object:
  assumes "NewLodgingFlowWithState cfg C True = Inr f"
  shows "RunStayFlow T S (Some f) =
    RunLodgingStayFlow (rewire (routed T cfg) S) True (chatURL (sv_GuestManagerUrl cfg) (sv_GuestManagerPort cfg)) C"
proof -
  let ?url = "chatURL (sv_GuestManagerUrl cfg) (sv_GuestManagerPort cfg)"
  let ?step = "NewRunLodgingStep ?url C True True DefaultLodgingFlow"
  have "stepLoop (sysE S) Step_Validate (Step_Execute T S) (\<lambda>_. None) 1 ?step =
      stepLoop (sysE S) (\<lambda>_. RunLodgingStep_Validate True True ?url DefaultLodgingFlow C)
        (\<lambda>_. RunLodgingStep_Execute S ?url DefaultLodgingFlow C) (\<lambda>_. None) 1 ()"
    by (rule stepLoop_one_step) (simp_all add: new_steps)
  moreover have "sf_RunLodgingStep f = Some ?step"
    using assms by (auto simp: NewLodgingFlowWithState_def Let_def)
  ultimately show ?thesis
    by (simp only: RunStayFlow_def RunLodgingStayFlow_def runStepGraph_def http_free bind.simps option.case not_True_eq_False
        if_False NewNoopStep_def Step_Execute.simps)
qed

subsection \<open>The journey object\<close>

text \<open>
  The struct \<open>GuestJourney\<close> with its flows. The consumer and the bus are parts of the world, as
  in theory Journey; flows and consumer may be nil when the constructor is called.
\<close>

record JourneyObject =
  jo_cache :: Cache
  jo_cacheService :: JourneyCacheService
  jo_guestRegisterFlow :: Flow
  jo_bookingFlow :: Flow
  jo_paymentFlow :: Flow
  jo_lodgingFlow :: StayFlow
  jo_communicationCfg :: RabbitMqConsumerConfig

definition NewJourneyObject :: "State option \<Rightarrow> Flow option \<Rightarrow> Flow option \<Rightarrow> Flow option \<Rightarrow> StayFlow option \<Rightarrow> bool
    \<Rightarrow> Cache option \<Rightarrow> RabbitMqConsumerConfig \<Rightarrow> error + JourneyObject \<times> GuestCommunicationBus" where
  "NewJourneyObject state guestRegisterFlow bookingFlow paymentFlow lodgingFlow rabbitConsumer cache cfg =
     (case (state, guestRegisterFlow, bookingFlow, paymentFlow, lodgingFlow, cache) of
        (Some _, Some r, Some b, Some p, Some l, Some c) \<Rightarrow>
          if \<not> rabbitConsumer then Inl (Errorf ''invalid guest journey dependencies'')
          else Inr (\<lparr>jo_cache = c, jo_cacheService = NewJourneyCacheService (Some c), jo_guestRegisterFlow = r,
                     jo_bookingFlow = b, jo_paymentFlow = p, jo_lodgingFlow = l, jo_communicationCfg = cfg\<rparr>,
                    NewGuestCommunicationBus)
      | _ \<Rightarrow> Inl (Errorf ''invalid guest journey dependencies''))"

definition JourneyObject_cleanup :: "'x System \<Rightarrow> JourneyObject \<Rightarrow> ('x JWorld, unit) go" where
  "JourneyObject_cleanup S g =
     thenE (LogStateCache (sysE S) (jo_cacheService g)) (CleanupState S (jo_cacheService g) True)"

definition JourneyObject_Start :: "'x Transport \<Rightarrow> 'x System \<Rightarrow> JourneyObject \<Rightarrow> nat \<Rightarrow> ('x JWorld, unit) go" where
  "JourneyObject_Start T S g fuel = onErrorJoin
    (thenE (createGuest (sysE S) (jo_cacheService g))
    (thenE (Flow_Start T S (jo_guestRegisterFlow g) 3)
    (thenE (SetupCommunication S (jo_communicationCfg g) True True)
    (thenE (Flow_Start T S (jo_bookingFlow g) fuel)
    (bindE (Load (sysE S) (jo_cache g)) (\<lambda>cacheValue.
       if (case Booking cacheValue of None \<Rightarrow> True | Some b \<Rightarrow> BookingID b = [])
       then throw (Errorf ''booking flow finished without bookingId'')
       else
         thenE (SyncStateCache (sysE S) (jo_cacheService g))
        (thenE (afterOthers S (WaitPaymentRequestMessage S (Some (jo_cache g))))
        (thenE (Flow_Start T S (jo_paymentFlow g) 2)
        (thenE (SyncStateCache (sysE S) (jo_cacheService g))
        (thenE (afterOthers S (WaitBookingConfirmationMessage S (Some (jo_cache g))))
        (thenE (afterOthers S (WaitCheckinTodayMessage S (Some (jo_cache g))))
        (thenE (RunStayFlow T S (Some (jo_lodgingFlow g)))
          (JourneyObject_cleanup S g)))))))))))))
    (JourneyObject_cleanup S g)"

text \<open>The broker connection is that of the world.\<close>

record guestJourneyFactoryDeps =
  dp_flowConfig :: FlowsConfig
  dp_servicesConfig :: ServicesConfig
  dp_communicationConsumer :: RabbitMqConsumerConfig
  dp_redisCache :: "Cache option"
  dp_clock :: bool
  dp_hourNotificationService :: bool

definition orFail :: "error + 'a \<Rightarrow> ('w, 'a) go" where
  "orFail r = (case r of Inl e \<Rightarrow> throw e | Inr a \<Rightarrow> ret a)"

definition buildJourneyObject :: "'x System \<Rightarrow> guestJourneyFactoryDeps \<Rightarrow> ('x JWorld, JourneyObject) go" where
  "buildJourneyObject S deps =
     thenE (modW (\<lambda>w. w\<lparr>w_state := Some zeroState\<rparr>))
    (bindE (orFail (NewGuestRegisterFlowWithState (dp_servicesConfig deps) (dp_redisCache deps))) (\<lambda>guestRegisterFlow.
     bindE (orFail (NewBookingFlow (dp_servicesConfig deps) (dp_redisCache deps) (dp_clock deps))) (\<lambda>bookingFlow.
     bindE (orFail (NewPaymentFlowWithState (dp_servicesConfig deps) (dp_redisCache deps))) (\<lambda>paymentFlow.
     bindE (orFail (NewLodgingFlowWithState (dp_servicesConfig deps) (dp_redisCache deps) (dp_hourNotificationService deps))) (\<lambda>lodgingFlow.
     thenE (NewRabbitmqConsumer (sysA S) (cfg_Consume (dp_communicationConsumer deps)))
    (bindE (getW w_state) (\<lambda>state.
     bindE (orFail (NewJourneyObject state (Some guestRegisterFlow) (Some bookingFlow) (Some paymentFlow) (Some lodgingFlow) True
         (dp_redisCache deps) (dp_communicationConsumer deps))) (\<lambda>(g, b).
       thenE (modW (\<lambda>w. w\<lparr>bus := b\<rparr>)) (ret g)))))))))"

text \<open>What \<open>runJourneys\<close> is given, and the goroutine of one of its rounds.\<close>

definition journeyFactory :: "'x System \<Rightarrow> Configs \<Rightarrow> Cache option \<Rightarrow> ('x JWorld, JourneyObject) go" where
  "journeyFactory S configs cache = buildJourneyObject S
     \<lparr>dp_flowConfig = cf_FlowsConfig configs, dp_servicesConfig = cf_ServicesConfig configs,
      dp_communicationConsumer = rc_Communication (cf_RabbitMqConsumersConfig configs), dp_redisCache = cache,
      dp_clock = True, dp_hourNotificationService = True\<rparr>"

definition startJourney :: "('w, 'j) go \<Rightarrow> ('j \<Rightarrow> ('w, unit) go) \<Rightarrow> ('w, unit) go" where
  "startJourney factory start = bindE (tryE factory) (\<lambda>r. case r of
      Inl _ \<Rightarrow> ret ()
    | Inr guestJourney \<Rightarrow> ignoreErr (start guestJourney))"

subsection \<open>The wired journey is the journey of the model\<close>

text \<open>The journey of the model that an object stands for.\<close>

definition journeyOf :: "ServicesConfig \<Rightarrow> JourneyObject \<Rightarrow> GuestJourney" where
  "journeyOf cfg g = \<lparr>gj_cache = jo_cache g, gj_cacheService = jo_cacheService g, gj_communicationCfg = jo_communicationCfg g,
     gj_chatURL = chatURL (sv_GuestManagerUrl cfg) (sv_GuestManagerPort cfg)\<rparr>"

text \<open>Its flows are those of the constructors.\<close>

definition wiredTo :: "ServicesConfig \<Rightarrow> JourneyObject \<Rightarrow> bool" where
  "wiredTo cfg g \<longleftrightarrow> NewGuestRegisterFlowWithState cfg (Some (jo_cache g)) = Inr (jo_guestRegisterFlow g)
     \<and> NewBookingFlow cfg (Some (jo_cache g)) True = Inr (jo_bookingFlow g)
     \<and> NewPaymentFlowWithState cfg (Some (jo_cache g)) = Inr (jo_paymentFlow g)
     \<and> NewLodgingFlowWithState cfg (Some (jo_cache g)) True = Inr (jo_lodgingFlow g)"

lemma JourneyObject_Start_is:
  assumes "wiredTo cfg g"
  shows "JourneyObject_Start T S g fuel = Start_journey (rewire (routed T cfg) S) (journeyOf cfg g) fuel"
proof -
  have flows: "Flow_Start T S (jo_guestRegisterFlow g) n = GuestRegisterFlow_Start (routedE T cfg S) (Some (jo_cache g)) n"
    "Flow_Start T S (jo_bookingFlow g) n = BookingFlow_Start (routedE T cfg S) (Some (jo_cache g)) n"
    "Flow_Start T S (jo_paymentFlow g) n = PaymentFlow_Start (routedE T cfg S) (Some (jo_cache g)) n"
    "RunStayFlow T S (Some (jo_lodgingFlow g)) =
      RunLodgingStayFlow (rewire (routed T cfg) S) True (chatURL (sv_GuestManagerUrl cfg) (sv_GuestManagerPort cfg)) (Some (jo_cache g))"
    for n
    using assms by (auto simp: wiredTo_def intro: register_flow_object booking_flow_object payment_flow_object stay_flow_object)
  show ?thesis
    unfolding JourneyObject_Start_def Start_journey_def journeyBody_def prepareStay_def JourneyObject_cleanup_def
      cleanupGuestJourney_def journeyOf_def GuestJourney.select_convs flows http_free thenE_assoc thenE_bindE
      if_distrib [of "\<lambda>m. thenE m k" for k] thenE_simps
    by (rule refl)
qed

lemma orFail_Inr: "orFail (Inr a) = ret a"
  by (simp add: orFail_def)

lemma buildJourneyObject_is:
  assumes "dp_clock deps" and "dp_hourNotificationService deps"
  shows "bindE (buildJourneyObject S deps) (\<lambda>g. JourneyObject_Start T S g fuel) =
    bindE (buildGuestJourney S (dp_redisCache deps) (dp_communicationConsumer deps)
        (sv_GuestManagerUrl (dp_servicesConfig deps)) (sv_GuestManagerPort (dp_servicesConfig deps)))
      (\<lambda>G. Start_journey (rewire (routed T (dp_servicesConfig deps)) S) G fuel)"
proof -
  let ?cfg = "dp_servicesConfig deps" and ?C = "dp_redisCache deps"
  obtain r b p l where flows: "NewGuestRegisterFlowWithState ?cfg ?C = Inr r" "NewBookingFlow ?cfg ?C True = Inr b"
    "NewPaymentFlowWithState ?cfg ?C = Inr p" "NewLodgingFlowWithState ?cfg ?C True = Inr l"
    by (simp add: NewGuestRegisterFlowWithState_def NewBookingFlow_def NewPaymentFlowWithState_def
        NewLodgingFlowWithState_def Let_def)
  have obj: "JourneyObject_Start T S \<lparr>jo_cache = c, jo_cacheService = svc, jo_guestRegisterFlow = r, jo_bookingFlow = b,
        jo_paymentFlow = p, jo_lodgingFlow = l, jo_communicationCfg = com\<rparr> fuel =
      Start_journey (rewire (routed T ?cfg) S) \<lparr>gj_cache = c, gj_cacheService = svc, gj_communicationCfg = com,
        gj_chatURL = chatURL (sv_GuestManagerUrl ?cfg) (sv_GuestManagerPort ?cfg)\<rparr> fuel"
    if "?C = Some c" for c svc com
    using JourneyObject_Start_is [of ?cfg "\<lparr>jo_cache = c, jo_cacheService = svc, jo_guestRegisterFlow = r, jo_bookingFlow = b,
        jo_paymentFlow = p, jo_lodgingFlow = l, jo_communicationCfg = com\<rparr>" T S fuel] flows that
    by (simp add: wiredTo_def journeyOf_def)
  have new: "bindE (bindE (orFail (NewJourneyObject state (Some r) (Some b) (Some p) (Some l) True ?C com))
        (\<lambda>(g, b). thenE (modW (\<lambda>w. w\<lparr>bus := b\<rparr>)) (ret g))) (\<lambda>g. JourneyObject_Start T S g fuel) =
      bindE (case NewGuestJourney state True True True True True ?C com (chatURL (sv_GuestManagerUrl ?cfg) (sv_GuestManagerPort ?cfg)) of
         Inl e \<Rightarrow> throw e
       | Inr (g, b) \<Rightarrow> thenE (modW (\<lambda>w. w\<lparr>bus := b\<rparr>)) (ret g)) (\<lambda>G. Start_journey (rewire (routed T ?cfg) S) G fuel)"
    for state com
    by (cases state; cases ?C)
      (simp_all add: NewJourneyObject_def NewGuestJourney_def orFail_def obj thenE_def fun_eq_iff bindE_def modW_def)
  show ?thesis
    unfolding buildJourneyObject_def buildGuestJourney_def flows assms [THEN eqTrueI] orFail_Inr thenE_def bindE_simps bindE_assoc
      new [unfolded thenE_def bindE_simps bindE_assoc] by (rule refl)
qed

text \<open>
  A transport answers alike on what is sent to a service of the configuration: the timeout
  of the clients and a URL that begins with the configured host and port.
\<close>

fun addressOf :: "ServicesConfig \<Rightarrow> Service \<Rightarrow> string \<times> int" where
  "addressOf cfg GuestManager = (sv_GuestManagerUrl cfg, sv_GuestManagerPort cfg)"
| "addressOf cfg CottageManager = (sv_CottageManagerUrl cfg, sv_CottageManagerPort cfg)"
| "addressOf cfg PaymentSimulator = (sv_PaymentSimulatorUrl cfg, sv_PaymentSimulatorPort cfg)"

definition addressed :: "ServicesConfig \<Rightarrow> int \<Rightarrow> HttpRequest \<Rightarrow> bool" where
  "addressed cfg timeout q \<longleftrightarrow> timeout = 5 * 1000000000 \<and>
     (\<exists>svc host port path. addressOf cfg svc = (host, port)
        \<and> hr_url q = ''http://'' @ host @ '':'' @ show_int port @ ''/'' @ path)"

lemma client_address:
  "addressOf cfg svc = (host, port) \<Longrightarrow> BaseURL (clientOf cfg svc) = ''http://'' @ host @ '':'' @ show_int port"
  "ClientTimeout (clientOf cfg svc) = 5 * 1000000000"
  by (cases svc; auto simp: clientOf_def NewRestyClient_def)+

lemma agree_addressed:
  assumes "\<And>t q. addressed cfg t q \<Longrightarrow> T t q = T' t q"
  shows "agreeHttp (routed T cfg) (routed T' cfg)"
  unfolding agreeHttp_def agreeOn_def
proof (intro allI impI)
  fix svc r
  assume "requestTo svc r"
  then obtain p where p: "rq_path r = ''/'' @ p" by (cases "rq_path r") (auto simp: requestTo_def)
  obtain host port where addr: "addressOf cfg (rq_service r) = (host, port)" by fastforce
  show "routed T cfg r = routed T' cfg r"
    unfolding routed_def sendThrough_def
    by (intro assms) (use addr client_address(1) [OF addr] p in \<open>auto simp: addressed_def client_address(2)\<close>)
qed

lemma startJourney_is: "startJourney factory start = ignoreErr (bindE factory start)"
  by (auto simp: startJourney_def fun_eq_iff ignoreErr_def bindE_def tryE_def split: prod.splits res.splits)

lemma journeyFactory_http_free [http_free]: "journeyFactory (rewire h S) = journeyFactory S"
  unfolding journeyFactory_def buildJourneyObject_def http_free by (rule refl)

lemma journeyFactory_is:
  "bindE (journeyFactory S configs C) (\<lambda>g. JourneyObject_Start T S g fuel) =
     bindE (buildGuestJourney S C (rc_Communication (cf_RabbitMqConsumersConfig configs))
         (sv_GuestManagerUrl (cf_ServicesConfig configs)) (sv_GuestManagerPort (cf_ServicesConfig configs)))
       (\<lambda>G. Start_journey (rewire (routed T (cf_ServicesConfig configs)) S) G fuel)"
  unfolding journeyFactory_def by (subst buildJourneyObject_is) simp_all

end
