(* ===== verification/Wiring_properties.thy ===== *)
theory Wiring_properties
  imports Program_properties Wiring
begin

text \<open>
  What the journeys of the process do with the network: they are the journeys of the model on
  the services of the configuration, and talk to nothing else. The example runs a whole journey of
  the process, from \<open>buildGuestJourney\<close> on, over URLs.
\<close>

section \<open>The journeys of the process\<close>

text \<open>
  C3. The journey that the factory of \<open>main\<close> builds, with its flows, steps and HTTP clients as objects, behaves, whatever
  the network below the clients, the schedule, the choices and the fuel, exactly as the journey of theory Journey
  on a system where a request for a service goes to the address that the configuration has for that service, with the
  chat at the address of the guest manager.
\<close>

theorem wired_journey:
  "bindE (journeyFactory S configs C) (\<lambda>g. JourneyObject_Start T S g fuel) =
    (let S' = rewire (routed T (cf_ServicesConfig configs)) S
     in bindE (buildGuestJourney S' C (rc_Communication (cf_RabbitMqConsumersConfig configs))
            (sv_GuestManagerUrl (cf_ServicesConfig configs)) (sv_GuestManagerPort (cf_ServicesConfig configs)))
          (\<lambda>G. Start_journey S' G fuel))"
  by (simp add: journeyFactory_is Let_def http_free)

text \<open>
  C4. A round of the pool sends HTTP only to configured addresses: two networks that agree on the requests whose URL
  begins with \<open>http://\<close>, the host and the port of one of the three services, a slash, and whose timeout is five seconds,
  give the same run, whatever they do on any other request and whatever other HTTP access the system has.
\<close>

theorem configured_addresses_only:
  assumes "\<forall>t q. addressed (cf_ServicesConfig configs) t q \<longrightarrow> T t q = T' t q"
  shows "startJourney (journeyFactory S configs C) (\<lambda>g. JourneyObject_Start T S g fuel) =
    startJourney (journeyFactory (rewire h S) configs C) (\<lambda>g. JourneyObject_Start T' (rewire h S) g fuel)"
proof -
  have "agreeHttp (routed T (cf_ServicesConfig configs)) (routed T' (cf_ServicesConfig configs))"
    by (rule agree_addressed) (use assms in blast)
  then show ?thesis
    unfolding startJourney_is journeyFactory_is rewire_rewire buildGuestJourney_http_free
    by (simp only: Start_journey_agree)
qed

text \<open>The services in memory behind URLs, and a network that panics when another host is contacted.\<close>

definition stripPrefix :: "string \<Rightarrow> string \<Rightarrow> string option" where
  "stripPrefix p s = (if take (length p) s = p then Some (drop (length p) s) else None)"

definition demoTransport :: "Mem Transport" where
  "demoTransport t q x =
     (let on = \<lambda>svc path. (mem_http x \<lparr>rq_service = svc, rq_method = hr_method q, rq_path = path, rq_query = hr_query q,
            rq_body = hr_body q\<rparr>, x)
      in case stripPrefix ''http://guest-manager:8081'' (hr_url q) of
           Some path \<Rightarrow> on GuestManager path
         | None \<Rightarrow> (case stripPrefix ''http://cottages:8081'' (hr_url q) of
           Some path \<Rightarrow> on CottageManager path
         | None \<Rightarrow> (case stripPrefix ''http://payments:8082'' (hr_url q) of
           Some path \<Rightarrow> on PaymentSimulator path
         | None \<Rightarrow> (Err (Ext ''no such host''), x))))"

lemma demo_ports: "show_int 8081 = ''8081''" "show_int 8082 = ''8082''"
  by (simp_all add: show_int_def show_nat.simps char_of_def bit_0)

lemma demo_bases:
  "BaseURL (clientOf (cf_ServicesConfig demoConfigs) GuestManager) = ''http://guest-manager:8081''"
  "BaseURL (clientOf (cf_ServicesConfig demoConfigs) CottageManager) = ''http://cottages:8081''"
  "BaseURL (clientOf (cf_ServicesConfig demoConfigs) PaymentSimulator) = ''http://payments:8082''"
  by (simp_all add: clientOf_def NewRestyClient_def demoConfigs_def demo_ports)

lemma demo_routed: "routed demoTransport (cf_ServicesConfig demoConfigs) = httpDo memExternal"
proof (intro ext)
  fix r x
  show "routed demoTransport (cf_ServicesConfig demoConfigs) r x = httpDo memExternal r x"
    by (cases r; cases "rq_service r") (simp_all add: routed_def sendThrough_def demo_bases demoTransport_def stripPrefix_def memExternal_def)
qed

lemma rewire_same: "rewire (httpDo (sysE S)) S = S"
  by (simp add: rewire_def)

definition strictTransport :: "Mem Transport" where
  "strictTransport t q = (if take 11 (hr_url q) = ''http://evil'' then (\<lambda>x. (Panics ''contacted'', x)) else demoTransport t q)"

theorem configured_addresses_only_witness:
  "\<exists>w'. startJourney (journeyFactory demoSystem demoConfigs (Some demoCache))
      (\<lambda>g. JourneyObject_Start strictTransport demoSystem g 6) demoWorld = (Ret (), w')"
proof -
  have "\<forall>t q. addressed (cf_ServicesConfig demoConfigs) t q \<longrightarrow> strictTransport t q = demoTransport t q"
  proof (intro allI impI)
    fix t q
    assume "addressed (cf_ServicesConfig demoConfigs) t q"
    then obtain svc host port path where "addressOf (cf_ServicesConfig demoConfigs) svc = (host, port)"
      and "hr_url q = ''http://'' @ host @ '':'' @ show_int port @ ''/'' @ path"
      by (auto simp: addressed_def)
    then show "strictTransport t q = demoTransport t q"
      by (cases svc) (auto simp: strictTransport_def demoConfigs_def)
  qed
  note same = configured_addresses_only [OF this, of demoSystem "Some demoCache" 6 "httpDo memExternal"]
  have demo: "rewire (httpDo memExternal) demoSystem = demoSystem" using rewire_same [of demoSystem] by simp
  have addr: "rc_Communication (cf_RabbitMqConsumersConfig demoConfigs) = demoConfig"
    "sv_GuestManagerUrl (cf_ServicesConfig demoConfigs) = ''guest-manager''" "sv_GuestManagerPort (cf_ServicesConfig demoConfigs) = 8081"
    by (simp_all add: demoConfigs_def)
  obtain w' where w': "Start_journey demoSystem demoJourney 6 demoBuilt = (Ret (), w')" using demo_complete by blast
  have "bindE (buildGuestJourney demoSystem (Some demoCache) demoConfig ''guest-manager'' 8081)
      (\<lambda>G. Start_journey demoSystem G 6) demoWorld = (Ret (), w')"
    using w' by (simp add: bindE_run demo_build)
  then have "startJourney (journeyFactory demoSystem demoConfigs (Some demoCache))
      (\<lambda>g. JourneyObject_Start demoTransport demoSystem g 6) demoWorld = (Ret (), w')"
    unfolding startJourney_is journeyFactory_is demo_routed demo addr by (simp add: ignoreErr_def)
  then show ?thesis unfolding same demo by blast
qed

end
