(* ===== verification/Topics.thy ===== *)
theory Topics
  imports Waits
begin

text \<open>
  The operations of the three topics of the bus as the waits call them, one pair per topic as
  in the code (\<open>subscribe...\<close> and \<open>takePending...\<close> of wait\_payment\_request.go,
  wait\_booking\_confirmation.go and wait\_checkin\_today.go in
  internal/app/journey/journey\_services). A subscription returns the function that ends it.
  The shared wait of theory Waits is shown to be the wait that uses these operations of its
  own topic, and to leave the other topics alone.
\<close>

definition subscribePaymentRequest :: "GuestCommunicationBus \<Rightarrow> nat \<Rightarrow> GuestCommunicationBus \<times> (GuestCommunicationBus \<Rightarrow> GuestCommunicationBus)" where
  "subscribePaymentRequest b ch =
     (b\<lparr>paymentRequests := subscribe ch (paymentRequests b)\<rparr>,
      \<lambda>b. b\<lparr>paymentRequests := unsubscribe ch (paymentRequests b)\<rparr>)"

definition takePendingPaymentRequest :: "GuestCommunicationBus \<Rightarrow> (PaymentRequest \<times> GuestCommunicationBus) option" where
  "takePendingPaymentRequest b =
     (case pendingMsgs (paymentRequests b) of
        [] \<Rightarrow> None
      | msg # rest \<Rightarrow> Some (msg, b\<lparr>paymentRequests := (paymentRequests b)\<lparr>pendingMsgs := rest\<rparr>\<rparr>))"

definition subscribeBookingConfirmation :: "GuestCommunicationBus \<Rightarrow> nat \<Rightarrow> GuestCommunicationBus \<times> (GuestCommunicationBus \<Rightarrow> GuestCommunicationBus)" where
  "subscribeBookingConfirmation b ch =
     (b\<lparr>bookingConfirmations := subscribe ch (bookingConfirmations b)\<rparr>,
      \<lambda>b. b\<lparr>bookingConfirmations := unsubscribe ch (bookingConfirmations b)\<rparr>)"

definition takePendingBookingConfirmation :: "GuestCommunicationBus \<Rightarrow> (BookingConfirmedNotificationEvent \<times> GuestCommunicationBus) option" where
  "takePendingBookingConfirmation b =
     (case pendingMsgs (bookingConfirmations b) of
        [] \<Rightarrow> None
      | msg # rest \<Rightarrow> Some (msg, b\<lparr>bookingConfirmations := (bookingConfirmations b)\<lparr>pendingMsgs := rest\<rparr>\<rparr>))"

definition subscribeCheckinToday :: "GuestCommunicationBus \<Rightarrow> nat \<Rightarrow> GuestCommunicationBus \<times> (GuestCommunicationBus \<Rightarrow> GuestCommunicationBus)" where
  "subscribeCheckinToday b ch =
     (b\<lparr>checkinToday := subscribe ch (checkinToday b)\<rparr>,
      \<lambda>b. b\<lparr>checkinToday := unsubscribe ch (checkinToday b)\<rparr>)"

definition takePendingCheckinToday :: "GuestCommunicationBus \<Rightarrow> (CheckInTodayNotification \<times> GuestCommunicationBus) option" where
  "takePendingCheckinToday b =
     (case pendingMsgs (checkinToday b) of
        [] \<Rightarrow> None
      | msg # rest \<Rightarrow> Some (msg, b\<lparr>checkinToday := (checkinToday b)\<lparr>pendingMsgs := rest\<rparr>\<rparr>))"

lemmas topic_operation_defs = subscribePaymentRequest_def takePendingPaymentRequest_def subscribeBookingConfirmation_def
  takePendingBookingConfirmation_def subscribeCheckinToday_def takePendingCheckinToday_def

text \<open>
  What a wait relies on: \<open>sub\<close> and \<open>takePend\<close> are the operations of the topic that the
  wait reads, and an update of the topic is one of nothing else.
\<close>

locale topic_interface = bus_topic get upd decode
  for get :: "GuestCommunicationBus \<Rightarrow> 'm Topic"
    and upd :: "('m Topic \<Rightarrow> 'm Topic) \<Rightarrow> GuestCommunicationBus \<Rightarrow> GuestCommunicationBus"
    and decode :: "Runtime \<Rightarrow> Delivery \<Rightarrow> 'm option" +
  fixes sub :: "GuestCommunicationBus \<Rightarrow> nat \<Rightarrow> GuestCommunicationBus \<times> (GuestCommunicationBus \<Rightarrow> GuestCommunicationBus)"
    and takePend :: "GuestCommunicationBus \<Rightarrow> ('m \<times> GuestCommunicationBus) option"
  assumes sub_is: "sub b ch = (upd (subscribe ch) b, upd (unsubscribe ch))"
    and take_is: "takePend b = map_option (\<lambda>(m, t). (m, upd (\<lambda>_. t) b)) (takePending (get b))"
    and upd_upd: "upd f (upd g b) = upd (\<lambda>t. f (g t)) b"
begin

lemma wait_through:
  "waitMessage S get upd match w =
     (let (ch, t) = makeChan (get (bus w));
          (b, cancel) = sub (upd (\<lambda>_. t) (bus w)) ch;
          (r, w') = await S (waitTurn S get upd match ch) AtTake (w\<lparr>bus := b\<rparr>)
      in (r, w'\<lparr>bus := cancel (bus w')\<rparr>))"
  by (simp add: waitMessage_def sub_is upd_upd Let_def split: prod.splits)

lemma take_through:
  "waitTurn S get upd match ch AtTake c w =
     (case takePend (bus w) of
        None \<Rightarrow> (Inr AtSelect, w)
      | Some (msg, b) \<Rightarrow> tryMatch match msg AtSelect (w\<lparr>bus := b\<rparr>))"
  by (simp add: take_is split: option.splits prod.splits)

text \<open>Messages are taken oldest first, each once, and a published message that no one waits for comes last.\<close>

lemma take_oldest: "takePend b = Some (m, b') \<Longrightarrow> pendingMsgs (get b) = m # pendingMsgs (get b')"
  by (auto simp: take_is takePending_def get_upd split: list.splits)

lemma take_none: "takePend b = None \<longleftrightarrow> pendingMsgs (get b) = []"
  by (auto simp: take_is takePending_def split: list.splits)

text \<open>A subscription that is ended leaves the subscribers as they were, and no queued message is touched.\<close>

lemma subscription_ends:
  assumes "topicInv (get b)" and "ch \<notin> set (items (chans (get b)))" and "sub b ch = (b', cancel)"
  shows "set (items (chans (get b'))) = insert ch (set (items (chans (get b))))"
    and "set (items (chans (get (cancel b')))) = set (items (chans (get b)))"
    and "pendingMsgs (get (cancel b')) = pendingMsgs (get b)"
proof -
  have si: "setInv (chans (get b))" using assms(1) by (simp add: topicInv_def)
  show added: "set (items (chans (get b'))) = insert ch (set (items (chans (get b))))"
    using assms(3) by (auto simp: sub_is get_upd subscribe_def gs.elems_add [OF si])
  have "setInv (chans (get b'))" using assms(3) gs.inv_add [OF si, of ch] by (auto simp: sub_is get_upd subscribe_def)
  then show "set (items (chans (get (cancel b')))) = set (items (chans (get b)))"
    using assms(2,3) added by (auto simp: sub_is get_upd unsubscribe_def gs.elems_remove)
  show "pendingMsgs (get (cancel b')) = pendingMsgs (get b)"
    using assms(3) by (auto simp: sub_is get_upd subscribe_def unsubscribe_def)
qed

end

interpretation paymentTopic: topic_interface paymentRequests paymentRequests_update decodePayment
    subscribePaymentRequest takePendingPaymentRequest
  by unfold_locales (auto simp: topic_operation_defs takePending_def split: list.splits)

interpretation confirmationTopic: topic_interface bookingConfirmations bookingConfirmations_update decodeConfirmation
    subscribeBookingConfirmation takePendingBookingConfirmation
  by unfold_locales (auto simp: topic_operation_defs takePending_def split: list.splits)

interpretation checkinTopic: topic_interface checkinToday checkinToday_update decodeCheckin
    subscribeCheckinToday takePendingCheckinToday
  by unfold_locales (auto simp: topic_operation_defs takePending_def split: list.splits)

text \<open>The three waits subscribe to their own topic, wait, and end the subscription whatever the outcome.\<close>

theorem waits_through_topics:
  "WaitPaymentRequestMessage S C w =
     (let (ch, t) = makeChan (paymentRequests (bus w));
          (b, cancel) = subscribePaymentRequest ((bus w)\<lparr>paymentRequests := t\<rparr>) ch;
          (r, w') = await S (waitTurn S paymentRequests paymentRequests_update (\<lambda>m. matchPaymentRequest (sysE S) C (Some m)) ch) AtTake (w\<lparr>bus := b\<rparr>)
      in (r, w'\<lparr>bus := cancel (bus w')\<rparr>))"
  "WaitBookingConfirmationMessage S C w =
     (let (ch, t) = makeChan (bookingConfirmations (bus w));
          (b, cancel) = subscribeBookingConfirmation ((bus w)\<lparr>bookingConfirmations := t\<rparr>) ch;
          (r, w') = await S (waitTurn S bookingConfirmations bookingConfirmations_update (\<lambda>m. matchBookingConfirmation (sysE S) C (Some m)) ch) AtTake (w\<lparr>bus := b\<rparr>)
      in (r, w'\<lparr>bus := cancel (bus w')\<rparr>))"
  "WaitCheckinTodayMessage S C w =
     (let (ch, t) = makeChan (checkinToday (bus w));
          (b, cancel) = subscribeCheckinToday ((bus w)\<lparr>checkinToday := t\<rparr>) ch;
          (r, w') = await S (waitTurn S checkinToday checkinToday_update (\<lambda>m. matchCheckinToday (sysE S) C (Some m)) ch) AtTake (w\<lparr>bus := b\<rparr>)
      in (r, w'\<lparr>bus := cancel (bus w')\<rparr>))"
  by (simp_all only: WaitPaymentRequestMessage_def WaitBookingConfirmationMessage_def WaitCheckinTodayMessage_def
      paymentTopic.wait_through confirmationTopic.wait_through checkinTopic.wait_through)

end
