(* ===== verification/Spec2Isabelle.thy ===== *)
theory Spec2Isabelle
  imports Data_properties Flow_properties Bus_properties Stay_properties Program_properties Wiring_properties Topics
begin

text \<open>
  A verification of the guest simulator (\<open>src/internal\<close>, Go). The program plays hotel guests:
  it keeps a number of journeys running, and each journey invents a guest, registers it with the
  guest manager, searches and books a cottage, waits for a payment request on the guest's own broker
  queue, pays, waits for the confirmation and for the check-in notice, lives through the stay
  in a websocket conversation with the lodging system that is paced by hour events, checks out and
  cleans up.

  \<^bold>\<open>How the code is modelled.\<close> A Go function is a function \<open>'w \<Rightarrow> 'a res \<times> 'w\<close> (theory
  \<open>Prelude\<close>): it returns a value (\<open>Ret\<close>), returns an error (\<open>Err\<close>), panics (\<open>Panics\<close>) or does
  not return (\<open>Blocks\<close>). The world holds the shared journey state, the broker client, the bus, the hub of hour
  events, the chat client, and the state of everything outside (\<open>w_ext\<close>). Code that is not
  in the repository is a record of functions on that outside state, passed as an argument:
  \<open>External\<close> (Redis, HTTP services, clock, random numbers, context), \<open>Amqp\<close>, \<open>Net\<close>
  (websocket, protojson, uuid), \<open>Runtime\<close> (protobuf, map order), \<open>OTel\<close> and \<open>Libs\<close> (OpenTelemetry, environment, gRPC, HTTP server). What is relied on is named:
  \<open>redisLaws\<close>, \<open>amqpLaws\<close>, \<open>netLaws\<close> and \<open>systemLaws\<close> say that the store keeps what
  is set and that nothing else writes to it; \<open>wireLaws\<close> that a websocket write appends one frame and that the other side decodes what was
  encoded, \<open>chatOnly\<close> that no other library writes frames; \<open>closingLaws\<close> that closing calls come back; \<open>responsive\<close> and \<open>availability\<close> are the
  hypotheses of single theorems. \<open>neverCancelled\<close> is no law but a scenario, the runs before the process is told to stop: afterwards a flow
  returns without an error and without its work (\<open>cancelled_flow_ends\<close>), so theorems on what a flow or a whole journey has
  achieved are stated for these runs, and say so; those on invariants, release and types hold without it. Theory \<open>Memory\<close> satisfies all of them with a concrete system, theories
  \<open>Demo\<close> and \<open>Demostay\<close> compute one complete journey on it, from \<open>buildGuestJourney\<close> to the
  cleanup, and the witnesses apply the theorems to that run.

  \<^bold>\<open>Concurrency.\<close> A journey is one goroutine; the bus pump, the hour event service, the hour
  notifiers, those of the other journeys too, and the chat reader run beside it. A schedule (theory \<open>Schedule\<close>) is a list of actions, each
  a step of another goroutine or a turn of the journey with the select case it takes; a
  blocking loop consumes the schedule, and one that is still waiting at its end has not returned. Before each of the three waits for a message any number
  of steps of the other goroutines may happen (\<open>afterOthers\<close>), so that a message can be pending when the wait subscribes. Theorems hold for
  every schedule; at other places a journey runs on without the others, whose steps until the next blocking point are taken there. The contract of such a loop is the locale \<open>select_loop\<close>, interpreted for every loop
  of the code (the three waits, the acknowledgement, the next message, the hour).

  \<^bold>\<open>Theories, in the order of the code.\<close>
  \<^item> \<open>Prelude\<close>, \<open>Gotime\<close>: errors, results, the string functions and package \<open>time\<close> as
    the sources use them (calendar, durations that saturate at 64 bits, RFC 3339).
  \<^item> \<open>Domain\<close>, \<open>Encoding\<close>, \<open>Messages\<close>: \<open>domain/\<close> and its DTOs, with their JSON form on valid text and on any bytes, and the generated message structs.
  \<^item> \<open>World\<close>, \<open>Cache\<close>: HTTP calls; \<open>infra/redis\<close>, \<open>infra/clock/client.go\<close> and \<open>cache_service.go\<close>. Locale
    \<open>redis_store\<close> is what the cache needs of Redis, and gives \<open>journey_cache\<close>, the contract the steps use.
  \<^item> \<open>Flow\<close>, \<open>Register\<close>, \<open>Selectperiod\<close>, \<open>Bookingsteps\<close>, \<open>Payment\<close>: \<open>app/flows\<close>, \<open>app/steps\<close>
    and the flow tables of \<open>config\<close>. Locale \<open>step_invariant\<close> says what a flow promises from what its
    steps promise; a store with a live context (\<open>live_store\<close>) gives it for the registration, booking and
    payment graphs.
  \<^item> \<open>Channels\<close>, \<open>Bus\<close>, \<open>Communication\<close>, \<open>Waits\<close>, \<open>Topics\<close>, \<open>Origins\<close>: \<open>app/journey/journey_services\<close>: channels of capacity one, the
    three topics, the delivery pump, set-up and closing of the communication, the three waits and the
    operations of their topics (locale \<open>topic_interface\<close>), and where the messages on the bus come from. The moves of topics and
    bus are the step relations \<open>topicMove\<close> and \<open>busMove\<close>; every operation of a journey and of the pump is a sequence of them.
  \<^item> \<open>Timeevents\<close>: \<open>app/services\<close>, the hour event service from its start to its end and the notifiers, as a step relation;
    a notification lists the subscribers and then sends to one per step (\<open>hubSend\<close>), and \<open>hubNotify\<close> is the rest of one without interruption.
  \<^item> \<open>Chat\<close>, \<open>Chatops\<close>: \<open>infra/websocket/lodging_chat.go\<close>.
  \<^item> \<open>Mq\<close>: \<open>infra/mq\<close>.
  \<^item> \<open>Lodging\<close>, \<open>Staying\<close>: \<open>run_lodging.go\<close>, \<open>lodging_flow.go\<close>; the plan, the gates, and what a completed stay has waited for.
  \<^item> \<open>Wire\<close>: the frames a stay writes to the chat connection. Locale \<open>wire\<close> is what the stay needs of the network.
  \<^item> \<open>Journey\<close>, \<open>Completion\<close>: \<open>guest_journey.go\<close>, the phases and the whole.
  \<^item> \<open>Frames\<close>, with parts of \<open>Origins\<close> and \<open>Journey\<close>: the frame conditions. Locales \<open>step_frame\<close>, \<open>flow_frame\<close> and \<open>journey_frame\<close>
    say which conditions the steps, the flows and the preparation of a journey keep, \<open>loop_frame\<close>, \<open>env_frame\<close> and \<open>stay_frame\<close> which ones
    the other goroutines, blocking loops and a stay keep. They are interpreted for the guest, the times of the hub, the steps of the hub, the frames
    on the wire, the moves of the bus and the type of the store.
  \<^item> \<open>Speech\<close>, \<open>Typed\<close>, \<open>Sharedhub\<close>: what a whole journey says on the wire, the type of what it leaves in Redis, and the hub it shares
    with other journeys and the bus it moves.
  \<^item> \<open>Config\<close>, \<open>Telemetry\<close>, \<open>Logging\<close>: \<open>config/config.go\<close> with the JSON form its structs get in the log,
    \<open>infra/telemetry\<close>, \<open>infra/log\<close>.
  \<^item> \<open>Program\<close>, \<open>Process\<close>: \<open>main.go\<close>, \<open>infra/init.go\<close>, the probes and their server, and the process put together from
    the constructors and closing functions of its parts.
  \<^item> \<open>Routing\<close>, \<open>Wiring\<close>: the objects that \<open>main\<close> puts together: \<open>infra/http/resty_client.go\<close>, the structs and
    constructors of \<open>app/steps\<close> and \<open>app/flows\<close>, the struct \<open>GuestJourney\<close>, the factory and a round of \<open>runJourneys\<close>. Locale
    \<open>flow_presentation\<close> says when a flow over objects runs as the flow over named steps.
  \<^item> \<open>Fakes\<close>: the test doubles; the double of the cache is an instance of \<open>journey_cache\<close>.
  \<^item> \<open>Data_properties\<close>, \<open>Flow_properties\<close>, \<open>Bus_properties\<close>, \<open>Stay_properties\<close>,
    \<open>Program_properties\<close>, \<open>Wiring_properties\<close> and this theory: the properties.

  \<^bold>\<open>What is shown.\<close> Of whole journeys: one that returns without an error has booked a stay found by one search,
  has paid what a delivered request for it asked, had a delivered confirmation and check-in notice for that booking, has gone through every gate of
  its plan, has said on the wire exactly the script of its stay, and has released its cache entry and bus; whatever becomes of
  a journey, the documents it leaves in Redis are well typed. The journeys that the process builds from its configuration are these
  journeys, with every service at its configured address, and they send HTTP to no other address. Of the parts: registration and payment
  leave in state and cache what the services answered; the search finds the earliest stay of every window and the first of these over all cottages and windows; the random choice
  takes a transition exactly for its share of the weights; along every random path a booking
  with an id is the one that was posted and confirmed; waits accept only matching messages that were delivered; messages are conserved by
  the bus, settled once, and handed out in order by the chat; in every journey, and whatever the other goroutines do later, the topics keep their invariant and a bus that has been closed stays so;
  an acknowledgement is the one of the message sent; a stay of any number of nights has the exact timetable of its plan, from three in the afternoon to nine in the morning;
  hour events reach their waiters, and only those of the right hour, and once a stay has returned the goroutines that wait for it end, whatever events still come; the JSON
  of the cache round trips on valid text and replaces the rest; reconnecting is bounded and closing final; a start of the broker client that fails has closed, by the library's own calls, what it had opened; the
  pool keeps its size; shutdown undoes the start in reverse; the log shows no secret. The theorems about defects (a pending
  message that is overlooked, a wait that outlives its day, an event stream that is never taken up again, a cleanup that cannot be repeated, a
  day without a plan, a pool that does not wait for its journeys) describe what the code does, too.

  \<^bold>\<open>Fuel.\<close> The registration and payment flows are run with the three and two rounds they need
  (\<open>flows_return\<close>); the booking flow is a random walk without a bound, so its fuel is an argument of
  every theorem, and \<open>flow_fuel\<close> shows that more fuel changes nothing. The loops over chat
  messages use the length of the schedule, which is always enough (\<open>message_loops_unbounded\<close>); both are lemmas about the model, not properties of the program.

  \<^bold>\<open>Abstractions.\<close> Floating-point weights are rationals with a rounding function as a parameter.
  Deliveries carry their decoded form by the runtime's protobuf functions. A publish is one atomic step, because the code
  holds the lock of the topic while it sends; the hub gives its lock back before it sends, so there every send is a step of its own. Mutexes are not modelled otherwise.
  Strings are sequences of bytes; \<open>Save\<close> puts them into the document as they are, which is what \<open>json.Marshal\<close> does with valid UTF-8
  (\<open>encode_valid\<close>). The strings of a journey are such: gofakeit makes them, or a JSON decoder (which replaces invalid bytes), or a proto3 decoder (which refuses them).
  Acknowledging a delivery is an entry in a log: the code only logs the error of the call and never asks for redelivery.
  Time passes only through the hour events and the clock service; sleeps are left out. Log
  calls (but that of the configuration), spans and metrics are left out. \<open>runJourneys\<close> is a step relation of its
  own; in the composed process it is an argument, and what one of its rounds runs is \<open>startJourney\<close>.

  \<^bold>\<open>Not modelled.\<close> The reading of environment variables (a library driven by struct tags), what
  resty and its transport do below an absolute URL, generated encoders and gRPC stubs, the interfaces of \<open>port\<close> (they have no code). \<open>WithGroup\<close> of the log handler,
  the attributes of spans and the structs that no code uses are left out.
\<close>

section \<open>The journey\<close>

text \<open>
  C1. When \<open>Start\<close> of a journey that \<open>buildGuestJourney\<close> made returns without an error, its context
  not cancelled, the guest has stayed: the booking has an id and a period found by one availability answer, a
  delivered check-in notice matches it, for every step of the plan of that period the hub knew at the start, or the
  schedule has, an hour event not before the step's hour, so there is one for nine o'clock of the third day
  after arrival, and the cache entry and the bus have been released.
\<close>

theorem journey_complete:
  assumes "systemLaws S content" and "amqpLaws (sysA S) content" and "neverCancelled (sysE S)"
    and run: "bindE (buildGuestJourney S C cfg host port) (\<lambda>G. Start_journey S G fuel) w = (Ret (), w')"
    and T: "T = hubTimes (hub w) \<union> eventTimes S (sched w)"
  shows "\<exists>gid b p. BookingID b \<noteq> [] \<and> SelectedPeriod b = Some p \<and> foundTogether (sysE S) b
    \<and> (\<exists>m \<in> decoded decodeCheckin (sysR S) (deliveries (sched w)). \<exists>v. Booking v = Some b \<and> checkinFor gid v m)
    \<and> (\<forall>st \<in> set (fullPlan p). HasNotBeforeHour (gate st) \<longrightarrow> (\<exists>t \<in> T. ns (gateTarget p st) \<le> ns t))
    \<and> (\<exists>t \<in> T. ns (Start p) + 3 * DayNs + 9 * Hour \<le> ns t) \<and> released content w'"
proof -
  from run obtain G w1 where G: "buildGuestJourney S C cfg host port w = (Ret G, w1)" and start: "Start_journey S G fuel w1 = (Ret (), w')"
    by (auto simp: bindE_Ret_iff)
  note built = buildGuestJourney_Ret [OF G]
  obtain w2 w3 where prep: "prepareStay S G fuel w1 = (Ret (), w2)"
    and stay: "RunLodgingStayFlow S True (gj_chatURL G) (Some (gj_cache G)) w2 = (Ret (), w3)"
    and clean: "cleanupGuestJourney S G w3 = (Ret (), w')"
    using Start_journey_Ret [OF start] by blast
  have eqs: "bus w1 = NewGuestCommunicationBus" "gj_cacheService G = Some (Some (gj_cache G))" "sched w1 = sched w" "hub w1 = hub w"
    using built by auto
  have "journey_world S content" using assms(1-3) by unfold_locales
  from journey_world.prepared [OF this eqs(1) refl eqs(2) prep, unfolded eqs(3)] obtain gid g b where
    b: "BookingID b \<noteq> []" "foundTogether (sysE S) b" "underWay content (sysR S) (deliveries (sched w)) gid g (Some b) w2"
      "\<exists>m \<in> decoded decodeCheckin (sysR S) (deliveries (sched w)). \<exists>v. Booking v = Some b \<and> checkinFor gid v m"
    by blast
  have laws: "redisLaws (sysE S) content" using assms(1) by (simp add: systemLaws_def)
  have "clockIn S T w1" using clockIn_start [of S w1] built T by simp
  from keepsD [OF clockFrame.prepare this prep] have "clockIn S T w2" .
  moreover have "journeyIs content gid (gid, Some g, Some b) w2" using b(3) by (simp add: underWay_def)
  ultimately obtain p where p: "SelectedPeriod b = Some p" "\<forall>st \<in> set (fullPlan p). gateOpen T p st"
    using stay_of_booking [OF laws assms(3) _ _ stay] by blast
  have "released content w'" using cleanup_released [OF laws assms(2) _ clean] built by blast
  with p b leaves_at_nine [OF b(2) p] show ?thesis
    by (intro exI [of _ gid] exI [of _ b] exI [of _ p]) (simp add: gateOpen_def)
qed

theorem journey_complete_witness:
  "\<exists>w'. bindE (buildGuestJourney demoSystem (Some demoCache) demoConfig ''guest-manager'' 8081)
      (\<lambda>G. Start_journey demoSystem G 6) demoWorld = (Ret (), w') \<and> released mem_store w'
    \<and> (\<exists>p :: Period. \<exists>t \<in> hubTimes (hub demoWorld) \<union> eventTimes demoSystem (sched demoWorld). ns (Start p) + 3 * DayNs + 9 * Hour \<le> ns t)"
proof -
  obtain w' where run: "bindE (buildGuestJourney demoSystem (Some demoCache) demoConfig ''guest-manager'' 8081)
      (\<lambda>G. Start_journey demoSystem G 6) demoWorld = (Ret (), w')"
    using demo_complete by (auto simp: bindE_run demo_build)
  have laws: "amqpLaws (sysA demoSystem) mem_store" "neverCancelled (sysE demoSystem)" using mem_amqp mem_live by simp_all
  from journey_complete [OF mem_system laws run refl] run show ?thesis by blast
qed
text \<open>
  C2. Whatever the schedule, the random choices and the answers of the services: a journey that \<open>Start\<close>
  finishes without an error, its context not cancelled, has written to the chat connection the script of one stay of three nights,
  with one key throughout, and no other action or key message, from the building of the journey to its cleanup.
\<close>

theorem journey_on_the_wire:
  assumes "systemLaws S content" and "amqpLaws (sysA S) content" and "neverCancelled (sysE S)"
    and "wireLaws S frames payloadOf" and "chatOnly S frames"
    and run: "bindE (buildGuestJourney S C cfg host port) (\<lambda>G. Start_journey S G fuel) w = (Ret (), w')"
  shows "\<exists>k. spoken payloadOf (frames (w_ext w')) = spoken payloadOf (frames (w_ext w)) @ stayScript k 3"
proof -
  have "chat_only S frames payloadOf" using assms(4,5) by unfold_locales
  from chat_only.journey_spoken [OF this assms(1-3) _ run] show ?thesis by (simp add: spokenIs_def)
qed

theorem journey_on_the_wire_witness:
  "\<exists>k w'. bindE (buildGuestJourney demoSystem (Some demoCache) demoConfig ''guest-manager'' 8081)
      (\<lambda>G. Start_journey demoSystem G 6) demoWorld = (Ret (), w')
    \<and> spoken memDecode (mem_log (w_ext w')) = stayScript k 3"
proof -
  obtain w' where run: "bindE (buildGuestJourney demoSystem (Some demoCache) demoConfig ''guest-manager'' 8081)
      (\<lambda>G. Start_journey demoSystem G 6) demoWorld = (Ret (), w')"
    using demo_complete by (auto simp: bindE_run demo_build)
  have laws: "amqpLaws (sysA demoSystem) mem_store" "neverCancelled (sysE demoSystem)" using mem_amqp mem_live by simp_all
  have "mem_log (w_ext demoWorld) = []" by (simp add: demoWorld_def memStart_def)
  with journey_on_the_wire [OF mem_system laws mem_wire mem_chatOnly run] run show ?thesis by (auto simp: spoken_def)
qed

text \<open>
  C7. The store stays well typed. Whatever the schedule, the random choices and the answers of the services, and
  whether the journey ends, fails, panics or is still waiting: if every document in Redis decodes to a
  journey entry whose times have a JSON form, so does every document afterwards.
\<close>

theorem store_well_typed:
  assumes "systemLaws S content" and "amqpLaws (sysA S) content" and "typedStore content w"
    and "bindE (buildGuestJourney S C cfg host port) (\<lambda>G. Start_journey S G fuel) w = (r, w')"
  shows "typedStore content w'"
proof -
  have "typed_world S content" using assms(1,2) by unfold_locales
  note kept = typed_world.build [OF this] typed_world.journey [OF this]
  show ?thesis by (rule keepsD [OF keeps_bindE [OF kept] assms(3,4)])
qed

theorem store_well_typed_witness:
  "typedStore mem_store demoWorld
    \<and> typedStore mem_store (snd (bindE (buildGuestJourney demoSystem (Some demoCache) demoConfig ''guest-manager'' 8081)
        (\<lambda>G. Start_journey demoSystem G 6) demoWorld))"
proof -
  have start: "typedStore mem_store demoWorld" by (simp add: typedStore_def demoWorld_def memStart_def)
  have laws: "amqpLaws (sysA demoSystem) mem_store" using mem_amqp by simp
  from store_well_typed [OF mem_system laws start] start show ?thesis by (metis prod.collapse)
qed

text \<open>
  C5. Whatever the schedule of deliveries and the random choices: when a journey that
  \<open>buildGuestJourney\<close> made gets as far as the stay, its context not cancelled, it has a registered guest, a booking of a
  cottage and a period found together by one availability answer, an invoice named by a
  delivered payment request that matches the booking and paid, a delivered confirmation and
  a delivered check-in notice for that very booking, and the cache and the bus hold this journey.
\<close>

theorem journey_prepared:
  assumes "systemLaws S content" and "amqpLaws (sysA S) content" and "neverCancelled (sysE S)"
    and run: "bindE (buildGuestJourney S C cfg host port) (\<lambda>G. prepareStay S G fuel) w = (Ret (), w')"
  shows "\<exists>gid g b. gid \<noteq> [] \<and> BookingID b \<noteq> [] \<and> SelectedCottage b \<noteq> [] \<and> foundTogether (sysE S) b
    \<and> underWay content (sysR S) (deliveries (sched w)) gid g (Some b) w'
    \<and> (\<exists>m \<in> decoded decodePayment (sysR S) (deliveries (sched w)). \<exists>v v'. Booking v = Some b \<and> PersonalInfo v = Some g
        \<and> invoiced (sysE S) m v \<and> paidWith (sysE S) v v')
    \<and> (\<exists>m \<in> decoded decodeConfirmation (sysR S) (deliveries (sched w)). \<exists>v. Booking v = Some b \<and> confirms gid v m)
    \<and> (\<exists>m \<in> decoded decodeCheckin (sysR S) (deliveries (sched w)). \<exists>v. Booking v = Some b \<and> checkinFor gid v m)"
proof -
  from run obtain G w1 where G: "buildGuestJourney S C cfg host port w = (Ret G, w1)" and prep: "prepareStay S G fuel w1 = (Ret (), w')"
    by (auto simp: bindE_Ret_iff)
  have "journey_world S content" using assms(1-3) by unfold_locales
  from journey_world.prepared [OF this _ refl _ prep] buildGuestJourney_Ret [OF G] show ?thesis by simp
qed

theorem journey_prepared_witness:
  "\<exists>gid g b w'. gid \<noteq> [] \<and> BookingID b \<noteq> [] \<and> foundTogether memExternal b
    \<and> underWay mem_store (sysR demoSystem) (deliveries demoSched) gid g (Some b) w'
    \<and> bindE (buildGuestJourney demoSystem (Some demoCache) demoConfig ''guest-manager'' 8081)
        (\<lambda>G. prepareStay demoSystem G 6) demoWorld = (Ret (), w')"
proof -
  have run: "bindE (buildGuestJourney demoSystem (Some demoCache) demoConfig ''guest-manager'' 8081)
      (\<lambda>G. prepareStay demoSystem G 6) demoWorld = (Ret (), demoAt demoListed demoPaid [] demoConsumer demoBusCheckedIn demoStaySched)"
    by (simp add: bindE_run demo_build demo_prepare)
  have "sched demoWorld = demoSched" by (simp add: demoWorld_def)
  with journey_prepared [OF mem_system _ _ run] mem_amqp mem_live run show ?thesis by simp blast
qed

text \<open>
  C6. When \<open>Start\<close> returns, with or without an error, the journey's entry is gone from the cache
  and the bus has let go of its consumer; the one exception is that the cleanup itself
  failed, and then its error is joined to the one of the journey.
\<close>

theorem journey_releases:
  assumes "redisLaws (sysE S) content" and "amqpLaws (sysA S) content"
    and "gj_cacheService G = Some (Some c)" and run: "Start_journey S G fuel w = (r, w')"
    and returned: "r = Ret () \<or> (\<exists>err. r = Err err)"
  shows "released content w'
    \<or> (\<exists>err cleanupErr w1. r = Err (Joined err cleanupErr) \<and> cleanupGuestJourney S G w1 = (Err cleanupErr, w'))"
proof -
  have rel: "released content w2" if "cleanupGuestJourney S G w1 = (Ret (), w2)" for w1 w2
    using cleanup_released [OF assms(1-3) that] .
  obtain r1 w1 where body: "journeyBody S G fuel w = (r1, w1)" by fastforce
  obtain r2 w2 where clean: "cleanupGuestJourney S G w1 = (r2, w2)" by fastforce
  have ended: "released content w1" if "r1 = Ret u" for u
    using body that rel by (auto simp: journeyBody_def thenE_Ret_iff)
  show ?thesis
    using run returned body clean ended rel
    by (cases r1; cases r2) (auto simp: Start_journey_def onErrorJoin_def bindE_def tryE_def)
qed

theorem journey_releases_witness:
  "released mem_store (snd (Start_journey demoSystem strandedJourney 6 demoBuilt))"
proof -
  obtain e where run: "Start_journey demoSystem strandedJourney 6 demoBuilt =
      (Err e, snd (cleanupGuestJourney demoSystem strandedJourney strandedAt))" and "\<nexists>a b. e = Joined a b"
    using stranded_run by blast
  moreover have "gj_cacheService strandedJourney = Some (Some demoCache)" by (simp add: strandedJourney_def demoJourney_def)
  ultimately show ?thesis
    using journey_releases [OF _ _ _ run, of mem_store demoCache] mem_laws mem_amqp by simp
qed

end
